theory Spec2Isabelle
  imports Complex_Main "HOL-Library.Multiset"
begin

section \<open>JavaScript values\<close>

text \<open>
  The calculators are TypeScript over IEEE doubles. In the forecast, impact, route and
  menu calculators rounding error is abstracted: a finite number is a real. (The
  statistics toolkit further down is modelled with the rounding.) What is not abstracted
  is what the code does when an operation has no finite result. Where a calculator can divide by zero or read a non-number, its numbers
  are \<open>jsnum\<close>: a finite real, one of the two infinities, or NaN, with the arithmetic of
  ECMAScript on them. \<open>Fin 0\<close> stands for the positive zero; the sums and differences the
  calculators divide by are never the negative zero.
\<close>

datatype jsnum = Fin real | PInf | NInf | NaN

fun js_mul :: "jsnum \<Rightarrow> jsnum \<Rightarrow> jsnum" where
  "js_mul NaN y = NaN"
| "js_mul x NaN = NaN"
| "js_mul (Fin a) (Fin b) = Fin (a * b)"
| "js_mul (Fin a) PInf = (if a = 0 then NaN else if 0 < a then PInf else NInf)"
| "js_mul (Fin a) NInf = (if a = 0 then NaN else if 0 < a then NInf else PInf)"
| "js_mul PInf (Fin b) = (if b = 0 then NaN else if 0 < b then PInf else NInf)"
| "js_mul NInf (Fin b) = (if b = 0 then NaN else if 0 < b then NInf else PInf)"
| "js_mul PInf PInf = PInf"
| "js_mul PInf NInf = NInf"
| "js_mul NInf PInf = NInf"
| "js_mul NInf NInf = PInf"

fun js_div :: "jsnum \<Rightarrow> jsnum \<Rightarrow> jsnum" where
  "js_div NaN y = NaN"
| "js_div x NaN = NaN"
| "js_div (Fin a) (Fin b) =
     (if b \<noteq> 0 then Fin (a / b) else if a = 0 then NaN else if 0 < a then PInf else NInf)"
| "js_div (Fin a) PInf = Fin 0"
| "js_div (Fin a) NInf = Fin 0"
| "js_div PInf (Fin b) = (if 0 \<le> b then PInf else NInf)"
| "js_div NInf (Fin b) = (if 0 \<le> b then NInf else PInf)"
| "js_div PInf PInf = NaN"
| "js_div PInf NInf = NaN"
| "js_div NInf PInf = NaN"
| "js_div NInf NInf = NaN"

fun js_add :: "jsnum \<Rightarrow> jsnum \<Rightarrow> jsnum" where
  "js_add NaN y = NaN"
| "js_add x NaN = NaN"
| "js_add (Fin a) (Fin b) = Fin (a + b)"
| "js_add (Fin a) PInf = PInf"
| "js_add (Fin a) NInf = NInf"
| "js_add PInf (Fin b) = PInf"
| "js_add NInf (Fin b) = NInf"
| "js_add PInf PInf = PInf"
| "js_add PInf NInf = NaN"
| "js_add NInf PInf = NaN"
| "js_add NInf NInf = NInf"

fun js_neg :: "jsnum \<Rightarrow> jsnum" where
  "js_neg NaN = NaN"
| "js_neg (Fin a) = Fin (- a)"
| "js_neg PInf = NInf"
| "js_neg NInf = PInf"

definition js_sub :: "jsnum \<Rightarrow> jsnum \<Rightarrow> jsnum" where
  "js_sub x y = js_add x (js_neg y)"

text \<open>\<open>Math.max\<close> and \<open>Math.min\<close> of two arguments: NaN as soon as one argument is NaN.\<close>

fun Math_max :: "jsnum \<Rightarrow> jsnum \<Rightarrow> jsnum" where
  "Math_max NaN y = NaN"
| "Math_max x NaN = NaN"
| "Math_max (Fin a) (Fin b) = Fin (max a b)"
| "Math_max PInf y = PInf"
| "Math_max x PInf = PInf"
| "Math_max NInf y = y"
| "Math_max x NInf = x"

fun Math_min :: "jsnum \<Rightarrow> jsnum \<Rightarrow> jsnum" where
  "Math_min NaN y = NaN"
| "Math_min x NaN = NaN"
| "Math_min (Fin a) (Fin b) = Fin (min a b)"
| "Math_min NInf y = NInf"
| "Math_min x NInf = NInf"
| "Math_min PInf y = y"
| "Math_min x PInf = x"

text \<open>\<open>Math.round\<close> rounds to the nearest integer, a tie towards plus infinity.\<close>

definition round_half_up :: "real \<Rightarrow> real" where
  "round_half_up x = of_int \<lfloor>x + 1 / 2\<rfloor>"

fun Math_round :: "jsnum \<Rightarrow> jsnum" where
  "Math_round (Fin a) = Fin (round_half_up a)"
| "Math_round x = x"

text \<open>\<open>a > b\<close> on numbers: false as soon as one side is NaN.\<close>

fun js_gt :: "jsnum \<Rightarrow> jsnum \<Rightarrow> bool" where
  "js_gt NaN y = False"
| "js_gt x NaN = False"
| "js_gt (Fin a) (Fin b) = (b < a)"
| "js_gt PInf PInf = False"
| "js_gt PInf y = True"
| "js_gt x PInf = False"
| "js_gt NInf y = False"
| "js_gt (Fin a) NInf = True"

text \<open>\<open>a <= b\<close> on numbers: false as soon as one side is NaN.\<close>

fun js_le :: "jsnum \<Rightarrow> jsnum \<Rightarrow> bool" where
  "js_le NaN y = False"
| "js_le x NaN = False"
| "js_le (Fin a) (Fin b) = (a \<le> b)"
| "js_le NInf y = True"
| "js_le x PInf = True"
| "js_le PInf y = False"
| "js_le (Fin a) NInf = False"

text \<open>
  \<open>xs.sort(compare)\<close>. The sort is stable, and for a comparator that orders the elements
  consistently its result is the one stable ordering, which insertion from the right
  computes: an element moves behind another only when \<open>compare\<close> of the two is positive.
  With a comparator that is not consistent (a NaN score) ECMAScript leaves the order to
  the implementation.
\<close>

fun js_insert :: "('a \<Rightarrow> 'a \<Rightarrow> jsnum) \<Rightarrow> 'a \<Rightarrow> 'a list \<Rightarrow> 'a list" where
  "js_insert compare x [] = [x]"
| "js_insert compare x (y # ys) =
     (if js_gt (compare x y) (Fin 0) then y # js_insert compare x ys else x # y # ys)"

definition js_sort :: "('a \<Rightarrow> 'a \<Rightarrow> jsnum) \<Rightarrow> 'a list \<Rightarrow> 'a list" where
  "js_sort compare xs = foldr (js_insert compare) xs []"

text \<open>
  \<open>xs.reduce((sum, d) => sum + f(d), 0)\<close>, the sum the calculators take of a column, and
  the average \<open>sum / xs.length\<close>, which is \<open>0 / 0 = NaN\<close> on the empty array.
\<close>

definition reduce_sum :: "('a \<Rightarrow> real) \<Rightarrow> 'a list \<Rightarrow> real" where
  "reduce_sum f xs = foldl (\<lambda>s d. s + f d) 0 xs"

definition average :: "('a \<Rightarrow> real) \<Rightarrow> 'a list \<Rightarrow> jsnum" where
  "average f xs = js_div (Fin (reduce_sum f xs)) (Fin (real (length xs)))"

text \<open>
  Strings are ASCII. \<open>toLowerCase\<close> maps the letters A to Z to a to z.
\<close>

definition toLowerCase_char :: "char \<Rightarrow> char" where
  "toLowerCase_char c = (case c of Char b0 b1 b2 b3 b4 b5 b6 b7 \<Rightarrow>
     if 65 \<le> (of_char c :: nat) \<and> (of_char c :: nat) \<le> 90
     then Char b0 b1 b2 b3 b4 True b6 b7 else c)"

definition toLowerCase :: "string \<Rightarrow> string" where
  "toLowerCase s = map toLowerCase_char s"

text \<open>
  \<open>table[key] || dflt\<close> on an object literal of numbers. An own key gives its number, or
  the default when that number is 0. A key that the literal inherits from
  \<open>Object.prototype\<close> gives a function or an object: it is truthy, so the default is not
  taken, and the arithmetic that follows turns it into NaN. Any other key gives the
  default.
\<close>

definition Object_prototype_keys :: "string list" where
  "Object_prototype_keys =
     [''constructor'', ''__proto__'', ''hasOwnProperty'', ''isPrototypeOf'',
      ''propertyIsEnumerable'', ''toLocaleString'', ''toString'', ''valueOf'',
      ''__defineGetter__'', ''__defineSetter__'', ''__lookupGetter__'', ''__lookupSetter__'']"

definition lookup_or :: "(string \<times> real) list \<Rightarrow> string \<Rightarrow> real \<Rightarrow> jsnum" where
  "lookup_or table k dflt =
     (case map_of table k of
        Some v \<Rightarrow> Fin (if v = 0 then dflt else v)
      | None \<Rightarrow> if k \<in> set Object_prototype_keys then NaN else Fin dflt)"

text \<open>\<open>s || dflt\<close> on an optional string and \<open>n || dflt\<close> on an optional number of the request.\<close>

definition string_or :: "string option \<Rightarrow> string \<Rightarrow> string" where
  "string_or s dflt = (case s of None \<Rightarrow> dflt | Some v \<Rightarrow> if v = [] then dflt else v)"

definition number_or :: "real option \<Rightarrow> real \<Rightarrow> real" where
  "number_or n dflt = (case n of None \<Rightarrow> dflt | Some v \<Rightarrow> if v = 0 then dflt else v)"

section \<open>Record store\<close>

record DailyProduction =
  date :: string
  day_of_week :: string
  menu_item :: string
  category :: string
  quantity_prepared :: real
  quantity_served :: real
  quantity_wasted :: real
  waste_percentage :: real
  estimated_students :: real
  weather :: string
  special_event :: string
  temperature_f :: real

section \<open>Forecast calculator, multiplicative variant (ForecastService)\<close>

record ForecastInput =
  menu_item_in :: string
  date_in :: string
  weather_in :: "string option"
  temperature_in :: "real option"
  special_event_in :: "string option"
  estimated_students_in :: "real option"
  quantity_to_prepare :: real

text \<open>
  The result without \<open>factors_influence\<close>, which no property below reads.
\<close>

record ForecastResult =
  predicted_waste :: jsnum
  predicted_waste_percentage :: jsnum
  ci_lower :: jsnum
  ci_upper :: jsnum
  recommended_quantity :: jsnum
  potential_savings :: jsnum
  model_accuracy :: real

definition getWeatherFactor :: "string \<Rightarrow> jsnum" where
  "getWeatherFactor w =
     lookup_or [(''sunny'', 1.0), (''cloudy'', 1.1), (''rainy'', 1.3), (''stormy'', 1.5)]
       (toLowerCase w) 1.0"

text \<open>
  The weekday name of a date string comes from the runtime
  (\<open>new Date(date).toLocaleDateString('en-US', {weekday: 'long'})\<close>); it is the parameter
  \<open>weekday_of\<close>.
\<close>

definition getDayOfWeekFactor ::
  "(string \<Rightarrow> string) \<Rightarrow> DailyProduction list \<Rightarrow> string \<Rightarrow> string \<Rightarrow> jsnum" where
  "getDayOfWeekFactor weekday_of production_data item d =
     (let dow = weekday_of d;
          menu_data = filter (\<lambda>r. menu_item r = item) production_data;
          day_data = filter (\<lambda>r. day_of_week r = dow) menu_data;
          overall_avg = average waste_percentage menu_data
      in if length day_data = 0 then Fin 1.0
         else js_div (average waste_percentage day_data) overall_avg)"

definition getEventFactor :: "string \<Rightarrow> jsnum" where
  "getEventFactor e =
     lookup_or [(''none'', 1.0), (''holiday'', 0.7), (''orientation'', 1.2),
                (''exam_week'', 0.8), (''sports_game'', 1.3), (''graduation'', 0.9)]
       (toLowerCase e) 1.0"

definition getStudentFactor :: "real \<Rightarrow> real" where
  "getStudentFactor students =
     (let base_students = 1000;
          ratio = students / base_students
      in max 0.5 (min 1.5 (1.2 - ratio * 0.2)))"

definition ForecastService_predictFromCategory ::
  "DailyProduction list \<Rightarrow> ForecastInput \<Rightarrow> ForecastResult" where
  "ForecastService_predictFromCategory production_data input =
     (let item_record = find (\<lambda>d. menu_item d = menu_item_in input) production_data;
          cat = (case item_record of None \<Rightarrow> ''Protein''
                 | Some r \<Rightarrow> if category r = [] then ''Protein'' else category r);
          category_data = filter (\<lambda>d. category d = cat) production_data
      in if length category_data = 0 then
           (let overall_avg = average waste_percentage production_data;
                pw = js_mul (js_div overall_avg (Fin 100)) (Fin (quantity_to_prepare input))
            in \<lparr> predicted_waste = pw,
                 predicted_waste_percentage = overall_avg,
                 ci_lower = js_mul pw (Fin 0.7),
                 ci_upper = js_mul pw (Fin 1.3),
                 recommended_quantity = Math_round (Fin (quantity_to_prepare input * 0.95)),
                 potential_savings = Fin 0,
                 model_accuracy = 0.65 \<rparr>)
         else
           (let category_avg = average waste_percentage category_data;
                pw = js_mul (js_div category_avg (Fin 100)) (Fin (quantity_to_prepare input))
            in \<lparr> predicted_waste = pw,
                 predicted_waste_percentage = category_avg,
                 ci_lower = js_mul pw (Fin 0.7),
                 ci_upper = js_mul pw (Fin 1.3),
                 recommended_quantity = Math_round (Fin (quantity_to_prepare input * 0.95)),
                 potential_savings = Fin 0,
                 model_accuracy = 0.7 \<rparr>))"

definition ForecastService_predict ::
  "(string \<Rightarrow> string) \<Rightarrow> DailyProduction list \<Rightarrow> ForecastInput \<Rightarrow> ForecastResult" where
  "ForecastService_predict weekday_of production_data input =
     (let menu_item_data = filter (\<lambda>d. menu_item d = menu_item_in input) production_data
      in if length menu_item_data < 3
         then ForecastService_predictFromCategory production_data input
         else
           (let historical_waste_avg = average waste_percentage menu_item_data;
                weather_factor = getWeatherFactor (string_or (weather_in input) ''sunny'');
                a1 = js_mul historical_waste_avg weather_factor;
                day_factor = getDayOfWeekFactor weekday_of production_data
                               (menu_item_in input) (date_in input);
                a2 = js_mul a1 day_factor;
                event_factor = getEventFactor (string_or (special_event_in input) ''none'');
                a3 = js_mul a2 event_factor;
                student_factor =
                  getStudentFactor (number_or (estimated_students_in input) 1000);
                a4 = js_mul a3 (Fin student_factor);
                adjusted_waste_percentage = Math_max (Fin 1) (Math_min (Fin 50) a4);
                pw = js_mul (js_div adjusted_waste_percentage (Fin 100))
                       (Fin (quantity_to_prepare input));
                target_waste_percentage = 5;
                rq = Math_round
                       (js_div (js_mul (Fin (quantity_to_prepare input))
                                  (Fin (100 - target_waste_percentage)))
                          (js_sub (Fin 100) adjusted_waste_percentage));
                savings = Math_max (Fin 0)
                            (js_mul (js_div (js_sub historical_waste_avg
                                               adjusted_waste_percentage) (Fin 100))
                               (Fin (quantity_to_prepare input)))
            in \<lparr> predicted_waste = pw,
                 predicted_waste_percentage = adjusted_waste_percentage,
                 ci_lower = js_mul pw (Fin 0.8),
                 ci_upper = js_mul pw (Fin 1.2),
                 recommended_quantity = rq,
                 potential_savings = savings,
                 model_accuracy = 0.85 \<rparr>))"

section \<open>Forecast calculator, regression variant (ForecastModel)\<close>

text \<open>
  The fitted model that \<open>getOrTrainModel\<close> returns for an item. Fitting it
  (\<open>Statistics.multipleRegression\<close> on features that read the runtime's calendar) is
  outside the properties below, so the fitted model and the feature vector of the request
  (\<open>prepareFeatures\<close>) are parameters of \<open>ForecastModel_predict\<close>.
\<close>

record TrainedModel =
  coefficients :: "real list"
  r2 :: real
  residuals :: "real list"
  accuracy :: real

text \<open>
  \<open>features.reduce((sum, feature, i) => sum + feature * coefficients[i], 0)\<close>: a feature
  without a coefficient is multiplied by \<open>undefined\<close>, and the sum is NaN.
\<close>

definition predictWithCoefficients :: "real list \<Rightarrow> real list \<Rightarrow> jsnum" where
  "predictWithCoefficients features coeffs =
     (if length coeffs < length features then NaN
      else Fin (foldl (\<lambda>s (feature, c). s + feature * c) 0 (zip features coeffs)))"

definition predictWastePercentage :: "real list \<Rightarrow> TrainedModel \<Rightarrow> jsnum" where
  "predictWastePercentage features model =
     (let prediction = predictWithCoefficients (1 # features) (coefficients model)
      in Math_max (Fin 0) (Math_min (Fin 100) prediction))"

fun Math_sqrt :: "jsnum \<Rightarrow> jsnum" where
  "Math_sqrt (Fin a) = (if a < 0 then NaN else Fin (sqrt a))"
| "Math_sqrt PInf = PInf"
| "Math_sqrt x = NaN"

definition calculateConfidenceInterval :: "TrainedModel \<Rightarrow> jsnum \<times> jsnum" where
  "calculateConfidenceInterval model =
     (let std_residual = Math_sqrt (average (\<lambda>r. r * r) (residuals model));
          margin = js_mul (Fin 1.96) std_residual
      in (js_neg margin, margin))"

definition optimizeQuantity :: "ForecastInput \<Rightarrow> jsnum \<Rightarrow> jsnum" where
  "optimizeQuantity input pct =
     (let target_waste_percentage = 5;
          adjustment_factor =
            (if js_gt pct (Fin target_waste_percentage)
             then js_div (Fin (100 - target_waste_percentage)) (js_sub (Fin 100) pct)
             else Fin 1)
      in Math_round (js_mul (Fin (quantity_to_prepare input)) adjustment_factor))"

definition getAverageWastePercentage :: "DailyProduction list \<Rightarrow> string \<Rightarrow> jsnum" where
  "getAverageWastePercentage production_data item =
     (let data = filter (\<lambda>d. menu_item d = item) production_data
      in if length data = 0 then Fin 15 else average waste_percentage data)"

definition ForecastModel_predictFromCategory ::
  "DailyProduction list \<Rightarrow> ForecastInput \<Rightarrow> ForecastResult" where
  "ForecastModel_predictFromCategory production_data input =
     (let cat = (case find (\<lambda>d. menu_item d = menu_item_in input) production_data of
                   None \<Rightarrow> ''Entree''
                 | Some r \<Rightarrow> if category r = [] then ''Entree'' else category r);
          category_avg = average waste_percentage
                           (filter (\<lambda>d. category d = cat) production_data);
          pw = js_mul (js_div category_avg (Fin 100)) (Fin (quantity_to_prepare input))
      in \<lparr> predicted_waste = pw,
           predicted_waste_percentage = category_avg,
           ci_lower = Fin (- 5),
           ci_upper = Fin 5,
           recommended_quantity = Fin (quantity_to_prepare input * 0.95),
           potential_savings = Fin 0,
           model_accuracy = 0.7 \<rparr>)"

definition ForecastModel_predict ::
  "DailyProduction list \<Rightarrow> real list \<Rightarrow> TrainedModel \<Rightarrow> ForecastInput \<Rightarrow> ForecastResult" where
  "ForecastModel_predict production_data features model input =
     (let menu_item_data = filter (\<lambda>d. menu_item d = menu_item_in input) production_data
      in if length menu_item_data < 5
         then ForecastModel_predictFromCategory production_data input
         else
           (let pct = predictWastePercentage features model;
                pw = js_mul (js_div pct (Fin 100)) (Fin (quantity_to_prepare input));
                confidence_interval = calculateConfidenceInterval model;
                rq = optimizeQuantity input pct;
                current_avg_waste =
                  getAverageWastePercentage production_data (menu_item_in input);
                savings = Math_max (Fin 0)
                            (js_mul (js_div (js_sub current_avg_waste pct) (Fin 100))
                               (Fin (quantity_to_prepare input)))
            in \<lparr> predicted_waste = pw,
                 predicted_waste_percentage = pct,
                 ci_lower = Math_max (Fin 0) (js_add pw (fst confidence_interval)),
                 ci_upper = js_add pw (snd confidence_interval),
                 recommended_quantity = rq,
                 potential_savings = savings,
                 model_accuracy = accuracy model \<rparr>))"

section \<open>Strings\<close>

definition digit_char :: "nat \<Rightarrow> char" where
  "digit_char d =
     (if d = 0 then CHR ''0'' else if d = 1 then CHR ''1'' else if d = 2 then CHR ''2''
      else if d = 3 then CHR ''3'' else if d = 4 then CHR ''4'' else if d = 5 then CHR ''5''
      else if d = 6 then CHR ''6'' else if d = 7 then CHR ''7'' else if d = 8 then CHR ''8''
      else CHR ''9'')"

text \<open>The decimal digits of a natural number, as a template literal prints it.\<close>

fun string_of_nat :: "nat \<Rightarrow> string" where
  "string_of_nat n =
     (if n < 10 then [digit_char n] else string_of_nat (n div 10) @ [digit_char (n mod 10)])"

declare string_of_nat.simps [simp del]

text \<open>\<open>a < b\<close> on strings: by code unit, a proper prefix first.\<close>

fun js_string_less :: "string \<Rightarrow> string \<Rightarrow> bool" where
  "js_string_less [] [] = False"
| "js_string_less [] (y # ys) = True"
| "js_string_less (x # xs) [] = False"
| "js_string_less (x # xs) (y # ys) =
     (if (of_char x :: nat) < of_char y then True
      else if (of_char y :: nat) < of_char x then False
      else js_string_less xs ys)"

fun starts_with :: "string \<Rightarrow> string \<Rightarrow> bool" where
  "starts_with s [] = True"
| "starts_with [] (p # ps) = False"
| "starts_with (c # cs) (p # ps) = (c = p \<and> starts_with cs ps)"

fun js_includes :: "string \<Rightarrow> string \<Rightarrow> bool" where
  "js_includes [] p = starts_with [] p"
| "js_includes (c # cs) p = (starts_with (c # cs) p \<or> js_includes cs p)"


subsection \<open>Concrete forecast inputs\<close>

definition zero_row :: DailyProduction where
  "zero_row = \<lparr> date = ''2024-03-04'', day_of_week = ''Monday'', menu_item = ''Rice'',
     category = ''Side'', quantity_prepared = 100, quantity_served = 100,
     quantity_wasted = 0, waste_percentage = 0, estimated_students = 1000,
     weather = ''sunny'', special_event = ''none'', temperature_f = 65 \<rparr>"

definition ten_row :: DailyProduction where
  "ten_row = \<lparr> date = ''2024-03-04'', day_of_week = ''Monday'', menu_item = ''Rice'',
     category = ''Entree'', quantity_prepared = 100, quantity_served = 90,
     quantity_wasted = 10, waste_percentage = 10, estimated_students = 1000,
     weather = ''sunny'', special_event = ''none'', temperature_f = 65 \<rparr>"

definition rice_request :: ForecastInput where
  "rice_request = \<lparr> menu_item_in = ''Rice'', date_in = ''2024-03-11'', weather_in = None,
     temperature_in = None, special_event_in = None, estimated_students_in = None,
     quantity_to_prepare = 100 \<rparr>"

definition soup_request :: ForecastInput where
  "soup_request = \<lparr> menu_item_in = ''Soup'', date_in = ''2024-03-11'', weather_in = None,
     temperature_in = None, special_event_in = None, estimated_students_in = None,
     quantity_to_prepare = 100 \<rparr>"

definition ten_features :: "real list" where
  "ten_features = [1, 2, 1, 65, 0, 1, 10, 1, 1, 0]"

definition flat_model :: "real \<Rightarrow> TrainedModel" where
  "flat_model c = \<lparr> coefficients = [c, 0, 0, 0, 0, 0, 0, 0, 0, 0, 0], r2 = 1,
     residuals = [0, 0, 0, 0, 0], accuracy = 0.9 \<rparr>"

section \<open>Impact projector (ImpactService)\<close>

text \<open>
  \<open>xs.slice(start)\<close> and \<open>xs.slice(start, end)\<close>: a negative index counts from the end,
  and both are cut to the bounds of the array.
\<close>

definition slice_index :: "int \<Rightarrow> nat \<Rightarrow> nat" where
  "slice_index i len = (if i < 0 then nat (max (int len + i) 0) else min (nat i) len)"

definition slice :: "int \<Rightarrow> int \<Rightarrow> 'a list \<Rightarrow> 'a list" where
  "slice start end xs =
     (let k = slice_index start (length xs);
          final = slice_index end (length xs)
      in take (final - k) (drop k xs))"

definition slice_from :: "int \<Rightarrow> 'a list \<Rightarrow> 'a list" where
  "slice_from start xs = drop (slice_index start (length xs)) xs"

record ImpactTracking =
  it_date :: string
  it_day_of_week :: string
  food_cost_daily :: real
  food_waste_cost_daily :: real
  food_rescued_lbs_daily :: real
  money_saved_daily :: real
  co2_emissions_avoided_lbs_daily :: real
  meals_provided_to_community_daily :: real
  volunteer_hours_daily :: real
  transport_costs_daily :: real
  operational_savings_daily :: real
  waste_disposal_cost_avoided_daily :: real
  active_partner_orgs_daily :: real
  community_impact_score_daily :: real

datatype projection_period = Week | Month | Quarter | Year

record InterventionScenarios =
  waste_reduction_target :: "real option"
  pickup_efficiency_improvement :: "real option"
  cost_optimization_target :: "real option"

record ImpactProjectionInput =
  projection_period :: projection_period
  intervention_scenarios :: "InterventionScenarios option"
  baseline_date :: "string option"

record ImpactMetrics =
  food_rescued_lbs :: real
  meals_provided :: real
  co2_emissions_avoided_lbs :: real
  money_saved :: real
  waste_disposal_cost_avoided :: real
  volunteer_hours :: real
  operational_savings :: real
  community_impact_score :: real

text \<open>
  The eight column averages of \<open>calculateDailyAverages\<close>. Its callers pass a non-empty
  array only, so the count it divides by is positive.
\<close>

record DailyAverages =
  food_rescued_lbs_avg :: real
  meals_provided_to_community_avg :: real
  co2_emissions_avoided_lbs_avg :: real
  money_saved_avg :: real
  waste_disposal_cost_avoided_avg :: real
  volunteer_hours_avg :: real
  operational_savings_avg :: real
  community_impact_score_avg :: real

definition calculateDailyAverages :: "ImpactTracking list \<Rightarrow> DailyAverages" where
  "calculateDailyAverages data =
     (let count = real (length data)
      in \<lparr> food_rescued_lbs_avg = reduce_sum food_rescued_lbs_daily data / count,
           meals_provided_to_community_avg =
             reduce_sum meals_provided_to_community_daily data / count,
           co2_emissions_avoided_lbs_avg =
             reduce_sum co2_emissions_avoided_lbs_daily data / count,
           money_saved_avg = reduce_sum money_saved_daily data / count,
           waste_disposal_cost_avoided_avg =
             reduce_sum waste_disposal_cost_avoided_daily data / count,
           volunteer_hours_avg = reduce_sum volunteer_hours_daily data / count,
           operational_savings_avg = reduce_sum operational_savings_daily data / count,
           community_impact_score_avg =
             reduce_sum community_impact_score_daily data / count \<rparr>)"

definition getDefaultMetrics :: ImpactMetrics where
  "getDefaultMetrics =
     \<lparr> food_rescued_lbs = 15000, meals_provided = 18000,
       co2_emissions_avoided_lbs = 48000, money_saved = 52500,
       waste_disposal_cost_avoided = 4500, volunteer_hours = 1200,
       operational_savings = 8000, community_impact_score = 75 \<rparr>"

text \<open>
  With a baseline date, the rows kept are those whose date the runtime's \<open>Date\<close> places in
  the 30 days up to the baseline; that comparison is the parameter \<open>in_window\<close>.
\<close>

definition calculateCurrentMetrics ::
  "(string \<Rightarrow> string \<Rightarrow> bool) \<Rightarrow> ImpactTracking list \<Rightarrow> string option \<Rightarrow> ImpactMetrics" where
  "calculateCurrentMetrics in_window impact_data baseline =
     (let relevant_data =
            (case baseline of
               None \<Rightarrow> slice_from (- 30) impact_data
             | Some b \<Rightarrow> if b = [] then slice_from (- 30) impact_data
                         else filter (\<lambda>d. in_window b (it_date d)) impact_data)
      in if length relevant_data = 0 then getDefaultMetrics
         else
           (let daily_averages = calculateDailyAverages relevant_data
            in \<lparr> food_rescued_lbs = food_rescued_lbs_avg daily_averages * 365,
                 meals_provided = meals_provided_to_community_avg daily_averages * 365,
                 co2_emissions_avoided_lbs =
                   co2_emissions_avoided_lbs_avg daily_averages * 365,
                 money_saved = money_saved_avg daily_averages * 365,
                 waste_disposal_cost_avoided =
                   waste_disposal_cost_avoided_avg daily_averages * 365,
                 volunteer_hours = volunteer_hours_avg daily_averages * 365,
                 operational_savings = operational_savings_avg daily_averages * 365,
                 community_impact_score =
                   community_impact_score_avg daily_averages * 365 \<rparr>))"

record TrendMultipliers =
  food_rescued :: real
  meals :: real
  co2 :: real
  money :: real
  waste_cost :: real
  volunteer :: real
  operational :: real
  community :: real

definition calculateTrendRatio :: "real \<Rightarrow> real \<Rightarrow> real" where
  "calculateTrendRatio recent older =
     (if older = 0 then 1.0
      else (let ratio = recent / older in max 0.8 (min 1.3 ratio)))"

definition calculateTrendMultipliers :: "ImpactTracking list \<Rightarrow> TrendMultipliers" where
  "calculateTrendMultipliers impact_data =
     (let recent_data = slice_from (- 14) impact_data;
          older_data = slice (- 28) (- 14) impact_data
      in if length recent_data = 0 \<or> length older_data = 0 then
           \<lparr> food_rescued = 1.02, meals = 1.02, co2 = 1.02, money = 1.01,
             waste_cost = 1.01, volunteer = 1.0, operational = 1.01, community = 1.01 \<rparr>
         else
           (let recent_avg = calculateDailyAverages recent_data;
                older_avg = calculateDailyAverages older_data
            in \<lparr> food_rescued = calculateTrendRatio (food_rescued_lbs_avg recent_avg)
                                  (food_rescued_lbs_avg older_avg),
                 meals = calculateTrendRatio (meals_provided_to_community_avg recent_avg)
                           (meals_provided_to_community_avg older_avg),
                 co2 = calculateTrendRatio (co2_emissions_avoided_lbs_avg recent_avg)
                         (co2_emissions_avoided_lbs_avg older_avg),
                 money = calculateTrendRatio (money_saved_avg recent_avg)
                           (money_saved_avg older_avg),
                 waste_cost = calculateTrendRatio (waste_disposal_cost_avoided_avg recent_avg)
                                (waste_disposal_cost_avoided_avg older_avg),
                 volunteer = calculateTrendRatio (volunteer_hours_avg recent_avg)
                               (volunteer_hours_avg older_avg),
                 operational = calculateTrendRatio (operational_savings_avg recent_avg)
                                 (operational_savings_avg older_avg),
                 community = calculateTrendRatio (community_impact_score_avg recent_avg)
                               (community_impact_score_avg older_avg) \<rparr>))"

record ScenarioMultipliers =
  waste_reduction :: real
  pickup_efficiency :: real
  cost_optimization :: real

definition calculateScenarioMultipliers ::
  "InterventionScenarios option \<Rightarrow> ScenarioMultipliers" where
  "calculateScenarioMultipliers scenarios =
     (case scenarios of
        None \<Rightarrow> \<lparr> waste_reduction = 1.0, pickup_efficiency = 1.0, cost_optimization = 1.0 \<rparr>
      | Some s \<Rightarrow>
          \<lparr> waste_reduction = 1 + number_or (waste_reduction_target s) 0 / 100,
            pickup_efficiency = 1 + number_or (pickup_efficiency_improvement s) 0 / 100,
            cost_optimization = 1 + number_or (cost_optimization_target s) 0 / 100 \<rparr>)"

fun period_multipliers :: "projection_period \<Rightarrow> real" where
  "period_multipliers Week = 1 / 52"
| "period_multipliers Month = 1 / 12"
| "period_multipliers Quarter = 1 / 4"
| "period_multipliers Year = 1"

definition projectFutureImpact ::
  "ImpactTracking list \<Rightarrow> ImpactMetrics \<Rightarrow> ImpactProjectionInput \<Rightarrow> ImpactMetrics" where
  "projectFutureImpact impact_data current input =
     (let trend_multipliers = calculateTrendMultipliers impact_data;
          period_multiplier = period_multipliers (projection_period input);
          scenario_multipliers = calculateScenarioMultipliers (intervention_scenarios input)
      in \<lparr> food_rescued_lbs = food_rescued_lbs current * period_multiplier
             * food_rescued trend_multipliers * waste_reduction scenario_multipliers,
           meals_provided = meals_provided current * period_multiplier
             * meals trend_multipliers * waste_reduction scenario_multipliers,
           co2_emissions_avoided_lbs = co2_emissions_avoided_lbs current * period_multiplier
             * co2 trend_multipliers * waste_reduction scenario_multipliers,
           money_saved = money_saved current * period_multiplier
             * money trend_multipliers * cost_optimization scenario_multipliers,
           waste_disposal_cost_avoided = waste_disposal_cost_avoided current
             * period_multiplier * waste_cost trend_multipliers
             * waste_reduction scenario_multipliers,
           volunteer_hours = volunteer_hours current * period_multiplier
             * volunteer trend_multipliers * pickup_efficiency scenario_multipliers,
           operational_savings = operational_savings current * period_multiplier
             * operational trend_multipliers * cost_optimization scenario_multipliers,
           community_impact_score = community_impact_score current * period_multiplier
             * community trend_multipliers * 1.0 \<rparr>)"

text \<open>The \<open>projected_metrics\<close> of \<open>calculateImpact\<close>.\<close>

definition calculateImpact_projected ::
  "(string \<Rightarrow> string \<Rightarrow> bool) \<Rightarrow> ImpactTracking list \<Rightarrow> ImpactProjectionInput \<Rightarrow> ImpactMetrics" where
  "calculateImpact_projected in_window impact_data input =
     projectFutureImpact impact_data
       (calculateCurrentMetrics in_window impact_data (baseline_date input)) input"

subsection \<open>Historical comparison\<close>

datatype trend = Improving | Stable | Declining

record ComparisonMetrics =
  cm_period :: string
  cm_metrics :: ImpactMetrics
  cm_trend :: trend
  percentage_change :: real

definition getDataForPeriod :: "ImpactTracking list \<Rightarrow> string \<Rightarrow> ImpactTracking list" where
  "getDataForPeriod impact_data period =
     filter (\<lambda>d. starts_with (it_date d) period) impact_data"

definition calculatePeriodMetrics :: "ImpactTracking list \<Rightarrow> ImpactMetrics" where
  "calculatePeriodMetrics data =
     (if length data = 0 then getDefaultMetrics
      else \<lparr> food_rescued_lbs = reduce_sum food_rescued_lbs_daily data,
             meals_provided = reduce_sum meals_provided_to_community_daily data,
             co2_emissions_avoided_lbs = reduce_sum co2_emissions_avoided_lbs_daily data,
             money_saved = reduce_sum money_saved_daily data,
             waste_disposal_cost_avoided = reduce_sum waste_disposal_cost_avoided_daily data,
             volunteer_hours = reduce_sum volunteer_hours_daily data,
             operational_savings = reduce_sum operational_savings_daily data,
             community_impact_score = reduce_sum community_impact_score_daily data \<rparr>)"

definition calculatePeriodTrend :: "ImpactTracking list \<Rightarrow> string \<Rightarrow> trend" where
  "calculatePeriodTrend impact_data period =
     (let period_data = getDataForPeriod impact_data period
      in if length period_data < 7 then Stable
         else
           (let first_week = slice 0 7 period_data;
                last_week = slice_from (- 7) period_data;
                first_avg = reduce_sum community_impact_score_daily first_week
                              / real (length first_week);
                last_avg = reduce_sum community_impact_score_daily last_week
                             / real (length last_week)
            in if last_avg > first_avg * 1.05 then Improving
               else if last_avg < first_avg * 0.95 then Declining
               else Stable))"

text \<open>
  \<open>calculatePercentageChange\<close> ignores its period and draws from \<open>Math.random()\<close>; the
  draw is the parameter \<open>rnd\<close>.
\<close>

definition calculatePercentageChange :: "real \<Rightarrow> real" where
  "calculatePercentageChange rnd = round_half_up ((rnd - 0.5) * 40 * 100) / 100"

text \<open>
  \<open>getHistoricalComparison\<close> maps over the periods in order, one draw per period:
  \<open>rng k\<close> is the draw for the period at index \<open>k\<close>.
\<close>

definition getHistoricalComparison ::
  "(nat \<Rightarrow> real) \<Rightarrow> ImpactTracking list \<Rightarrow> string list \<Rightarrow> ComparisonMetrics list" where
  "getHistoricalComparison rng impact_data periods =
     map (\<lambda>(k, period).
            \<lparr> cm_period = period,
              cm_metrics = calculatePeriodMetrics (getDataForPeriod impact_data period),
              cm_trend = calculatePeriodTrend impact_data period,
              percentage_change = calculatePercentageChange (rng k) \<rparr>)
         (enumerate 0 periods)"

subsection \<open>The projection as the specification words it\<close>

text \<open>
  The mean of a column over a window of rows, the two windows, and the three
  multipliers of the specification: the period multiplier is \<open>period_multipliers\<close>; the trend
  multiplier of a column is its default constant when a window is empty, 1 when the mean
  over the prior window is 0, and otherwise the ratio of the two means clamped to
  [0.8, 1.3]; the scenario multiplier of an intervention field is 1 plus its target over
  100, the target counting as 0 when the field or the whole scenario is absent.
\<close>

definition mean :: "('a \<Rightarrow> real) \<Rightarrow> 'a list \<Rightarrow> real" where
  "mean f xs = sum_list (map f xs) / real (length xs)"

definition recent_window :: "'a list \<Rightarrow> 'a list" where
  "recent_window xs = drop (length xs - 14) xs"

definition prior_window :: "'a list \<Rightarrow> 'a list" where
  "prior_window xs = take (length xs - 14 - (length xs - 28)) (drop (length xs - 28) xs)"

definition spec_trend_multiplier ::
  "(ImpactTracking \<Rightarrow> real) \<Rightarrow> real \<Rightarrow> ImpactTracking list \<Rightarrow> real" where
  "spec_trend_multiplier column dflt impact_data =
     (if recent_window impact_data = [] \<or> prior_window impact_data = [] then dflt
      else if mean column (prior_window impact_data) = 0 then 1
      else max 0.8 (min 1.3 (mean column (recent_window impact_data)
                             / mean column (prior_window impact_data))))"

definition spec_scenario_multiplier ::
  "(InterventionScenarios \<Rightarrow> real option) \<Rightarrow> ImpactProjectionInput \<Rightarrow> real" where
  "spec_scenario_multiplier field input =
     1 + (case intervention_scenarios input of
            None \<Rightarrow> 0
          | Some s \<Rightarrow> (case field s of None \<Rightarrow> 0 | Some target \<Rightarrow> target)) / 100"

subsection \<open>Concrete impact inputs\<close>

definition impact_row :: "real \<Rightarrow> ImpactTracking" where
  "impact_row food =
     \<lparr> it_date = ''2024-03-04'', it_day_of_week = ''Monday'', food_cost_daily = 1,
       food_waste_cost_daily = 1, food_rescued_lbs_daily = food, money_saved_daily = 1,
       co2_emissions_avoided_lbs_daily = 1, meals_provided_to_community_daily = 1,
       volunteer_hours_daily = 1, transport_costs_daily = 1, operational_savings_daily = 1,
       waste_disposal_cost_avoided_daily = 1, active_partner_orgs_daily = 1,
       community_impact_score_daily = 1 \<rparr>"

definition year_request :: ImpactProjectionInput where
  "year_request =
     \<lparr> projection_period = Year, intervention_scenarios = None, baseline_date = None \<rparr>"

definition growth_history :: "ImpactTracking list" where
  "growth_history = replicate 14 (impact_row 0) @ replicate 14 (impact_row 10)"

section \<open>Statistics toolkit\<close>

subsection \<open>Double-precision arithmetic\<close>

text \<open>
  \<open>Statistics.correlation\<close> subtracts sums that nearly cancel, so its value is decided by
  the rounding of the operations before. It is therefore modelled with the arithmetic of
  IEEE 754 binary64: an operation computes the exact result and rounds it to the nearest
  double, a tie to the one with the even significand.

  The doubles around a number \<open>x\<close> other than 0 are the integer multiples of \<open>ulp x\<close>, which
  is 2 to the power \<open>binade x - 52\<close>; the binade is the exponent of \<open>x\<close>, the integer part of
  its binary logarithm, and not less than -1022, below which the doubles are subnormal
  and keep the spacing of the binade -1022.
\<close>

definition round_half_even :: "real \<Rightarrow> int" where
  "round_half_even q =
     (let f = \<lfloor>q\<rfloor>
      in if q - of_int f < 1 / 2 then f
         else if 1 / 2 < q - of_int f then f + 1
         else if even f then f else f + 1)"

definition binade :: "real \<Rightarrow> int" where
  "binade x = max \<lfloor>log 2 \<bar>x\<bar>\<rfloor> (- 1022)"

definition ulp :: "real \<Rightarrow> real" where
  "ulp x = 2 powr of_int (binade x - 52)"

definition round_nearest_even :: "real \<Rightarrow> real" where
  "round_nearest_even x =
     (if x = 0 then 0 else of_int (round_half_even (x / ulp x)) * ulp x)"

text \<open>
  A result that rounds to a magnitude of 2 to the power 1024 or more is an infinity. The
  sign of a zero is not modelled: \<open>Fin 0\<close> stands for both zeros, which \<open>=== 0\<close> does not
  tell apart.
\<close>

definition overflow_threshold :: real where
  "overflow_threshold = 2 ^ 1024"

definition round_double :: "real \<Rightarrow> jsnum" where
  "round_double x =
     (let r = round_nearest_even x
      in if overflow_threshold \<le> r then PInf
         else if r \<le> - overflow_threshold then NInf
         else Fin r)"

text \<open>
  The operations on numbers: the exact operation of ECMAScript on \<open>jsnum\<close>, then the
  rounding of a finite result. \<open>Math.sqrt\<close> is the correctly rounded root, which is what the
  engines compute.
\<close>

fun double :: "jsnum \<Rightarrow> jsnum" where
  "double (Fin a) = round_double a"
| "double x = x"

definition double_add :: "jsnum \<Rightarrow> jsnum \<Rightarrow> jsnum" where
  "double_add x y = double (js_add x y)"

definition double_sub :: "jsnum \<Rightarrow> jsnum \<Rightarrow> jsnum" where
  "double_sub x y = double (js_sub x y)"

definition double_mul :: "jsnum \<Rightarrow> jsnum \<Rightarrow> jsnum" where
  "double_mul x y = double (js_mul x y)"

definition double_div :: "jsnum \<Rightarrow> jsnum \<Rightarrow> jsnum" where
  "double_div x y = double (js_div x y)"

definition double_sqrt :: "jsnum \<Rightarrow> jsnum" where
  "double_sqrt x = double (Math_sqrt x)"

subsection \<open>Correlation\<close>

text \<open>
  \<open>Statistics.correlation\<close> on two vectors of finite numbers. The elements are reals; in
  a run of the program they are doubles, which the properties below do not need and the
  examples satisfy (integers below 2 to the power 53). The five sums are the five
  \<open>reduce\<close> calls of the source, from the left and starting at 0. The sum of products reads
  \<open>y[i]\<close> for every index of \<open>x\<close>, which is \<open>undefined\<close> beyond the end of \<open>y\<close> and makes the sum
  NaN. The count \<open>n\<close> is the length of \<open>x\<close> in both factors under the root (as a number it is
  exact, an array being shorter than 2 to the power 32). The product under the root,
  \<open>correlation_radicand\<close>, can round to a negative number, and the root is then NaN,
  which is not \<open>=== 0\<close>.
\<close>

definition double_sum :: "real list \<Rightarrow> jsnum" where
  "double_sum x = foldl (\<lambda>a b. double_add a (Fin b)) (Fin 0) x"

definition sum_of_products :: "real list \<Rightarrow> real list \<Rightarrow> jsnum" where
  "sum_of_products x y =
     (if length y < length x then NaN
      else foldl (\<lambda>acc (xi, yi). double_add acc (double_mul (Fin xi) (Fin yi))) (Fin 0)
             (zip x y))"

definition sum_of_squares :: "real list \<Rightarrow> jsnum" where
  "sum_of_squares x = foldl (\<lambda>acc xi. double_add acc (double_mul (Fin xi) (Fin xi))) (Fin 0) x"

definition correlation_numerator :: "real list \<Rightarrow> real list \<Rightarrow> jsnum" where
  "correlation_numerator x y =
     (let n = Fin (real (length x));
          sumX = double_sum x;
          sumY = double_sum y;
          sumXY = sum_of_products x y
      in double_sub (double_mul n sumXY) (double_mul sumX sumY))"

definition correlation_radicand :: "real list \<Rightarrow> real list \<Rightarrow> jsnum" where
  "correlation_radicand x y =
     (let n = Fin (real (length x));
          sumX = double_sum x;
          sumY = double_sum y;
          sumXX = sum_of_squares x;
          sumYY = sum_of_squares y
      in double_mul (double_sub (double_mul n sumXX) (double_mul sumX sumX))
           (double_sub (double_mul n sumYY) (double_mul sumY sumY)))"

definition correlation_denominator :: "real list \<Rightarrow> real list \<Rightarrow> jsnum" where
  "correlation_denominator x y = double_sqrt (correlation_radicand x y)"

definition correlation :: "real list \<Rightarrow> real list \<Rightarrow> jsnum" where
  "correlation x y =
     (let numerator = correlation_numerator x y;
          denominator = correlation_denominator x y
      in if denominator = Fin 0 then Fin 0 else double_div numerator denominator)"

text \<open>
  The two quantities of the formula in exact arithmetic: \<open>n\<close> times the sum of products
  minus the product of the sums, and the same with a vector against itself.
\<close>

definition cov_term :: "real list \<Rightarrow> real list \<Rightarrow> real" where
  "cov_term x y = real (length x) * sum_list (map (\<lambda>(u, v). u * v) (zip x y))
                  - sum_list x * sum_list y"

definition var_term :: "real list \<Rightarrow> real" where
  "var_term x = real (length x) * sum_list (map (\<lambda>xi. xi * xi) x) - sum_list x * sum_list x"

section \<open>Pickup and route calculator (TrackerService)\<close>

subsection \<open>Data\<close>

record ExternalFactor =
  ef_date :: string
  ef_day_of_week :: string
  ef_month :: string
  is_weekend :: bool
  is_holiday :: bool
  holiday_name :: string
  weather_condition :: string
  ef_temperature_f :: real
  precipitation_inches :: real
  campus_event :: string
  student_population_factor :: real
  semester_status :: string
  local_event :: string

record TimeConstraints =
  earliest_pickup :: string
  latest_pickup :: string

record PickupOptimizationInput =
  po_date :: string
  available_locations :: "string list"
  available_drivers :: "string list"
  estimated_food_volume :: real
  priority_destinations :: "string list option"
  time_constraints :: "TimeConstraints option"

text \<open>
  \<open>composite_score\<close> is the property that \<open>findBestNextPickup\<close> adds to the copy it returns;
  \<open>None\<close> is a pickup without the property.
\<close>

record OptimizedPickup =
  pickup_id :: string
  source_location :: string
  destination_partner :: string
  recommended_time :: string
  estimated_volume :: real
  estimated_duration :: real
  transport_cost :: real
  driver_assignment :: string
  priority_score :: real
  efficiency_score :: jsnum
  composite_score :: "jsnum option"

record RouteOptimization =
  route_id :: string
  driver :: string
  locations :: "string list"
  total_distance :: real
  total_time :: real
  total_volume :: real
  total_cost :: real
  pickups :: "OptimizedPickup list"

text \<open>
  What \<open>analyzeLocationPatterns\<close> stores for a location: the averages over its history, the
  start of its peak hour, its weekday factors, its destinations by frequency, its success
  rate and the number of its rows. The map from locations to patterns is a parameter of
  \<open>generatePickupSuggestions\<close>, as in the source; \<open>getDefaultLocationPattern\<close> is the pattern
  of a location without history.
\<close>

record LocationPattern =
  avg_volume :: real
  avg_distance :: real
  avg_cost :: real
  peak_start :: string
  day_patterns :: "(string \<times> real) list"
  food_types :: "string list"
  destinations :: "string list"
  success_rate :: real
  historical_count :: real

definition getDefaultLocationPattern :: LocationPattern where
  "getDefaultLocationPattern =
     \<lparr> avg_volume = 45, avg_distance = 5.2, avg_cost = 12.50, peak_start = ''14:00'',
       day_patterns = [(''Monday'', 1.2), (''Wednesday'', 1.1), (''Friday'', 1.3)],
       food_types = [''Mixed''], destinations = [''Local Food Bank''],
       success_rate = 0.85, historical_count = 0 \<rparr>"

subsection \<open>Candidate pickups\<close>

definition calculateOptimalTime :: "LocationPattern \<Rightarrow> PickupOptimizationInput \<Rightarrow> string" where
  "calculateOptimalTime pattern input =
     (case time_constraints input of
        None \<Rightarrow> peak_start pattern
      | Some tc \<Rightarrow>
          if js_string_less (peak_start pattern) (earliest_pickup tc) then earliest_pickup tc
          else if js_string_less (latest_pickup tc) (peak_start pattern) then latest_pickup tc
          else peak_start pattern)"

text \<open>
  The weekday name of the request's date is the parameter \<open>dow\<close>, as for the forecast.
\<close>

definition estimateVolume ::
  "string \<Rightarrow> ExternalFactor list \<Rightarrow> LocationPattern \<Rightarrow> PickupOptimizationInput \<Rightarrow> real" where
  "estimateVolume dow external_data pattern input =
     (let base_volume = avg_volume pattern;
          day_factor = number_or (map_of (day_patterns pattern) dow) 1.0;
          external = find (\<lambda>e. ef_date e = po_date input) external_data;
          student_factor = number_or (map_option student_population_factor external) 1.0
      in round_half_up (base_volume * day_factor * student_factor))"

definition selectBestDestination :: "LocationPattern \<Rightarrow> string list option \<Rightarrow> string" where
  "selectBestDestination pattern priorities =
     (let fallback = (case destinations pattern of
                        [] \<Rightarrow> ''Local Food Bank''
                      | d # _ \<Rightarrow> if d = [] then ''Local Food Bank'' else d)
      in case priorities of
           None \<Rightarrow> fallback
         | Some ps \<Rightarrow>
             if length ps > 0 then
               (case find (\<lambda>dest. list_ex (\<lambda>p. js_includes (toLowerCase dest) (toLowerCase p)) ps)
                       (destinations pattern) of
                  None \<Rightarrow> fallback
                | Some priority_match \<Rightarrow> if priority_match = [] then fallback else priority_match)
             else fallback)"

definition calculatePriorityScore :: "LocationPattern \<Rightarrow> real" where
  "calculatePriorityScore pattern =
     (let score = 50;
          score = score + min 30 (avg_volume pattern);
          score = score + success_rate pattern * 20;
          score = score + min 10 (historical_count pattern)
      in min 100 score)"

text \<open>
  The distance table has the one key \<open>default\<close>; a key \<open>source-destination\<close> contains a
  hyphen, so it is neither that key nor a name inherited from \<open>Object.prototype\<close>.
\<close>

definition getEstimatedDistance :: "string \<Rightarrow> string \<Rightarrow> real" where
  "getEstimatedDistance source destination =
     (case map_of [(''default'', 5.5)] (source @ ''-'' @ destination) of
        Some v \<Rightarrow> if v = 0 then 5.5 else v
      | None \<Rightarrow> 5.5)"

definition estimateTransportCost :: "string \<Rightarrow> string \<Rightarrow> real \<Rightarrow> real" where
  "estimateTransportCost source destination volume =
     (let base_cost = 8.0;
          distance_cost = getEstimatedDistance source destination * 0.5;
          volume_cost = volume * 0.1
      in round_half_up ((base_cost + distance_cost + volume_cost) * 100) / 100)"

definition estimateDuration :: "string \<Rightarrow> string \<Rightarrow> real \<Rightarrow> real" where
  "estimateDuration source destination volume =
     (let travel_time = getEstimatedDistance source destination * 2;
          loading_time = max 15 (volume * 0.5)
      in round_half_up (travel_time + loading_time))"

definition calculateEfficiencyScore :: "real \<Rightarrow> real \<Rightarrow> jsnum" where
  "calculateEfficiencyScore volume cost =
     (let score = Fin 50;
          cost_per_pound = js_div (Fin cost) (Fin volume);
          score = js_add score
                    (Math_max (Fin 0) (js_sub (Fin 20) (js_mul cost_per_pound (Fin 2))));
          score = js_add score (Fin (min 30 (volume * 0.5)))
      in Math_min (Fin 100) score)"

text \<open>
  \<open>time_string\<close> is the runtime's printing of \<open>new Date(input.date).getTime()\<close>. The
  counter starts at 1 and is incremented for every suggestion pushed; a location without
  a pattern is skipped.
\<close>

fun suggestions_from ::
  "string \<Rightarrow> string \<Rightarrow> ExternalFactor list \<Rightarrow> (string \<Rightarrow> LocationPattern option) \<Rightarrow>
   PickupOptimizationInput \<Rightarrow> nat \<Rightarrow> string list \<Rightarrow> OptimizedPickup list" where
  "suggestions_from time_string dow external_data patterns input pickup_counter [] = []"
| "suggestions_from time_string dow external_data patterns input pickup_counter (location # rest) =
     (case patterns location of
        None \<Rightarrow> suggestions_from time_string dow external_data patterns input pickup_counter rest
      | Some pattern \<Rightarrow>
          (let optimal_time = calculateOptimalTime pattern input;
               volume = estimateVolume dow external_data pattern input;
               destination = selectBestDestination pattern (priority_destinations input);
               priority = calculatePriorityScore pattern;
               cost = estimateTransportCost location destination volume;
               efficiency = calculateEfficiencyScore volume cost
           in \<lparr> pickup_id = ''PU'' @ time_string @ ''_'' @ string_of_nat pickup_counter,
                source_location = location,
                destination_partner = destination,
                recommended_time = optimal_time,
                estimated_volume = volume,
                estimated_duration = estimateDuration location destination volume,
                transport_cost = cost,
                driver_assignment = '''',
                priority_score = priority,
                efficiency_score = efficiency,
                composite_score = None \<rparr>
              # suggestions_from time_string dow external_data patterns input
                  (Suc pickup_counter) rest))"

text \<open>
  \<open>suggestions.sort((a, b) => b.priority_score - a.priority_score)\<close>: descending by
  priority, candidates of equal priority in their order of generation.
\<close>

definition generatePickupSuggestions ::
  "string \<Rightarrow> string \<Rightarrow> ExternalFactor list \<Rightarrow> (string \<Rightarrow> LocationPattern option) \<Rightarrow>
   PickupOptimizationInput \<Rightarrow> OptimizedPickup list" where
  "generatePickupSuggestions time_string dow external_data patterns input =
     sort_key (\<lambda>p. - priority_score p)
       (suggestions_from time_string dow external_data patterns input 1
          (available_locations input))"

subsection \<open>Routes\<close>

definition getDistancePenalty :: "string \<Rightarrow> string \<Rightarrow> real" where
  "getDistancePenalty from_loc to_loc =
     (let distance = getEstimatedDistance from_loc to_loc in min 20 (distance * 2))"

fun calculateTotalDistance :: "string list \<Rightarrow> real" where
  "calculateTotalDistance (a # b # rest) =
     getEstimatedDistance a b + calculateTotalDistance (b # rest)"
| "calculateTotalDistance locs = 0"

text \<open>\<open>(best as any).composite_score || 0\<close>.\<close>

definition best_score_of :: "OptimizedPickup \<Rightarrow> jsnum" where
  "best_score_of best =
     (case composite_score best of
        None \<Rightarrow> Fin 0
      | Some s \<Rightarrow> if s = NaN \<or> s = Fin 0 then Fin 0 else s)"

definition findBestNextPickup ::
  "string \<Rightarrow> OptimizedPickup list \<Rightarrow> real \<Rightarrow> real \<Rightarrow> OptimizedPickup option" where
  "findBestNextPickup current_location available current_volume max_volume =
     (let feasible = filter (\<lambda>p. current_volume + estimated_volume p \<le> max_volume) available
      in case feasible of
           [] \<Rightarrow> None
         | first # _ \<Rightarrow>
             Some (foldl
               (\<lambda>best pickup.
                  let distance_penalty =
                        getDistancePenalty current_location (source_location pickup);
                      composite =
                        js_sub (js_add (Fin (priority_score pickup * 0.4))
                                  (js_mul (efficiency_score pickup) (Fin 0.4)))
                          (Fin (distance_penalty * 0.2));
                      best_score = best_score_of best
                  in if js_gt composite best_score
                     then pickup\<lparr>composite_score := Some composite\<rparr>
                     else best)
               first feasible))"

text \<open>
  \<open>const index = xs.findIndex(p => p.pickup_id === id); if (index > -1) xs.splice(index, 1)\<close>.
\<close>

fun remove_by_id :: "string \<Rightarrow> OptimizedPickup list \<Rightarrow> OptimizedPickup list" where
  "remove_by_id i [] = []"
| "remove_by_id i (p # ps) = (if pickup_id p = i then ps else p # remove_by_id i ps)"

text \<open>
  The loop of \<open>createOptimalRoute\<close>, with the number of iterations left in place of the
  index: it ends after \<open>max_pickups_per_route\<close> rounds, when no pickup is available, or
  when none fits. The state is the current location, the two running totals, the route's
  pickups and the array of available pickups, which the loop shortens.
\<close>

fun route_loop ::
  "nat \<Rightarrow> string \<Rightarrow> string \<Rightarrow> real \<Rightarrow> real \<Rightarrow> OptimizedPickup list \<Rightarrow> OptimizedPickup list \<Rightarrow>
   real \<times> real \<times> OptimizedPickup list \<times> OptimizedPickup list" where
  "route_loop 0 drv current_location volume time route_pickups available =
     (volume, time, route_pickups, available)"
| "route_loop (Suc k) drv current_location volume time route_pickups available =
     (if length available > 0 then
        (case findBestNextPickup current_location available volume 200 of
           None \<Rightarrow> (volume, time, route_pickups, available)
         | Some best_pickup \<Rightarrow>
             route_loop k drv (destination_partner best_pickup)
               (volume + estimated_volume best_pickup)
               (time + estimated_duration best_pickup)
               (route_pickups @ [best_pickup\<lparr>driver_assignment := drv\<rparr>])
               (remove_by_id (pickup_id best_pickup) available))
      else (volume, time, route_pickups, available))"

text \<open>
  \<open>createOptimalRoute\<close> returns the route and leaves the caller's array shortened; the
  model returns both. \<open>now\<close> is the reading of \<open>Date.now()\<close> that the route id embeds.
\<close>

definition createOptimalRoute ::
  "nat \<Rightarrow> string \<Rightarrow> OptimizedPickup list \<Rightarrow> RouteOptimization \<times> OptimizedPickup list" where
  "createOptimalRoute now drv available_pickups =
     (let max_pickups_per_route = 4;
          (volume, time, route_pickups, available) =
             route_loop max_pickups_per_route drv ''depot'' 0 0 [] available_pickups;
          locs = map source_location route_pickups
      in (\<lparr> route_id = ''RT_'' @ drv @ ''_'' @ string_of_nat now,
            driver = drv,
            locations = locs,
            total_distance = calculateTotalDistance locs,
            total_time = time,
            total_volume = volume,
            total_cost = reduce_sum transport_cost route_pickups,
            pickups = route_pickups \<rparr>, available))"

text \<open>
  The \<open>forEach\<close> over the drivers: a driver is skipped once nothing remains; otherwise a
  route is built, and every pickup of the route is looked up by id in the remaining array
  once more and removed if found. The clock is read once per route built: \<open>clock k\<close> is
  the reading for the route built after \<open>k\<close> others.
\<close>

fun assign_drivers ::
  "(nat \<Rightarrow> nat) \<Rightarrow> string list \<Rightarrow> RouteOptimization list \<Rightarrow> OptimizedPickup list \<Rightarrow>
   RouteOptimization list \<times> OptimizedPickup list" where
  "assign_drivers clock [] routes remaining = (routes, remaining)"
| "assign_drivers clock (drv # drivers) routes remaining =
     (if length remaining = 0 then assign_drivers clock drivers routes remaining
      else
        (let (route, remaining1) = createOptimalRoute (clock (length routes)) drv remaining;
             remaining2 = foldl (\<lambda>rem p. remove_by_id (pickup_id p) rem) remaining1
                            (pickups route)
         in assign_drivers clock drivers (routes @ [route]) remaining2))"

definition updateRouteMetrics :: "RouteOptimization \<Rightarrow> RouteOptimization" where
  "updateRouteMetrics route =
     route\<lparr> total_volume := reduce_sum estimated_volume (pickups route),
            total_cost := reduce_sum transport_cost (pickups route),
            total_time := reduce_sum estimated_duration (pickups route),
            total_distance := calculateTotalDistance (locations route) \<rparr>"

text \<open>
  \<open>routes.reduce((best, route) => route.total_time < best.total_time ? route : best)\<close>, as
  the index of the route it returns: the first route of least total time. On an empty
  array the \<open>reduce\<close> without initial value throws a TypeError.
\<close>

fun least_time_from :: "RouteOptimization list \<Rightarrow> nat \<Rightarrow> real \<Rightarrow> nat \<Rightarrow> nat" where
  "least_time_from [] best best_time i = best"
| "least_time_from (route # rest) best best_time i =
     (if total_time route < best_time
      then least_time_from rest i (total_time route) (Suc i)
      else least_time_from rest best best_time (Suc i))"

definition least_time_index :: "RouteOptimization list \<Rightarrow> nat" where
  "least_time_index routes =
     (case routes of [] \<Rightarrow> 0 | first # rest \<Rightarrow> least_time_from rest 0 (total_time first) 1)"

datatype js_error = TypeError

fun append_leftovers ::
  "RouteOptimization list \<Rightarrow> OptimizedPickup list \<Rightarrow> js_error + RouteOptimization list" where
  "append_leftovers routes [] = Inr routes"
| "append_leftovers routes (pickup # rest) =
     (if routes = [] then Inl TypeError
      else
        (let b = least_time_index routes;
             best_route = routes ! b;
             pushed = best_route\<lparr> pickups := pickups best_route
                        @ [pickup\<lparr>driver_assignment := driver best_route\<rparr>] \<rparr>
         in append_leftovers (routes[b := updateRouteMetrics pushed]) rest))"

definition optimizeRoutes ::
  "(nat \<Rightarrow> nat) \<Rightarrow> OptimizedPickup list \<Rightarrow> string list \<Rightarrow> js_error + RouteOptimization list" where
  "optimizeRoutes clock pickup_list drivers =
     (let (routes, remaining_pickups) = assign_drivers clock drivers [] pickup_list
      in append_leftovers routes remaining_pickups)"

text \<open>The \<open>optimized_routes\<close> of \<open>optimizePickups\<close>.\<close>

definition optimizePickups_routes ::
  "(nat \<Rightarrow> nat) \<Rightarrow> string \<Rightarrow> string \<Rightarrow> ExternalFactor list \<Rightarrow> (string \<Rightarrow> LocationPattern option) \<Rightarrow>
   PickupOptimizationInput \<Rightarrow> js_error + RouteOptimization list" where
  "optimizePickups_routes clock time_string dow external_data patterns input =
     optimizeRoutes clock
       (generatePickupSuggestions time_string dow external_data patterns input)
       (available_drivers input)"

subsection \<open>Auxiliary notions\<close>

text \<open>
  The ids of a list of pickups, the ids of all pickups of a list of routes, in order, and
  the caps a route respects as \<open>createOptimalRoute\<close> builds it.
\<close>

definition ids :: "OptimizedPickup list \<Rightarrow> string list" where
  "ids ps = map pickup_id ps"

definition route_ids :: "RouteOptimization list \<Rightarrow> string list" where
  "route_ids rs = concat (map (\<lambda>r. map pickup_id (pickups r)) rs)"

definition route_ok :: "RouteOptimization \<Rightarrow> bool" where
  "route_ok r \<longleftrightarrow> length (pickups r) \<le> 4 \<and> total_volume r \<le> 200
      \<and> total_volume r = sum_list (map estimated_volume (pickups r))
      \<and> locations r = map source_location (pickups r)"

text \<open>
  A route without its id and a comparison without its percentage change: what is left of
  an output once the field that reads the clock, or the random generator, is blanked.
\<close>

definition erase_route_id :: "RouteOptimization \<Rightarrow> RouteOptimization" where
  "erase_route_id r = r\<lparr>route_id := []\<rparr>"

definition erase_percentage_change :: "ComparisonMetrics \<Rightarrow> ComparisonMetrics" where
  "erase_percentage_change c = c\<lparr>percentage_change := 0\<rparr>"

subsection \<open>Concrete tracker inputs\<close>

definition five_halls :: PickupOptimizationInput where
  "five_halls =
     \<lparr> po_date = ''2024-03-05'',
       available_locations = [''Hall A'', ''Hall B'', ''Hall C'', ''Hall D'', ''Hall E''],
       available_drivers = [''D1''],
       estimated_food_volume = 225,
       priority_destinations = None,
       time_constraints = None \<rparr>"

definition two_halls :: PickupOptimizationInput where
  "two_halls =
     \<lparr> po_date = ''2024-03-05'',
       available_locations = [''Hall A'', ''Hall B''],
       available_drivers = [''D1''],
       estimated_food_volume = 90,
       priority_destinations = None,
       time_constraints = None \<rparr>"

definition no_history :: "string \<Rightarrow> LocationPattern option" where
  "no_history location = Some getDefaultLocationPattern"

text \<open>
  The candidate of a location without history on a Tuesday without external data, with
  the printed counter \<open>n\<close>.
\<close>

definition hall_pickup :: "string \<Rightarrow> string \<Rightarrow> OptimizedPickup" where
  "hall_pickup n location =
     \<lparr> pickup_id = ''PU1709596800000_'' @ n, source_location = location,
       destination_partner = ''Local Food Bank'', recommended_time = ''14:00'',
       estimated_volume = 45, estimated_duration = 34, transport_cost = 15.25,
       driver_assignment = '''', priority_score = 97, efficiency_score = Fin (4132 / 45),
       composite_score = None \<rparr>"

section \<open>Menu planner (PlannerService)\<close>

record MenuPlanning =
  week_start_date :: string
  menu_category :: string
  dish_name :: string
  dish_type :: string
  preparation_time_hours :: real
  ingredient_cost_per_serving :: real
  selling_price :: real
  shelf_life_hours :: real
  popularity_score :: real
  nutritional_category :: string
  season_appropriateness :: string
  prep_difficulty :: string
  equipment_needed :: string
  allergens :: string

record PlannerInput =
  pl_date :: string
  pl_estimated_students :: real
  budget_constraint :: "real option"
  dietary_requirements :: "string list option"
  avoid_items :: "string list option"
  target_categories :: "string list"

record Scores =
  waste_score :: real
  sc_popularity_score :: real
  cost_score :: real
  prep_score :: jsnum
  shelf_life_score :: real
  season_score :: real
  sc_composite_score :: jsnum

text \<open>
  A scored item is the catalog row with its scores and its history. \<open>item_index\<close> stands
  for the identity of the object, which \<open>selected.includes(item)\<close> compares: the position
  of the row among the available items.
\<close>

record ScoredItem =
  item_index :: nat
  item :: MenuPlanning
  scores :: Scores
  historical_data :: "DailyProduction list"

text \<open>A recommendation without its \<open>reasoning\<close> text, which no property below reads.\<close>

record MenuRecommendation =
  rec_menu_item :: string
  rec_category :: string
  rec_quantity :: jsnum
  expected_waste :: jsnum
  cost_per_serving :: real
  rec_popularity_score :: real

text \<open>
  The result without \<open>waste_percentage\<close>, \<open>cost_savings\<close>, \<open>nutritional_balance\<close> and
  \<open>risk_assessment\<close>, which are computed from the recommendations and read by no property
  below.
\<close>

record PlannerResult =
  recommended_menu :: "MenuRecommendation list"
  pr_total_cost :: jsnum
  total_expected_waste :: jsnum

definition getAvailableItems :: "MenuPlanning list \<Rightarrow> string list \<Rightarrow> string list \<Rightarrow> MenuPlanning list" where
  "getAvailableItems menu_data categories avoid =
     filter (\<lambda>it. menu_category it \<in> set categories \<and> dish_name it \<notin> set avoid) menu_data"

definition getPreparationScore :: "string \<Rightarrow> jsnum" where
  "getPreparationScore difficulty =
     lookup_or [(''easy'', 10), (''medium'', 7), (''hard'', 4), (''very hard'', 2)]
       (toLowerCase difficulty) 7"

definition getDayOfWeekAdjustment :: "string \<Rightarrow> DailyProduction list \<Rightarrow> string \<Rightarrow> jsnum" where
  "getDayOfWeekAdjustment dow production_data dish =
     (let hist = filter (\<lambda>d. menu_item d = dish \<and> day_of_week d = dow) production_data
      in if length hist = 0 then Fin 1.0
         else
           (let all_data = filter (\<lambda>d. menu_item d = dish) production_data;
                day_avg = average waste_percentage hist;
                overall_avg = average waste_percentage all_data
            in Math_max (Fin 0.5) (Math_min (Fin 1.5) (js_div overall_avg day_avg))))"

text \<open>
  The month of the request's date, 0 to 11, comes from the runtime; \<open>None\<close> is the NaN of
  a date that does not parse, for which every comparison fails.
\<close>

definition getSeasonFromMonth :: "nat option \<Rightarrow> string" where
  "getSeasonFromMonth month =
     (case month of
        None \<Rightarrow> ''winter''
      | Some m \<Rightarrow>
          if 2 \<le> m \<and> m \<le> 4 then ''spring''
          else if 5 \<le> m \<and> m \<le> 7 then ''summer''
          else if 8 \<le> m \<and> m \<le> 10 then ''fall''
          else ''winter'')"

definition getSeasonScore :: "string \<Rightarrow> nat option \<Rightarrow> real" where
  "getSeasonScore appropriateness month =
     (let season = getSeasonFromMonth month
      in if js_includes (toLowerCase appropriateness) (toLowerCase season) then 10
         else if toLowerCase appropriateness = ''all_season'' then 8
         else 5)"

definition scoreMenuItem ::
  "string \<Rightarrow> nat option \<Rightarrow> DailyProduction list \<Rightarrow> nat \<times> MenuPlanning \<Rightarrow> ScoredItem" where
  "scoreMenuItem dow month production_data indexed =
     (let it = snd indexed;
          hist = filter (\<lambda>d. menu_item d = dish_name it) production_data;
          waste = (if length hist > 0
                   then (let avg_waste = reduce_sum waste_percentage hist / real (length hist)
                         in max 1 (10 - avg_waste / 10))
                   else 5);
          popularity = popularity_score it;
          cost = max 1 (10 - ingredient_cost_per_serving it * 2);
          prep = getPreparationScore (prep_difficulty it);
          shelf = min 10 (shelf_life_hours it / 4);
          day_adjustment = getDayOfWeekAdjustment dow production_data (dish_name it);
          season = getSeasonScore (season_appropriateness it) month;
          composite =
            js_mul
              (js_add
                 (js_add
                    (js_add (Fin (waste * 0.3 + popularity * 0.25 + cost * 0.2))
                       (js_mul prep (Fin 0.1)))
                    (Fin (shelf * 0.1)))
                 (Fin (season * 0.05)))
              day_adjustment
      in \<lparr> item_index = fst indexed,
           item = it,
           scores = \<lparr> waste_score = waste, sc_popularity_score = popularity,
                      cost_score = cost, prep_score = prep, shelf_life_score = shelf,
                      season_score = season, sc_composite_score = composite \<rparr>,
           historical_data = hist \<rparr>)"

definition getCategoryDemandFactor :: "string \<Rightarrow> jsnum" where
  "getCategoryDemandFactor cat =
     lookup_or [(''breakfast'', 0.7), (''lunch'', 0.8), (''dinner'', 0.9)] cat 0.7"

definition calculateBaseQuantity :: "ScoredItem \<Rightarrow> real \<Rightarrow> jsnum" where
  "calculateBaseQuantity sc students =
     (let popularity_factor = popularity_score (item sc) / 10;
          category_factor = getCategoryDemandFactor (menu_category (item sc))
      in Math_round
           (js_mul (js_mul (Fin (students * popularity_factor)) category_factor) (Fin 0.3)))"

definition estimateItemCost :: "ScoredItem \<Rightarrow> real \<Rightarrow> jsnum" where
  "estimateItemCost sc students =
     js_mul (calculateBaseQuantity sc students) (Fin (ingredient_cost_per_serving (item sc)))"

text \<open>
  \<open>Math.ceil(8 / input.target_categories.length)\<close>: without a category the quotient is
  plus infinity, \<open>None\<close> here, and every count is below it.
\<close>

definition target_per_category :: "PlannerInput \<Rightarrow> nat option" where
  "target_per_category input =
     (if length (target_categories input) = 0 then None
      else Some (nat \<lceil>8 / real (length (target_categories input))\<rceil>))"

text \<open>\<open>!input.budget_constraint\<close>: no budget was given, or the budget given is 0.\<close>

definition no_budget :: "PlannerInput \<Rightarrow> bool" where
  "no_budget input = (case budget_constraint input of None \<Rightarrow> True | Some b \<Rightarrow> b = 0)"

text \<open>
  The first loop of \<open>selectOptimalCombination\<close> over the sorted items. The state is the
  array \<open>selected\<close>, the map \<open>category_counts\<close> and the running \<open>total_cost\<close>
  (\<open>running_cost\<close> here).
\<close>

fun select_loop ::
  "PlannerInput \<Rightarrow> ScoredItem list \<Rightarrow> ScoredItem list \<times> (string \<rightharpoonup> nat) \<times> jsnum \<Rightarrow>
   ScoredItem list \<times> (string \<rightharpoonup> nat) \<times> jsnum" where
  "select_loop input [] state = state"
| "select_loop input (sc # rest) (selected, category_counts, running_cost) =
     (let current_count = (case category_counts (menu_category (item sc)) of
                             None \<Rightarrow> 0 | Some c \<Rightarrow> c);
          estimated_cost = estimateItemCost sc (pl_estimated_students input)
      in if (case target_per_category input of None \<Rightarrow> True | Some t \<Rightarrow> current_count < t)
            \<and> length selected < 12
            \<and> (no_budget input
                \<or> js_le (js_add running_cost estimated_cost) (Fin (the (budget_constraint input))))
         then select_loop input rest
                (selected @ [sc],
                 category_counts(menu_category (item sc) \<mapsto> current_count + 1),
                 js_add running_cost estimated_cost)
         else select_loop input rest (selected, category_counts, running_cost))"

text \<open>
  The second loop: for every target category without a count, the first sorted item of
  the category that is not selected yet is pushed, whatever it costs.
\<close>

fun backfill ::
  "ScoredItem list \<Rightarrow> (string \<rightharpoonup> nat) \<Rightarrow> string list \<Rightarrow> ScoredItem list \<Rightarrow> ScoredItem list" where
  "backfill sorted_items category_counts [] selected = selected"
| "backfill sorted_items category_counts (cat # cats) selected =
     (if category_counts cat = None then
        (case find (\<lambda>sc. menu_category (item sc) = cat
                         \<and> item_index sc \<notin> set (map item_index selected)) sorted_items of
           None \<Rightarrow> backfill sorted_items category_counts cats selected
         | Some fallback_item \<Rightarrow>
             backfill sorted_items category_counts cats (selected @ [fallback_item]))
      else backfill sorted_items category_counts cats selected)"

definition select_from :: "PlannerInput \<Rightarrow> ScoredItem list \<Rightarrow> ScoredItem list" where
  "select_from input sorted_items =
     (let (selected, category_counts, running_cost) =
            select_loop input sorted_items ([], Map.empty, Fin 0)
      in backfill sorted_items category_counts (target_categories input) selected)"

definition selectOptimalCombination :: "ScoredItem list \<Rightarrow> PlannerInput \<Rightarrow> ScoredItem list" where
  "selectOptimalCombination scored_items input =
     select_from input
       (js_sort (\<lambda>a b. js_sub (sc_composite_score (scores b)) (sc_composite_score (scores a)))
          scored_items)"

definition getExpectedWastePercentage :: "ScoredItem \<Rightarrow> jsnum" where
  "getExpectedWastePercentage sc =
     (if length (historical_data sc) > 0
      then Fin (reduce_sum waste_percentage (historical_data sc)
                / real (length (historical_data sc)))
      else lookup_or [(''Entree'', 12), (''Side'', 15), (''Dessert'', 20), (''Beverage'', 8),
                      (''Salad'', 18)] (menu_category (item sc)) 15)"

definition generateRecommendation :: "ScoredItem \<Rightarrow> PlannerInput \<Rightarrow> MenuRecommendation" where
  "generateRecommendation sc input =
     (let base_quantity = calculateBaseQuantity sc (pl_estimated_students input);
          waste_adjustment =
            (if length (historical_data sc) > 0
             then (let avg_waste_percentage =
                         reduce_sum waste_percentage (historical_data sc)
                         / real (length (historical_data sc))
                   in max 0.7 (1 - avg_waste_percentage / 100))
             else 1.0);
          quantity = Math_round (js_mul base_quantity (Fin waste_adjustment));
          waste = js_mul quantity (js_div (getExpectedWastePercentage sc) (Fin 100))
      in \<lparr> rec_menu_item = dish_name (item sc),
           rec_category = menu_category (item sc),
           rec_quantity = quantity,
           expected_waste = waste,
           cost_per_serving = ingredient_cost_per_serving (item sc),
           rec_popularity_score = popularity_score (item sc) \<rparr>)"

text \<open>
  \<open>optimizeMenu\<close>. The weekday name and the month of the request's date are the
  parameters \<open>dow\<close> and \<open>month\<close>.
\<close>

definition optimizeMenu ::
  "string \<Rightarrow> nat option \<Rightarrow> MenuPlanning list \<Rightarrow> DailyProduction list \<Rightarrow> PlannerInput \<Rightarrow>
   PlannerResult" where
  "optimizeMenu dow month menu_data production_data input =
     (let available_items =
            getAvailableItems menu_data (target_categories input)
              (case avoid_items input of None \<Rightarrow> [] | Some a \<Rightarrow> a);
          scored_items = map (scoreMenuItem dow month production_data)
                           (enumerate 0 available_items);
          selected_items = selectOptimalCombination scored_items input;
          recommendations = map (\<lambda>sc. generateRecommendation sc input) selected_items
      in \<lparr> recommended_menu = recommendations,
           pr_total_cost =
             foldl (\<lambda>sum r. js_add sum (js_mul (rec_quantity r) (Fin (cost_per_serving r))))
               (Fin 0) recommendations,
           total_expected_waste =
             foldl (\<lambda>sum r. js_add sum (expected_waste r)) (Fin 0) recommendations \<rparr>)"

subsection \<open>Menu suggestions\<close>

record SuggestionConstraints =
  max_prep_time :: "real option"
  dietary_restrictions :: "string list option"
  cost_limit :: "real option"

text \<open>
  \<open>getMenuSuggestions\<close> returns its array after sorting it in place. The array starts as
  \<open>this.menu_data\<close> itself and is replaced by a fresh one only by a \<open>filter\<close>; the flag
  says whether it still is the catalog, in which case the sort reorders the catalog. A
  numeric constraint applies when it is given and not 0 (the \<open>if\<close> tests its truthiness),
  the list of restrictions whenever it is given. The model returns the suggestions and the
  catalog after the call.
\<close>

definition getMenuSuggestions ::
  "SuggestionConstraints \<Rightarrow> MenuPlanning list \<Rightarrow> MenuPlanning list \<times> MenuPlanning list" where
  "getMenuSuggestions constraints menu_data =
     (let s0 = (menu_data, True);
          s1 = (case max_prep_time constraints of
                  None \<Rightarrow> s0
                | Some t \<Rightarrow> if t = 0 then s0
                            else (filter (\<lambda>it. preparation_time_hours it \<le> t) (fst s0), False));
          s2 = (case cost_limit constraints of
                  None \<Rightarrow> s1
                | Some c \<Rightarrow> if c = 0 then s1
                            else (filter (\<lambda>it. ingredient_cost_per_serving it \<le> c) (fst s1),
                                  False));
          s3 = (case dietary_restrictions constraints of
                  None \<Rightarrow> s2
                | Some rs \<Rightarrow>
                    (filter (\<lambda>it. \<not> list_ex (\<lambda>restriction.
                                 js_includes (toLowerCase (allergens it))
                                   (toLowerCase restriction)) rs) (fst s2),
                     False));
          sorted = js_sort (\<lambda>a b. Fin (popularity_score b - popularity_score a)) (fst s3)
      in (sorted, if snd s3 then sorted else menu_data))"

subsection \<open>Concrete planner inputs\<close>

definition dish :: "string \<Rightarrow> real \<Rightarrow> real \<Rightarrow> MenuPlanning" where
  "dish name popularity cost =
     \<lparr> week_start_date = ''2024-03-04'', menu_category = ''lunch'', dish_name = name,
       dish_type = ''main'', preparation_time_hours = 1,
       ingredient_cost_per_serving = cost, selling_price = 5, shelf_life_hours = 48,
       popularity_score = popularity, nutritional_category = ''balanced'',
       season_appropriateness = ''all_season'', prep_difficulty = ''easy'',
       equipment_needed = ''oven'', allergens = ''none'' \<rparr>"

definition lunch_request :: "real \<Rightarrow> real option \<Rightarrow> PlannerInput" where
  "lunch_request students budget =
     \<lparr> pl_date = ''2024-03-05'', pl_estimated_students = students,
       budget_constraint = budget, dietary_requirements = None, avoid_items = None,
       target_categories = [''lunch''] \<rparr>"

definition no_constraints :: SuggestionConstraints where
  "no_constraints =
     \<lparr> max_prep_time = None, dietary_restrictions = None, cost_limit = None \<rparr>"

subsection \<open>Auxiliary notions for the planner properties\<close>

text \<open>
  What \<open>calculateBaseQuantity\<close>, \<open>estimateItemCost\<close> and the waste adjustment and
  quantity of \<open>generateRecommendation\<close> compute for an item of category \<open>lunch\<close>, whose
  demand factor is the number 0.8, as real numbers; the lemmas \<open>lunch_base\<close>,
  \<open>lunch_cost\<close> and \<open>lunch_recommendation\<close> relate them to the functions above.
\<close>

definition lunch_base_quantity :: "real \<Rightarrow> MenuPlanning \<Rightarrow> real" where
  "lunch_base_quantity students it =
     round_half_up (students * (popularity_score it / 10) * 0.8 * 0.3)"

definition lunch_estimated_cost :: "real \<Rightarrow> MenuPlanning \<Rightarrow> real" where
  "lunch_estimated_cost students it =
     lunch_base_quantity students it * ingredient_cost_per_serving it"

text \<open>The running \<open>total_cost\<close> of the selection loop after selecting the given items.\<close>

definition estimated_sum :: "real \<Rightarrow> ScoredItem list \<Rightarrow> real" where
  "estimated_sum students selected =
     sum_list (map (\<lambda>sc. lunch_estimated_cost students (item sc)) selected)"

definition all_lunch :: "ScoredItem list \<Rightarrow> bool" where
  "all_lunch xs \<longleftrightarrow> list_all (\<lambda>sc. menu_category (item sc) = ''lunch'') xs"

text \<open>
  The invariant of the selection loop on lunch items under a budget \<open>b\<close>: the running cost
  is the sum of the estimates of the selected items, the selected items are counted
  under \<open>lunch\<close>, and the sum is within the budget once an item is selected.
\<close>

definition budget_state ::
  "real \<Rightarrow> real \<Rightarrow> ScoredItem list \<times> (string \<rightharpoonup> nat) \<times> jsnum \<Rightarrow> bool" where
  "budget_state students b st \<longleftrightarrow>
     (case st of (selected, counts, running) \<Rightarrow>
        all_lunch selected
        \<and> running = Fin (estimated_sum students selected)
        \<and> (selected = [] \<longrightarrow> counts ''lunch'' = None)
        \<and> (selected \<noteq> [] \<longrightarrow> counts ''lunch'' \<noteq> None \<and> estimated_sum students selected \<le> b))"

definition waste_adjustment_of :: "ScoredItem \<Rightarrow> real" where
  "waste_adjustment_of sc =
     (if length (historical_data sc) > 0
      then max 0.7 (1 - (reduce_sum waste_percentage (historical_data sc)
                         / real (length (historical_data sc))) / 100)
      else 1.0)"

definition lunch_recommended_quantity :: "real \<Rightarrow> ScoredItem \<Rightarrow> real" where
  "lunch_recommended_quantity students sc =
     round_half_up (lunch_base_quantity students (item sc) * waste_adjustment_of sc)"

text \<open>The scored item of a \<open>dish\<close> without history on a Tuesday in March.\<close>

definition scored_dish :: "nat \<Rightarrow> MenuPlanning \<Rightarrow> real \<Rightarrow> ScoredItem" where
  "scored_dish i it composite =
     \<lparr> item_index = i, item = it,
       scores = \<lparr> waste_score = 5, sc_popularity_score = popularity_score it,
                  cost_score = 8, prep_score = Fin 10, shelf_life_score = 10,
                  season_score = 8, sc_composite_score = Fin composite \<rparr>,
       historical_data = [] \<rparr>"

section \<open>Properties of the forecast calculators\<close>

lemma reduce_sum_foldl_shift:
  "foldl (\<lambda>s d. s + f d) a xs = a + foldl (\<lambda>s d. s + f d) (0::real) xs"
proof (induction xs arbitrary: a)
  case Nil
  show ?case by simp
next
  case (Cons x xs)
  have "foldl (\<lambda>s d. s + f d) a (x # xs) = (a + f x) + foldl (\<lambda>s d. s + f d) 0 xs"
    using Cons.IH [of "a + f x"] by simp
  moreover have "foldl (\<lambda>s d. s + f d) 0 (x # xs) = f x + foldl (\<lambda>s d. s + f d) 0 xs"
    using Cons.IH [of "f x"] by simp
  ultimately show ?case by simp
qed

lemma reduce_sum_Nil: "reduce_sum f [] = 0"
  by (simp add: reduce_sum_def)

lemma reduce_sum_Cons: "reduce_sum f (x # xs) = f x + reduce_sum f xs"
  unfolding reduce_sum_def using reduce_sum_foldl_shift [of f "f x" xs] by simp

lemma reduce_sum_sum_list: "reduce_sum f xs = sum_list (map f xs)"
  by (induction xs) (simp_all add: reduce_sum_Nil reduce_sum_Cons)

lemma Math_clamp_cases:
  "Math_max (Fin lo) (Math_min (Fin hi) x) =
     (case x of Fin a \<Rightarrow> Fin (max lo (min hi a)) | PInf \<Rightarrow> Fin (max lo hi)
      | NInf \<Rightarrow> Fin lo | NaN \<Rightarrow> NaN)"
  by (cases x) simp_all

lemmas forecast_eval_defs =
  ForecastService_predict_def ForecastService_predictFromCategory_def
  ForecastModel_predict_def ForecastModel_predictFromCategory_def
  zero_row_def ten_row_def rice_request_def soup_request_def ten_features_def flat_model_def
  average_def getWeatherFactor_def getDayOfWeekFactor_def getEventFactor_def
  getStudentFactor_def lookup_or_def string_or_def number_or_def toLowerCase_def
  toLowerCase_char_def js_sub_def predictWastePercentage_def predictWithCoefficients_def
  optimizeQuantity_def getAverageWastePercentage_def calculateConfidenceInterval_def
  round_half_up_def reduce_sum_def Let_def

lemma predict_model_path_pct:
  assumes "3 \<le> length (filter (\<lambda>d. menu_item d = menu_item_in input) production_data)"
  shows "\<exists>a. predicted_waste_percentage
                (ForecastService_predict weekday_of production_data input)
              = Math_max (Fin 1) (Math_min (Fin 50) a)"
  using assms by (auto simp add: ForecastService_predict_def Let_def)

text \<open>
  What the clamp of \<open>ForecastService.predict\<close> does give: whenever the adjusted percentage
  is not NaN, it is a number between 1 and 50 and the divisor of the recommended quantity
  is between 50 and 99.
\<close>

lemma predict_divisor_when_number:
  assumes "3 \<le> length (filter (\<lambda>d. menu_item d = menu_item_in input) production_data)"
    and "predicted_waste_percentage
           (ForecastService_predict weekday_of production_data input) \<noteq> NaN"
  shows "\<exists>p. predicted_waste_percentage
                (ForecastService_predict weekday_of production_data input) = Fin p
            \<and> 1 \<le> p \<and> p \<le> 50
            \<and> js_sub (Fin 100) (Fin p) = Fin (100 - p) \<and> 50 \<le> 100 - p \<and> 100 - p \<le> 99"
proof -
  obtain a where a:
    "predicted_waste_percentage (ForecastService_predict weekday_of production_data input)
       = Math_max (Fin 1) (Math_min (Fin 50) a)"
    using predict_model_path_pct [OF assms(1)] by blast
  show ?thesis
    using assms(2) unfolding a Math_clamp_cases by (cases a) (auto simp: js_sub_def)
qed

text \<open>
  C10. In \<open>ForecastService.predict\<close> with at least 3 rows of history for the item, the
  adjusted waste percentage is meant to be clamped to [1, 50], so that the divisor
  \<open>100 - predicted_waste_percentage\<close> of the recommended quantity lies in [50, 99].
  The code does not achieve this for an item whose history has waste 0 throughout and a row
  on the weekday of the request: \<open>getDayOfWeekFactor\<close> divides the weekday average 0 by the
  overall average 0, the product is NaN, \<open>Math.max(1, Math.min(50, NaN))\<close> is NaN, and
  both the divisor and the recommended quantity are NaN. The theorem evaluates the code on
  three such rows.
\<close>

theorem predict_zero_waste_history_NaN:
  "3 \<le> length (filter (\<lambda>d. menu_item d = menu_item_in rice_request)
                 [zero_row, zero_row, zero_row])
   \<and> predicted_waste_percentage
       (ForecastService_predict (\<lambda>d. ''Monday'') [zero_row, zero_row, zero_row] rice_request)
       = NaN
   \<and> js_sub (Fin 100)
       (predicted_waste_percentage
          (ForecastService_predict (\<lambda>d. ''Monday'') [zero_row, zero_row, zero_row]
             rice_request))
       = NaN
   \<and> recommended_quantity
       (ForecastService_predict (\<lambda>d. ''Monday'') [zero_row, zero_row, zero_row] rice_request)
       = NaN"
  by (simp add: forecast_eval_defs)






text \<open>
  C3, as amended. For a request whose item has no row of history: \<open>ForecastService.predict\<close>
  returns accuracy 0.65 when the store has no row of category Protein and 0.7 otherwise,
  with the interval from 0.7 to 1.3 times the predicted waste; \<open>ForecastModel.predict\<close>
  returns accuracy 0.7 with the constant interval from -5 to 5, whatever the predicted
  waste. Neither reads a fitted model: the result of \<open>ForecastModel.predict\<close> is the same
  for every feature vector and every fitted model, residuals included.
\<close>

theorem forecast_fallback_zero_rows:
  assumes "filter (\<lambda>d. menu_item d = menu_item_in input) production_data = []"
  shows "model_accuracy (ForecastService_predict weekday_of production_data input) =
           (if filter (\<lambda>d. category d = ''Protein'') production_data = [] then 0.65 else 0.7)
       \<and> ci_lower (ForecastService_predict weekday_of production_data input) =
           js_mul (predicted_waste (ForecastService_predict weekday_of production_data input))
             (Fin 0.7)
       \<and> ci_upper (ForecastService_predict weekday_of production_data input) =
           js_mul (predicted_waste (ForecastService_predict weekday_of production_data input))
             (Fin 1.3)
       \<and> model_accuracy (ForecastModel_predict production_data features model input) = 0.7
       \<and> ci_lower (ForecastModel_predict production_data features model input) = Fin (- 5)
       \<and> ci_upper (ForecastModel_predict production_data features model input) = Fin 5
       \<and> ForecastModel_predict production_data features model input =
           ForecastModel_predict production_data features' model' input"
proof -
  have nf: "find (\<lambda>d. menu_item d = menu_item_in input) production_data = None"
    using assms by (simp add: find_None_iff filter_empty_conv)
  have s: "ForecastService_predict weekday_of production_data input =
           ForecastService_predictFromCategory production_data input"
    using assms by (simp add: ForecastService_predict_def)
  have m: "\<And>fs md. ForecastModel_predict production_data fs md input =
           ForecastModel_predictFromCategory production_data input"
    using assms by (simp add: ForecastModel_predict_def)
  show ?thesis
    unfolding s m
    by (simp add: ForecastService_predictFromCategory_def
        ForecastModel_predictFromCategory_def nf Let_def)
qed

theorem forecast_fallback_zero_rows_witness:
  "filter (\<lambda>d. menu_item d = menu_item_in soup_request) [ten_row] = []
   \<and> model_accuracy (ForecastService_predict (\<lambda>d. ''Monday'') [ten_row] soup_request) = 0.65
   \<and> ci_lower (ForecastService_predict (\<lambda>d. ''Monday'') [ten_row] soup_request) = Fin 7
   \<and> ci_upper (ForecastService_predict (\<lambda>d. ''Monday'') [ten_row] soup_request) = Fin 13
   \<and> model_accuracy
       (ForecastModel_predict [ten_row] ten_features (flat_model 10) soup_request) = 0.7
   \<and> ci_lower
       (ForecastModel_predict [ten_row] ten_features (flat_model 10) soup_request) = Fin (- 5)
   \<and> ci_upper
       (ForecastModel_predict [ten_row] ten_features (flat_model 10) soup_request) = Fin 5"
proof -
  have h: "filter (\<lambda>d. menu_item d = menu_item_in soup_request) [ten_row] = []"
    by (simp add: ten_row_def soup_request_def)
  have c: "filter (\<lambda>d. category d = ''Protein'') [ten_row] = []"
    by (simp add: ten_row_def)
  have pw: "predicted_waste (ForecastService_predict (\<lambda>d. ''Monday'') [ten_row] soup_request)
            = Fin 10"
    by (simp add: forecast_eval_defs)
  show ?thesis
    using forecast_fallback_zero_rows
      [OF h, of "\<lambda>d. ''Monday''" ten_features "flat_model 10" ten_features "flat_model 10"] h
    unfolding c pw by simp
qed

text \<open>
  The claim as stated fails in \<open>ForecastModel.predict\<close>: for an item without history and
  100 servings, against one Entree row of 10 percent waste, the predicted waste is 10 and
  the interval is from -5 to 5, which is neither 0.7 nor 0.8 times the predicted waste at
  its lower end.
\<close>

theorem forecast_fallback_band_counterexample:
  "filter (\<lambda>d. menu_item d = menu_item_in soup_request) [ten_row] = []
   \<and> predicted_waste
       (ForecastModel_predict [ten_row] ten_features (flat_model 10) soup_request) = Fin 10
   \<and> ci_lower
       (ForecastModel_predict [ten_row] ten_features (flat_model 10) soup_request) = Fin (- 5)
   \<and> ci_upper
       (ForecastModel_predict [ten_row] ten_features (flat_model 10) soup_request) = Fin 5
   \<and> ci_lower (ForecastModel_predict [ten_row] ten_features (flat_model 10) soup_request)
       \<noteq> js_mul (predicted_waste
             (ForecastModel_predict [ten_row] ten_features (flat_model 10) soup_request))
            (Fin 0.7)
   \<and> ci_lower (ForecastModel_predict [ten_row] ten_features (flat_model 10) soup_request)
       \<noteq> js_mul (predicted_waste
             (ForecastModel_predict [ten_row] ten_features (flat_model 10) soup_request))
            (Fin 0.8)"
  by (simp add: forecast_eval_defs)

section \<open>Properties of the impact projector\<close>

lemma slice_from_recent: "slice_from (- 14) xs = recent_window xs"
  by (simp add: slice_from_def recent_window_def slice_index_def nat_diff_distrib' max_def)

lemma slice_prior: "slice (- 28) (- 14) xs = prior_window xs"
proof -
  have a: "slice_index (- 28) (length xs) = length xs - 28"
    by (auto simp add: slice_index_def max_def)
  have b: "slice_index (- 14) (length xs) = length xs - 14"
    by (auto simp add: slice_index_def max_def)
  show ?thesis by (simp add: slice_def prior_window_def a b Let_def)
qed

lemma reduce_sum_mean: "reduce_sum f xs / real (length xs) = mean f xs"
  by (simp add: mean_def reduce_sum_sum_list)

lemma number_or_zero: "number_or t 0 = (case t of None \<Rightarrow> 0 | Some v \<Rightarrow> v)"
  by (simp add: number_or_def split: option.splits)

lemma trend_ratio_spec:
  "(if length (slice_from (- 14) xs) = 0 \<or> length (slice (- 28) (- 14) xs) = 0 then dflt
    else calculateTrendRatio (reduce_sum f (slice_from (- 14) xs) / real (length (slice_from (- 14) xs)))
           (reduce_sum f (slice (- 28) (- 14) xs) / real (length (slice (- 28) (- 14) xs))))
   = spec_trend_multiplier f dflt xs"
  unfolding slice_from_recent slice_prior reduce_sum_mean
  by (simp add: spec_trend_multiplier_def calculateTrendRatio_def Let_def)

lemma trend_multipliers_spec:
  "calculateTrendMultipliers xs =
     \<lparr> food_rescued = spec_trend_multiplier food_rescued_lbs_daily 1.02 xs,
       meals = spec_trend_multiplier meals_provided_to_community_daily 1.02 xs,
       co2 = spec_trend_multiplier co2_emissions_avoided_lbs_daily 1.02 xs,
       money = spec_trend_multiplier money_saved_daily 1.01 xs,
       waste_cost = spec_trend_multiplier waste_disposal_cost_avoided_daily 1.01 xs,
       volunteer = spec_trend_multiplier volunteer_hours_daily 1.0 xs,
       operational = spec_trend_multiplier operational_savings_daily 1.01 xs,
       community = spec_trend_multiplier community_impact_score_daily 1.01 xs \<rparr>"
proof (cases "length (slice_from (- 14) xs) = 0 \<or> length (slice (- 28) (- 14) xs) = 0")
  case True
  then have e: "recent_window xs = [] \<or> prior_window xs = []"
    unfolding slice_from_recent slice_prior by simp
  show ?thesis
    using True e by (auto simp add: calculateTrendMultipliers_def spec_trend_multiplier_def Let_def)
next
  case False
  then have e: "\<not> (recent_window xs = [] \<or> prior_window xs = [])"
    unfolding slice_from_recent slice_prior by simp
  have r: "calculateTrendRatio
        (reduce_sum f (slice_from (- 14) xs) / real (length (slice_from (- 14) xs)))
        (reduce_sum f (slice (- 28) (- 14) xs) / real (length (slice (- 28) (- 14) xs)))
      = spec_trend_multiplier f dflt xs" for f dflt
    using trend_ratio_spec [of xs dflt f] False by simp
  show ?thesis
    using False by (simp add: calculateTrendMultipliers_def calculateDailyAverages_def Let_def r)
qed

lemma scenario_multipliers_spec:
  "waste_reduction (calculateScenarioMultipliers (intervention_scenarios input))
     = spec_scenario_multiplier waste_reduction_target input
   \<and> pickup_efficiency (calculateScenarioMultipliers (intervention_scenarios input))
     = spec_scenario_multiplier pickup_efficiency_improvement input
   \<and> cost_optimization (calculateScenarioMultipliers (intervention_scenarios input))
     = spec_scenario_multiplier cost_optimization_target input"
  by (simp add: calculateScenarioMultipliers_def spec_scenario_multiplier_def number_or_zero
      split: option.splits)

text \<open>
  C6, as amended. Each projected metric is the current metric times the period multiplier
  (1/52, 1/12, 1/4 or 1), times the trend multiplier of its column, times the scenario
  multiplier of its intervention field: \<open>waste_reduction_target\<close> for food rescued, meals,
  CO2 and waste disposal cost, \<open>cost_optimization_target\<close> for money saved and operational
  savings, \<open>pickup_efficiency_improvement\<close> for volunteer hours, and no scenario multiplier
  for the community impact score. The trend multiplier is the ratio of the mean over the
  last 14 rows to the mean over the rows before them (at most 14), clamped to [0.8, 1.3];
  it is the default constant of the column when one of the two windows is empty, and 1
  when the mean over the prior window is 0.
\<close>

theorem projected_metrics_formula:
  "food_rescued_lbs (projectFutureImpact impact_data current input) =
     food_rescued_lbs current * period_multipliers (projection_period input)
       * spec_trend_multiplier food_rescued_lbs_daily 1.02 impact_data
       * spec_scenario_multiplier waste_reduction_target input
   \<and> meals_provided (projectFutureImpact impact_data current input) =
     meals_provided current * period_multipliers (projection_period input)
       * spec_trend_multiplier meals_provided_to_community_daily 1.02 impact_data
       * spec_scenario_multiplier waste_reduction_target input
   \<and> co2_emissions_avoided_lbs (projectFutureImpact impact_data current input) =
     co2_emissions_avoided_lbs current * period_multipliers (projection_period input)
       * spec_trend_multiplier co2_emissions_avoided_lbs_daily 1.02 impact_data
       * spec_scenario_multiplier waste_reduction_target input
   \<and> money_saved (projectFutureImpact impact_data current input) =
     money_saved current * period_multipliers (projection_period input)
       * spec_trend_multiplier money_saved_daily 1.01 impact_data
       * spec_scenario_multiplier cost_optimization_target input
   \<and> waste_disposal_cost_avoided (projectFutureImpact impact_data current input) =
     waste_disposal_cost_avoided current * period_multipliers (projection_period input)
       * spec_trend_multiplier waste_disposal_cost_avoided_daily 1.01 impact_data
       * spec_scenario_multiplier waste_reduction_target input
   \<and> volunteer_hours (projectFutureImpact impact_data current input) =
     volunteer_hours current * period_multipliers (projection_period input)
       * spec_trend_multiplier volunteer_hours_daily 1.0 impact_data
       * spec_scenario_multiplier pickup_efficiency_improvement input
   \<and> operational_savings (projectFutureImpact impact_data current input) =
     operational_savings current * period_multipliers (projection_period input)
       * spec_trend_multiplier operational_savings_daily 1.01 impact_data
       * spec_scenario_multiplier cost_optimization_target input
   \<and> community_impact_score (projectFutureImpact impact_data current input) =
     community_impact_score current * period_multipliers (projection_period input)
       * spec_trend_multiplier community_impact_score_daily 1.01 impact_data"
  unfolding projectFutureImpact_def Let_def trend_multipliers_spec
  using scenario_multipliers_spec[of input] by simp

lemma spec_trend_multiplier_bounds:
  assumes "0.8 \<le> dflt" "dflt \<le> 1.3"
  shows "0.8 \<le> spec_trend_multiplier f dflt xs \<and> spec_trend_multiplier f dflt xs \<le> 1.3"
  using assms unfolding spec_trend_multiplier_def by (auto simp: max_def min_def)

lemma growth_windows:
  "recent_window growth_history = replicate 14 (impact_row 10)"
  "prior_window growth_history = replicate 14 (impact_row 0)"
  by (simp_all add: recent_window_def prior_window_def growth_history_def)

lemma mean_replicate: "0 < n \<Longrightarrow> mean f (replicate n x) = f x"
  by (simp add: mean_def sum_list_replicate)

text \<open>
  The claim as stated fails when the prior window averages 0: with 14 rows of 0 lbs
  followed by 14 rows of 10 lbs, the ratio of the averages is 10 / 0, plus infinity, and
  its clamp is 1.3, but the code takes the multiplier 1: the projected food rescued for a
  year from the default metrics is 15000, not 19500.
\<close>

theorem trend_ratio_counterexample:
  "mean food_rescued_lbs_daily (recent_window growth_history) = 10
   \<and> mean food_rescued_lbs_daily (prior_window growth_history) = 0
   \<and> Math_max (Fin 0.8) (Math_min (Fin 1.3) (js_div (Fin 10) (Fin 0))) = Fin 1.3
   \<and> food_rescued (calculateTrendMultipliers growth_history) = 1
   \<and> food_rescued_lbs (projectFutureImpact growth_history getDefaultMetrics year_request) = 15000
   \<and> food_rescued_lbs getDefaultMetrics * period_multipliers Year * 1.3 * 1 = 19500"
  unfolding projectFutureImpact_def Let_def trend_multipliers_spec growth_windows
  by (simp add: spec_trend_multiplier_def growth_windows mean_replicate impact_row_def
      getDefaultMetrics_def year_request_def calculateScenarioMultipliers_def)

section \<open>Properties of the statistics toolkit\<close>

subsection \<open>Rounding to the nearest double\<close>

lemma round_half_even_int: "round_half_even (of_int k) = k"
  by (simp add: round_half_even_def)

lemma round_half_even_bounds: "\<lfloor>q\<rfloor> \<le> round_half_even q" "round_half_even q \<le> \<lfloor>q\<rfloor> + 1"
  by (simp_all add: round_half_even_def Let_def)

lemma round_half_even_mono:
  assumes "q \<le> q'"
  shows "round_half_even q \<le> round_half_even q'"
proof (cases "\<lfloor>q\<rfloor> = \<lfloor>q'\<rfloor>")
  case True
  then show ?thesis using assms
    by (auto simp add: round_half_even_def Let_def)
next
  case False
  then have "\<lfloor>q\<rfloor> < \<lfloor>q'\<rfloor>" using floor_mono [OF assms] by linarith
  then show ?thesis
    using round_half_even_bounds(2) [of q] round_half_even_bounds(1) [of q'] by linarith
qed

lemma round_half_even_minus: "round_half_even (- q) = - round_half_even q"
proof (cases "q \<in> \<int>")
  case True
  then obtain k where "q = of_int k" by (auto elim: Ints_cases)
  then show ?thesis
    using round_half_even_int [of k] round_half_even_int [of "- k"] by simp
next
  case False
  then have "q \<noteq> of_int \<lfloor>q\<rfloor>" by (metis Ints_of_int)
  then have "\<lceil>q\<rceil> = \<lfloor>q\<rfloor> + 1" by (simp add: ceiling_altdef)
  then have f: "\<lfloor>- q\<rfloor> = - \<lfloor>q\<rfloor> - 1" by (simp add: ceiling_def)
  show ?thesis
    unfolding round_half_even_def Let_def f
    by (auto simp add: algebra_simps)
qed

lemma binade_minus: "binade (- x) = binade x"
  by (simp add: binade_def)

lemma ulp_minus: "ulp (- x) = ulp x"
  by (simp add: ulp_def binade_minus)

lemma ulp_pos: "0 < ulp x"
  by (simp add: ulp_def)

lemma round_nearest_even_minus: "round_nearest_even (- x) = - round_nearest_even x"
  by (simp add: round_nearest_even_def ulp_minus round_half_even_minus)

lemma abs_less_binade:
  assumes "x \<noteq> 0"
  shows "\<bar>x\<bar> < 2 powr of_int (binade x + 1)"
proof -
  have "\<bar>x\<bar> = 2 powr log 2 \<bar>x\<bar>" using assms by simp
  also have "\<dots> < 2 powr of_int (\<lfloor>log 2 \<bar>x\<bar>\<rfloor> + 1)"
    by (simp only: powr_less_cancel_iff) linarith
  also have "\<dots> \<le> 2 powr of_int (binade x + 1)"
    by (simp add: binade_def)
  finally show ?thesis .
qed

lemma binade_le_abs:
  assumes "x \<noteq> 0" and "- 1022 \<le> \<lfloor>log 2 \<bar>x\<bar>\<rfloor>"
  shows "2 powr of_int (binade x) \<le> \<bar>x\<bar>"
proof -
  have "binade x = \<lfloor>log 2 \<bar>x\<bar>\<rfloor>" using assms(2) by (simp add: binade_def)
  then have "2 powr of_int (binade x) \<le> 2 powr log 2 \<bar>x\<bar>"
    by simp
  then show ?thesis using assms(1) by simp
qed

lemma floor_log_eq:
  assumes "2 powr of_int e \<le> \<bar>x\<bar>" and "\<bar>x\<bar> < 2 powr of_int (e + 1)"
  shows "\<lfloor>log 2 \<bar>x\<bar>\<rfloor> = e"
proof -
  have "0 < \<bar>x\<bar>" using assms(1) powr_gt_zero [of 2 "of_int e"] by linarith
  then show ?thesis
    using assms by (simp add: floor_log_eq_powr_iff add.commute)
qed

lemma scaled_less:
  assumes "x \<noteq> 0"
  shows "\<bar>x\<bar> / ulp x < 2 ^ 53"
proof -
  have "\<bar>x\<bar> / ulp x < 2 powr of_int (binade x + 1) / ulp x"
    using abs_less_binade [OF assms] ulp_pos [of x] by (simp add: divide_strict_right_mono)
  also have "\<dots> = 2 powr 53"
    unfolding ulp_def powr_diff [symmetric] by simp
  also have "\<dots> = 2 ^ 53" by (simp add: powr_numeral)
  finally show ?thesis .
qed

lemma scaled_ge:
  assumes "x \<noteq> 0" and "- 1022 \<le> \<lfloor>log 2 \<bar>x\<bar>\<rfloor>"
  shows "2 ^ 52 \<le> \<bar>x\<bar> / ulp x"
proof -
  have "2 powr 52 = 2 powr of_int (binade x) / ulp x"
    unfolding ulp_def powr_diff [symmetric] by simp
  also have "\<dots> \<le> \<bar>x\<bar> / ulp x"
    using binade_le_abs [OF assms] ulp_pos [of x] by (simp add: divide_right_mono)
  finally show ?thesis by (simp add: powr_numeral)
qed

lemma round_half_even_le_int: "q \<le> of_int k \<Longrightarrow> round_half_even q \<le> k"
  using round_half_even_mono [of q "of_int k"] by (simp add: round_half_even_int)

lemma round_half_even_ge_int: "of_int k \<le> q \<Longrightarrow> k \<le> round_half_even q"
  using round_half_even_mono [of "of_int k" q] by (simp add: round_half_even_int)

lemma round_nearest_even_nonneg:
  assumes "0 \<le> x"
  shows "0 \<le> round_nearest_even x"
proof -
  have "0 \<le> x / ulp x" using assms ulp_pos [of x] by simp
  then have "0 \<le> round_half_even (x / ulp x)"
    using round_half_even_ge_int [of 0 "x / ulp x"] by simp
  then show ?thesis using ulp_pos [of x] by (simp add: round_nearest_even_def)
qed

lemma significand_le:
  assumes "x \<noteq> 0"
  shows "\<bar>round_half_even (x / ulp x)\<bar> \<le> 2 ^ 53"
proof -
  have "x / ulp x \<le> \<bar>x\<bar> / ulp x" and "(- \<bar>x\<bar>) / ulp x \<le> x / ulp x"
    using ulp_pos [of x] by (intro divide_right_mono; simp)+
  then have hi: "x / ulp x \<le> of_int (2 ^ 53)" and lo: "of_int (- (2 ^ 53)) \<le> x / ulp x"
    using scaled_less [OF assms] by simp_all
  have "round_half_even (x / ulp x) \<le> 2 ^ 53"
    using hi by (rule round_half_even_le_int)
  moreover have "- (2 ^ 53) \<le> round_half_even (x / ulp x)"
    using lo by (rule round_half_even_ge_int)
  ultimately show ?thesis by linarith
qed

lemma significand_ge:
  assumes "0 < x" and "- 1022 \<le> \<lfloor>log 2 \<bar>x\<bar>\<rfloor>"
  shows "2 ^ 52 \<le> round_half_even (x / ulp x)"
proof -
  have "of_int (2 ^ 52) \<le> x / ulp x"
    using scaled_ge [of x] assms by simp
  then show ?thesis by (rule round_half_even_ge_int)
qed

lemma round_nearest_even_le_top:
  assumes "0 < x"
  shows "round_nearest_even x \<le> 2 powr of_int (binade x + 1)"
proof -
  have "round_half_even (x / ulp x) \<le> 2 ^ 53"
    using significand_le [of x] assms by simp
  then have "real_of_int (round_half_even (x / ulp x)) \<le> 2 ^ 53"
    by (metis of_int_le_iff of_int_numeral of_int_power)
  then have "round_nearest_even x \<le> 2 ^ 53 * ulp x"
    using assms ulp_pos [of x] by (simp add: round_nearest_even_def)
  also have "\<dots> = 2 powr 53 * ulp x" by (simp add: powr_numeral)
  also have "\<dots> = 2 powr of_int (binade x + 1)"
    unfolding ulp_def powr_add [symmetric] by (simp add: add.commute)
  finally show ?thesis .
qed

lemma round_nearest_even_ge_bottom:
  assumes "0 < x" and "- 1022 \<le> \<lfloor>log 2 \<bar>x\<bar>\<rfloor>"
  shows "2 powr of_int (binade x) \<le> round_nearest_even x"
proof -
  have "2 ^ 52 \<le> round_half_even (x / ulp x)" by (rule significand_ge [OF assms])
  then have "2 ^ 52 \<le> real_of_int (round_half_even (x / ulp x))"
    by (metis of_int_le_iff of_int_numeral of_int_power)
  then have "2 ^ 52 * ulp x \<le> round_nearest_even x"
    using assms ulp_pos [of x] by (simp add: round_nearest_even_def)
  moreover have "2 ^ 52 * ulp x = 2 powr 52 * ulp x" by (simp add: powr_numeral)
  moreover have "\<dots> = 2 powr of_int (binade x)"
    unfolding ulp_def powr_add [symmetric] by simp
  ultimately show ?thesis by simp
qed

lemma binade_mono:
  assumes "0 < x" and "x \<le> y"
  shows "binade x \<le> binade y"
proof -
  have "log 2 \<bar>x\<bar> \<le> log 2 \<bar>y\<bar>" using assms by simp
  then have "\<lfloor>log 2 \<bar>x\<bar>\<rfloor> \<le> \<lfloor>log 2 \<bar>y\<bar>\<rfloor>" by (rule floor_mono)
  then show ?thesis by (simp add: binade_def)
qed

lemma round_nearest_even_mono_pos:
  assumes "0 < x" and "x \<le> y"
  shows "round_nearest_even x \<le> round_nearest_even y"
proof (cases "binade x = binade y")
  case True
  then have u: "ulp x = ulp y" by (simp add: ulp_def)
  have "x / ulp y \<le> y / ulp y" using assms(2) ulp_pos [of y] by (simp add: divide_right_mono)
  then have "round_half_even (x / ulp y) \<le> round_half_even (y / ulp y)"
    by (rule round_half_even_mono)
  then show ?thesis
    using assms ulp_pos [of y] by (simp add: round_nearest_even_def u)
next
  case False
  have y: "0 < y" using assms by linarith
  have lt: "binade x < binade y" using binade_mono [OF assms] False by linarith
  have "- 1022 \<le> binade x" by (simp add: binade_def)
  then have "- 1022 < binade y" using lt by linarith
  then have n: "- 1022 \<le> \<lfloor>log 2 \<bar>y\<bar>\<rfloor>" unfolding binade_def by linarith
  have "round_nearest_even x \<le> 2 powr of_int (binade x + 1)"
    by (rule round_nearest_even_le_top [OF assms(1)])
  also have "\<dots> \<le> 2 powr of_int (binade y)" using lt by simp
  also have "\<dots> \<le> round_nearest_even y" by (rule round_nearest_even_ge_bottom [OF y n])
  finally show ?thesis .
qed

lemma round_nearest_even_mono:
  assumes "x \<le> y"
  shows "round_nearest_even x \<le> round_nearest_even y"
proof -
  consider "0 < x" | "y < 0" | "x \<le> 0" "0 \<le> y" by linarith
  then show ?thesis
  proof cases
    case 1
    then show ?thesis using assms by (rule round_nearest_even_mono_pos)
  next
    case 2
    then have "round_nearest_even (- y) \<le> round_nearest_even (- x)"
      using assms by (intro round_nearest_even_mono_pos) simp_all
    then show ?thesis by (simp add: round_nearest_even_minus)
  next
    case 3
    have "0 \<le> round_nearest_even (- x)" using 3(1) by (intro round_nearest_even_nonneg) simp
    then have "round_nearest_even x \<le> 0" by (simp add: round_nearest_even_minus)
    then show ?thesis using round_nearest_even_nonneg [OF 3(2)] by linarith
  qed
qed

text \<open>
  A multiple of the spacing of its binade with a significand below 2 to the power 53 is a
  double, and rounding returns doubles.
\<close>

lemma binade_of_significand:
  assumes e: "- 1022 \<le> e" and m: "\<bar>m\<bar> < 2 ^ 53" and z: "m \<noteq> 0"
    and n: "e = - 1022 \<or> 2 ^ 52 \<le> \<bar>m\<bar>"
  shows "binade (of_int m * 2 powr of_int (e - 52)) = e"
proof -
  let ?u = "2 powr real_of_int (e - 52)"
  let ?v = "real_of_int m * ?u"
  have u: "0 < ?u" by simp
  have av: "\<bar>?v\<bar> = real_of_int \<bar>m\<bar> * ?u" by (simp add: abs_mult)
  have "real_of_int \<bar>m\<bar> < 2 ^ 53"
    using m by (metis of_int_less_iff of_int_numeral of_int_power)
  then have "\<bar>?v\<bar> < 2 ^ 53 * ?u" unfolding av using u by (simp only: mult_strict_right_mono)
  also have "\<dots> = 2 powr 53 * ?u" by (simp add: powr_numeral)
  also have "\<dots> = 2 powr of_int (e + 1)"
    unfolding powr_add [symmetric] by (simp add: add.commute)
  finally have hi: "\<bar>?v\<bar> < 2 powr of_int (e + 1)" .
  show ?thesis
  proof (cases "2 ^ 52 \<le> \<bar>m\<bar>")
    case True
    then have "2 ^ 52 \<le> real_of_int \<bar>m\<bar>"
      by (metis of_int_le_iff of_int_numeral of_int_power)
    then have "2 ^ 52 * ?u \<le> \<bar>?v\<bar>" unfolding av using u by (simp only: mult_right_mono less_imp_le)
    moreover have "2 ^ 52 * ?u = 2 powr 52 * ?u" by (simp add: powr_numeral)
    moreover have "\<dots> = 2 powr of_int e"
      unfolding powr_add [symmetric] by simp
    ultimately have "2 powr of_int e \<le> \<bar>?v\<bar>" by simp
    then have "\<lfloor>log 2 \<bar>?v\<bar>\<rfloor> = e" using hi by (rule floor_log_eq)
    then show ?thesis using e by (simp add: binade_def)
  next
    case False
    then have e': "e = - 1022" using n by simp
    have "real_of_int \<bar>m\<bar> < 2 ^ 52"
      using False by (metis not_le of_int_less_iff of_int_numeral of_int_power)
    then have "\<bar>?v\<bar> < 2 ^ 52 * ?u" unfolding av using u by (simp only: mult_strict_right_mono)
    also have "\<dots> = 2 powr 52 * ?u" by (simp add: powr_numeral)
    also have "\<dots> = 2 powr of_int e"
      unfolding powr_add [symmetric] by simp
    finally have lt: "\<bar>?v\<bar> < 2 powr of_int e" .
    have "0 < \<bar>?v\<bar>" using z by simp
    then have "log 2 \<bar>?v\<bar> < of_int e"
      using lt by (simp add: log_less_iff)
    then have "\<lfloor>log 2 \<bar>?v\<bar>\<rfloor> < e" by linarith
    then show ?thesis unfolding binade_def e' by simp
  qed
qed

lemma round_nearest_even_fixed:
  assumes e: "- 1022 \<le> e" and m: "\<bar>m\<bar> < 2 ^ 53"
    and n: "e = - 1022 \<or> 2 ^ 52 \<le> \<bar>m\<bar>"
  shows "round_nearest_even (of_int m * 2 powr of_int (e - 52)) = of_int m * 2 powr of_int (e - 52)"
proof (cases "m = 0")
  case True
  then show ?thesis by (simp add: round_nearest_even_def)
next
  case False
  let ?v = "real_of_int m * 2 powr real_of_int (e - 52)"
  have b: "binade ?v = e" by (rule binade_of_significand [OF e m False n])
  have u: "ulp ?v = 2 powr real_of_int (e - 52)" unfolding ulp_def b ..
  have "?v / ulp ?v = of_int m" unfolding u by simp
  then show ?thesis
    unfolding round_nearest_even_def by (simp only: round_half_even_int u) simp
qed

lemma round_nearest_even_idem: "round_nearest_even (round_nearest_even x) = round_nearest_even x"
proof (cases "x = 0")
  case True
  then show ?thesis by (simp add: round_nearest_even_def)
next
  case False
  define m where "m = round_half_even (x / ulp x)"
  define e where "e = binade x"
  have r: "round_nearest_even x = of_int m * 2 powr of_int (e - 52)"
    using False by (simp add: round_nearest_even_def m_def e_def ulp_def)
  have e: "- 1022 \<le> e" by (simp add: e_def binade_def)
  have le: "\<bar>m\<bar> \<le> 2 ^ 53" unfolding m_def by (rule significand_le [OF False])
  show ?thesis
  proof (cases "\<bar>m\<bar> = 2 ^ 53")
    case True
    then consider "m = 2 ^ 53" | "m = - (2 ^ 53)" by linarith
    then have "real_of_int m * 2 powr of_int (e - 52)
                 = real_of_int (m div 2) * 2 powr of_int (e + 1 - 52)
                \<and> \<bar>m div 2\<bar> = 2 ^ 52"
    proof cases
      case 1
      have "(2::real) powr of_int (e + 1 - 52) = 2 powr of_int (e - 52) * 2 powr 1"
        unfolding powr_add [symmetric] by (simp add: algebra_simps)
      then show ?thesis unfolding 1 by simp
    next
      case 2
      have "(2::real) powr of_int (e + 1 - 52) = 2 powr of_int (e - 52) * 2 powr 1"
        unfolding powr_add [symmetric] by (simp add: algebra_simps)
      then show ?thesis unfolding 2 by simp
    qed
    then have v: "round_nearest_even x = of_int (m div 2) * 2 powr of_int (e + 1 - 52)"
      and h: "\<bar>m div 2\<bar> = 2 ^ 52"
      unfolding r by simp_all
    show ?thesis
      unfolding v
      using e h by (intro round_nearest_even_fixed) simp_all
  next
    case False
    then have lt: "\<bar>m\<bar> < 2 ^ 53" using le by linarith
    have "e = - 1022 \<or> 2 ^ 52 \<le> \<bar>m\<bar>"
    proof (cases "e = - 1022")
      case True
      then show ?thesis ..
    next
      case False
      then have n: "- 1022 \<le> \<lfloor>log 2 \<bar>x\<bar>\<rfloor>" unfolding e_def binade_def by linarith
      have nn: "- 1022 \<le> \<lfloor>log 2 \<bar>- x\<bar>\<rfloor>" using n by simp
      have "2 ^ 52 \<le> \<bar>m\<bar>"
      proof (cases "0 < x")
        case True
        then show ?thesis using significand_ge [OF True n] unfolding m_def by linarith
      next
        case False
        then have p: "0 < - x" using \<open>x \<noteq> 0\<close> by linarith
        have "2 ^ 52 \<le> round_half_even (- x / ulp (- x))" by (rule significand_ge [OF p nn])
        then have "2 ^ 52 \<le> - m"
          unfolding m_def ulp_minus by (simp add: round_half_even_minus)
        then show ?thesis by linarith
      qed
      then show ?thesis ..
    qed
    then show ?thesis unfolding r by (rule round_nearest_even_fixed [OF e lt])
  qed
qed

subsection \<open>The Cauchy-Schwarz inequality for the exact quantities\<close>

lemma foldl_pair_shift:
  "foldl (\<lambda>acc (a, b). acc + f a b) c ps = c + foldl (\<lambda>acc (a, b). acc + f a b) (0::real) ps"
proof (induction ps arbitrary: c)
  case Nil
  show ?case by simp
next
  case (Cons p ps)
  obtain a b where p: "p = (a, b)" by (cases p)
  show ?case
    using Cons.IH [of "c + f a b"] Cons.IH [of "f a b"] by (simp add: p)
qed

lemma foldl_pair_sum_list:
  "foldl (\<lambda>acc (a, b). acc + f a b) (0::real) ps = sum_list (map (\<lambda>(a, b). f a b) ps)"
proof (induction ps)
  case Nil
  show ?case by simp
next
  case (Cons p ps)
  obtain a b where p: "p = (a, b)" by (cases p)
  show ?case
    using foldl_pair_shift [of f "f a b" ps] Cons.IH by (simp add: p)
qed

text \<open>Sums over a list of pairs.\<close>

lemma sum_sq_expand:
  "sum_list (map (\<lambda>(u, v). (\<beta> * u - \<gamma> * v)\<^sup>2) ps) =
     \<beta>\<^sup>2 * sum_list (map (\<lambda>(u, v). u * u) ps)
     - 2 * \<beta> * \<gamma> * sum_list (map (\<lambda>(u, v). u * v) ps)
     + \<gamma>\<^sup>2 * sum_list (map (\<lambda>(u, v). v * v) ps :: real list)"
  by (induction ps) (auto simp: power2_eq_square algebra_simps)

lemma sum_sq_nonneg: "0 \<le> sum_list (map (\<lambda>(u, v). (g u v)\<^sup>2) ps :: real list)"
  by (rule sum_list_nonneg) auto

lemma sum_vv_zero:
  assumes "sum_list (map (\<lambda>(u, v). v * v) ps :: real list) = 0"
  shows "sum_list (map (\<lambda>(u, v). u * v) ps) = 0"
proof -
  have "\<forall>x\<in>set (map (\<lambda>(u, v). v * v) ps). x = 0"
    using assms by (subst (asm) sum_list_nonneg_eq_0_iff) auto
  then have "\<forall>p\<in>set ps. snd p = 0" by (auto simp: case_prod_beta)
  then have "sum_list (map (\<lambda>(u, v). u * v) ps) = sum_list (map (\<lambda>p. 0::real) ps)"
    by (intro arg_cong [of _ _ sum_list] map_cong) (auto simp: case_prod_beta)
  also have "\<dots> = 0" by simp
  finally show ?thesis .
qed

lemma Cauchy_Schwarz_pairs:
  "(sum_list (map (\<lambda>(u, v). u * v) ps))\<^sup>2
     \<le> sum_list (map (\<lambda>(u, v). u * u) ps) * sum_list (map (\<lambda>(u, v). v * v) ps :: real list)"
proof -
  define A where "A = sum_list (map (\<lambda>(u, v). u * u) ps)"
  define B where "B = sum_list (map (\<lambda>(u, v). v * v) ps)"
  define C where "C = sum_list (map (\<lambda>(u, v). u * v) ps)"
  have B0: "0 \<le> B" unfolding B_def by (rule sum_list_nonneg) auto
  have "0 \<le> sum_list (map (\<lambda>(u, v). (B * u - C * v)\<^sup>2) ps)" by (rule sum_sq_nonneg)
  then have "0 \<le> B\<^sup>2 * A - 2 * B * C * C + C\<^sup>2 * B"
    unfolding sum_sq_expand A_def B_def C_def .
  then have k: "0 \<le> B * (A * B - C\<^sup>2)"
    by (simp add: power2_eq_square algebra_simps)
  show ?thesis
  proof (cases "B = 0")
    case True
    then have "C = 0" unfolding B_def C_def by (rule sum_vv_zero)
    then show ?thesis using True unfolding A_def B_def C_def by simp
  next
    case False
    then have "0 < B" using B0 by simp
    then have "0 \<le> A * B - C\<^sup>2" using k by (simp add: zero_le_mult_iff)
    then show ?thesis unfolding A_def B_def C_def by simp
  qed
qed

lemma sum_centered_prod:
  "sum_list (map (\<lambda>(u, v). (k * u - \<alpha>) * (k * v - \<beta>)) ps) =
     k * k * sum_list (map (\<lambda>(u, v). u * v) ps)
     - k * \<beta> * sum_list (map fst ps) - k * \<alpha> * sum_list (map snd ps)
     + real (length ps) * \<alpha> * (\<beta>::real)"
  by (induction ps) (auto simp: algebra_simps)

lemma map_centered:
  "map (\<lambda>(u, v). u * v) (map (\<lambda>(u, v). (k * u - \<alpha>, k * v - \<beta>)) ps)
     = map (\<lambda>(u, v). (k * u - \<alpha>) * (k * v - \<beta>)) (ps :: (real \<times> real) list)"
  "map (\<lambda>(u, v). u * u) (map (\<lambda>(u, v). (k * u - \<alpha>, k * v - \<beta>)) ps)
     = map (\<lambda>(u, v). (k * u - \<alpha>) * (k * u - \<alpha>)) ps"
  "map (\<lambda>(u, v). v * v) (map (\<lambda>(u, v). (k * u - \<alpha>, k * v - \<beta>)) ps)
     = map (\<lambda>(u, v). (k * v - \<beta>) * (k * v - \<beta>)) ps"
  by (auto simp: case_prod_beta)

lemma sum_centered_uu:
  "sum_list (map (\<lambda>(u, v). (k * u - \<alpha>) * (k * u - \<alpha>)) ps) =
     k * k * sum_list (map (\<lambda>(u, v). u * u) ps)
     - 2 * k * \<alpha> * sum_list (map fst ps)
     + real (length ps) * \<alpha> * (\<alpha>::real)"
  by (induction ps) (auto simp: algebra_simps)

lemma sum_centered_vv:
  "sum_list (map (\<lambda>(u, v). (k * v - \<beta>) * (k * v - \<beta>)) ps) =
     k * k * sum_list (map (\<lambda>(u, v). v * v) ps)
     - 2 * k * \<beta> * sum_list (map snd ps)
     + real (length ps) * \<beta> * (\<beta>::real)"
  by (induction ps) (auto simp: algebra_simps)

lemma covariance_bound_pairs:
  fixes ps :: "(real \<times> real) list"
  defines "n \<equiv> real (length ps)"
  defines "Sa \<equiv> sum_list (map fst ps)" and "Sb \<equiv> sum_list (map snd ps)"
  defines "A \<equiv> sum_list (map (\<lambda>(u, v). u * u) ps)"
  defines "B \<equiv> sum_list (map (\<lambda>(u, v). v * v) ps)"
  defines "C \<equiv> sum_list (map (\<lambda>(u, v). u * v) ps)"
  shows "(n * C - Sa * Sb)\<^sup>2 \<le> (n * A - Sa * Sa) * (n * B - Sb * Sb)
         \<and> 0 \<le> n * A - Sa * Sa \<and> 0 \<le> n * B - Sb * Sb"
proof (cases "ps = []")
  case True
  then show ?thesis unfolding n_def Sa_def Sb_def A_def B_def C_def by simp
next
  case False
  then have n0: "0 < n" unfolding n_def by simp
  let ?qs = "map (\<lambda>(u, v). (n * u - Sa, n * v - Sb)) ps"
  have uv: "sum_list (map (\<lambda>(u, v). u * v) ?qs) = n * (n * C - Sa * Sb)"
    unfolding map_centered sum_centered_prod n_def[symmetric] Sa_def[symmetric] Sb_def[symmetric]
      C_def[symmetric]
    by (simp add: algebra_simps)
  have uu: "sum_list (map (\<lambda>(u, v). u * u) ?qs) = n * (n * A - Sa * Sa)"
    unfolding map_centered sum_centered_uu n_def[symmetric] Sa_def[symmetric] A_def[symmetric]
    by (simp add: algebra_simps)
  have vv: "sum_list (map (\<lambda>(u, v). v * v) ?qs) = n * (n * B - Sb * Sb)"
    unfolding map_centered sum_centered_vv n_def[symmetric] Sb_def[symmetric] B_def[symmetric]
    by (simp add: algebra_simps)
  have "0 \<le> sum_list (map (\<lambda>(u, v). u * u) ?qs)" by (rule sum_list_nonneg) auto
  then have a0: "0 \<le> n * A - Sa * Sa" unfolding uu using n0 by (simp add: zero_le_mult_iff)
  have "0 \<le> sum_list (map (\<lambda>(u, v). v * v) ?qs)" by (rule sum_list_nonneg) auto
  then have b0: "0 \<le> n * B - Sb * Sb" unfolding vv using n0 by (simp add: zero_le_mult_iff)
  have "(n * (n * C - Sa * Sb))\<^sup>2 \<le> (n * (n * A - Sa * Sa)) * (n * (n * B - Sb * Sb))"
    using Cauchy_Schwarz_pairs [of ?qs] unfolding uv uu vv .
  then have "n\<^sup>2 * (n * C - Sa * Sb)\<^sup>2 \<le> n\<^sup>2 * ((n * A - Sa * Sa) * (n * B - Sb * Sb))"
    by (simp add: power2_eq_square algebra_simps)
  then have "(n * C - Sa * Sb)\<^sup>2 \<le> (n * A - Sa * Sa) * (n * B - Sb * Sb)"
    using n0 by (simp add: mult_le_cancel_left_pos)
  then show ?thesis using a0 b0 by simp
qed

lemma sum_squares_zip:
  assumes "length x = length y"
  shows "sum_list (map (\<lambda>(u, v). u * u) (zip x y)) = sum_list (map (\<lambda>xi. xi * xi) x)"
    and "sum_list (map (\<lambda>(u, v). v * v) (zip x y)) = sum_list (map (\<lambda>yi. yi * (yi::real)) y)"
proof -
  have "map (\<lambda>(u, v). u * u) (zip x y) = map (\<lambda>xi. xi * xi) (map fst (zip x y))"
    by (simp add: case_prod_beta)
  then show "sum_list (map (\<lambda>(u, v). u * u) (zip x y)) = sum_list (map (\<lambda>xi. xi * xi) x)"
    using assms by simp
  have "map (\<lambda>(u, v). v * v) (zip x y) = map (\<lambda>yi. yi * yi) (map snd (zip x y))"
    by (simp add: case_prod_beta)
  then show "sum_list (map (\<lambda>(u, v). v * v) (zip x y)) = sum_list (map (\<lambda>yi. yi * yi) y)"
    using assms by simp
qed

lemma covariance_bound:
  assumes "length x = length y"
  shows "(cov_term x y)\<^sup>2 \<le> var_term x * var_term y" and "0 \<le> var_term x" and "0 \<le> var_term y"
proof -
  have l: "length (zip x y) = length x" "length (zip x y) = length y" using assms by simp_all
  have f: "map fst (zip x y) = x" "map snd (zip x y) = y" using assms by simp_all
  have k: "(real (length x) * sum_list (map (\<lambda>(u, v). u * v) (zip x y)) - sum_list x * sum_list y)\<^sup>2
         \<le> (real (length x) * sum_list (map (\<lambda>xi. xi * xi) x) - sum_list x * sum_list x)
           * (real (length x) * sum_list (map (\<lambda>yi. yi * yi) y) - sum_list y * sum_list y)
       \<and> 0 \<le> real (length x) * sum_list (map (\<lambda>xi. xi * xi) x) - sum_list x * sum_list x
       \<and> 0 \<le> real (length x) * sum_list (map (\<lambda>yi. yi * yi) y) - sum_list y * sum_list y"
    using covariance_bound_pairs [of "zip x y"]
    unfolding sum_squares_zip [OF assms] f l(1) .
  show "(cov_term x y)\<^sup>2 \<le> var_term x * var_term y"
    using k unfolding cov_term_def var_term_def assms by simp
  show "0 \<le> var_term x" using k unfolding var_term_def by simp
  show "0 \<le> var_term y" using k unfolding var_term_def assms by simp
qed

subsection \<open>Correlation\<close>

lemma js_mul_commute: "js_mul x y = js_mul y x"
  by (cases x; cases y) (simp_all add: mult.commute)

lemma double_mul_commute: "double_mul x y = double_mul y x"
  by (simp add: double_mul_def js_mul_commute)

lemma sum_of_products_commute:
  assumes "length x = length y"
  shows "sum_of_products y x = sum_of_products x y"
proof -
  have "foldl (\<lambda>acc (xi, yi). double_add acc (double_mul (Fin xi) (Fin yi))) a (zip y x)
      = foldl (\<lambda>acc (xi, yi). double_add acc (double_mul (Fin xi) (Fin yi))) a (zip x y)" for a
    using assms
  proof (induction x y arbitrary: a rule: list_induct2)
    case Nil
    show ?case by simp
  next
    case (Cons u x v y)
    show ?case
      using Cons.IH [of "double_add a (double_mul (Fin u) (Fin v))"]
      by (simp add: double_mul_commute [of "Fin v" "Fin u"])
  qed
  then show ?thesis using assms by (simp add: sum_of_products_def)
qed

lemma correlation_commute:
  assumes "length x = length y"
  shows "correlation_numerator y x = correlation_numerator x y"
    and "correlation_denominator y x = correlation_denominator x y"
    and "correlation y x = correlation x y"
proof -
  show n: "correlation_numerator y x = correlation_numerator x y"
    unfolding correlation_numerator_def Let_def sum_of_products_commute [OF assms] assms
    by (simp add: double_mul_commute [of "double_sum y"])
  have "correlation_radicand y x = correlation_radicand x y"
    unfolding correlation_radicand_def Let_def assms
    by (rule double_mul_commute)
  then show d: "correlation_denominator y x = correlation_denominator x y"
    by (simp add: correlation_denominator_def)
  show "correlation y x = correlation x y"
    unfolding correlation_def n d ..
qed

lemma overflow_threshold_gt_one: "1 < overflow_threshold"
  unfolding overflow_threshold_def by (rule one_less_power) simp_all

lemma round_double_cases:
  obtains "round_double x = PInf" "overflow_threshold \<le> round_nearest_even x"
  | "round_double x = NInf" "round_nearest_even x \<le> - overflow_threshold"
  | "round_double x = Fin (round_nearest_even x)"
    "\<bar>round_nearest_even x\<bar> < overflow_threshold"
proof -
  let ?r = "round_nearest_even x"
  consider (a) "overflow_threshold \<le> ?r"
    | (b) "\<not> overflow_threshold \<le> ?r" "?r \<le> - overflow_threshold"
    | (c) "\<not> overflow_threshold \<le> ?r" "\<not> ?r \<le> - overflow_threshold"
    by blast
  then show thesis
  proof cases
    case a
    then have "round_double x = PInf" by (simp add: round_double_def)
    then show thesis using a by (rule that(1))
  next
    case b
    then have "round_double x = NInf" by (simp add: round_double_def)
    then show thesis using b(2) by (rule that(2))
  next
    case c
    then have "round_double x = Fin ?r" by (simp add: round_double_def)
    moreover have "\<bar>?r\<bar> < overflow_threshold" using c by linarith
    ultimately show thesis by (rule that(3))
  qed
qed

lemma double_Fin_fixed:
  assumes "double v = Fin c"
  shows "round_nearest_even c = c"
proof (cases v)
  case (Fin a)
  then have "round_double a = Fin c" using assms by simp
  then have "c = round_nearest_even a"
    by (cases a rule: round_double_cases) simp_all
  then show ?thesis by (simp add: round_nearest_even_idem)
qed (use assms in simp_all)

lemma round_nearest_even_one: "round_nearest_even 1 = 1"
  using round_nearest_even_fixed [of 0 "2 ^ 52"] by (simp add: powr_minus powr_numeral)

lemma round_double_unit_interval:
  assumes "- 1 \<le> q" and "q \<le> 1"
  shows "\<exists>r. round_double q = Fin r \<and> - 1 \<le> r \<and> r \<le> 1"
proof -
  have hi: "round_nearest_even q \<le> 1"
    using round_nearest_even_mono [OF assms(2)] by (simp add: round_nearest_even_one)
  have "round_nearest_even (- 1) \<le> round_nearest_even q"
    using assms(1) by (rule round_nearest_even_mono)
  then have lo: "- 1 \<le> round_nearest_even q"
    by (simp add: round_nearest_even_minus round_nearest_even_one)
  have "round_double q = Fin (round_nearest_even q)"
    using hi lo overflow_threshold_gt_one by (cases q rule: round_double_cases) simp_all
  then show ?thesis using hi lo by simp
qed

lemma correlation_bounded_when_exact:
  assumes len: "length x = length y"
    and num: "correlation_numerator x y = Fin (cov_term x y)"
    and rad: "correlation_radicand x y = Fin (var_term x * var_term y)"
  shows "\<exists>r. correlation x y = Fin r \<and> - 1 \<le> r \<and> r \<le> 1"
proof -
  let ?c = "cov_term x y"
  let ?P = "var_term x * var_term y"
  let ?s = "sqrt ?P"
  have P: "0 \<le> ?P" using covariance_bound(2,3) [OF len] by (rule mult_nonneg_nonneg)
  have sq: "?c\<^sup>2 \<le> ?P" by (rule covariance_bound(1) [OF len])
  have "\<bar>?c\<bar> = sqrt (?c\<^sup>2)" by simp
  also have "\<dots> \<le> ?s" using sq by (rule real_sqrt_le_mono)
  finally have ab: "\<bar>?c\<bar> \<le> ?s" .
  have fc: "round_nearest_even ?c = ?c"
    using num unfolding correlation_numerator_def Let_def double_sub_def
    by (rule double_Fin_fixed)
  have fa: "round_nearest_even \<bar>?c\<bar> = \<bar>?c\<bar>"
    using fc by (cases "0 \<le> ?c") (simp_all add: round_nearest_even_minus)
  have den: "correlation_denominator x y = round_double ?s"
    unfolding correlation_denominator_def rad double_sqrt_def using P
    by (simp only: Math_sqrt.simps double.simps) simp
  have s0: "0 \<le> round_nearest_even ?s"
    by (rule round_nearest_even_nonneg) (rule real_sqrt_ge_zero [OF P])
  show ?thesis
  proof (cases ?s rule: round_double_cases)
    case 1
    then show ?thesis
      unfolding correlation_def Let_def den num
      using overflow_threshold_gt_one
      by (simp add: double_div_def round_double_def round_nearest_even_def)
  next
    case 2
    then show ?thesis using s0 overflow_threshold_gt_one by simp
  next
    case 3
    show ?thesis
    proof (cases "round_nearest_even ?s = 0")
      case True
      then show ?thesis unfolding correlation_def Let_def den 3(1) by simp
    next
      case False
      let ?d = "round_nearest_even ?s"
      have pos: "0 < ?d" using False s0 by linarith
      have "\<bar>?c\<bar> \<le> ?d" using round_nearest_even_mono [OF ab] unfolding fa .
      then have lo: "- ?d \<le> ?c" and hi: "?c \<le> ?d" by linarith+
      have "- 1 \<le> ?c / ?d" using lo pos by (simp add: pos_le_divide_eq)
      moreover have "?c / ?d \<le> 1" using hi pos by (simp add: pos_divide_le_eq)
      ultimately have "\<exists>r. round_double (?c / ?d) = Fin r \<and> - 1 \<le> r \<and> r \<le> 1"
        by (rule round_double_unit_interval)
      then show ?thesis
        unfolding correlation_def Let_def den 3(1) num using False
        by (simp add: double_div_def)
    qed
  qed
qed

text \<open>Rounding a given number: an integer below 2 to the power 53 is a double.\<close>

lemma abs_round_nearest_even_le:
  assumes "x \<noteq> 0"
  shows "\<bar>round_nearest_even x\<bar> \<le> 2 powr of_int (binade x + 1)"
proof -
  have "real_of_int \<bar>round_half_even (x / ulp x)\<bar> \<le> 2 ^ 53"
    using significand_le [OF assms] by (metis of_int_le_iff of_int_numeral of_int_power)
  then have "\<bar>round_nearest_even x\<bar> \<le> 2 ^ 53 * ulp x"
    using assms ulp_pos [of x] by (simp add: round_nearest_even_def abs_mult)
  also have "\<dots> = 2 powr 53 * ulp x" by (simp add: powr_numeral)
  also have "\<dots> = 2 powr of_int (binade x + 1)"
    unfolding ulp_def powr_add [symmetric] by (simp add: add.commute)
  finally show ?thesis .
qed

lemma below_overflow_threshold:
  assumes "x \<noteq> 0" and "binade x \<le> 1022"
  shows "round_double x = Fin (round_nearest_even x)"
proof -
  have "\<bar>round_nearest_even x\<bar> \<le> 2 powr of_int (binade x + 1)"
    by (rule abs_round_nearest_even_le [OF assms(1)])
  also have "\<dots> \<le> 2 powr 1023" using assms(2) by (intro powr_mono) simp_all
  also have "\<dots> = 2 ^ 1023" by (rule powr_numeral) simp
  also have "\<dots> < overflow_threshold"
    unfolding overflow_threshold_def by (rule power_strict_increasing) simp_all
  finally have "\<bar>round_nearest_even x\<bar> < overflow_threshold" .
  then show ?thesis by (cases x rule: round_double_cases) simp_all
qed

lemma round_double_binade:
  assumes lo: "2 ^ k \<le> \<bar>x\<bar>" and hi: "\<bar>x\<bar> < 2 * 2 ^ k" and k: "52 \<le> k" "k \<le> 1022"
  shows "round_double x
           = Fin (of_int (round_half_even (x / 2 ^ (k - 52))) * 2 ^ (k - 52))"
proof -
  have p: "2 powr real_of_int (int k) = 2 ^ k" "2 powr real_of_int (int k + 1) = 2 * 2 ^ k"
    by (simp_all add: powr_realpow powr_add)
  have "\<lfloor>log 2 \<bar>x\<bar>\<rfloor> = int k"
    by (rule floor_log_eq) (simp_all only: p lo hi)
  then have b: "binade x = int k" by (simp add: binade_def)
  have "int k - 52 = int (k - 52)" using k(1) by simp
  then have u: "ulp x = 2 ^ (k - 52)"
    unfolding ulp_def b by (simp only: of_int_of_nat_eq powr_realpow)
  have "(0::real) < 2 ^ k" by simp
  then have "0 < \<bar>x\<bar>" using lo by linarith
  then have x: "x \<noteq> 0" by simp
  have "round_double x = Fin (round_nearest_even x)"
    by (rule below_overflow_threshold [OF x]) (simp add: b k(2))
  then show ?thesis using x by (simp add: round_nearest_even_def u)
qed

lemma round_double_integer:
  assumes "x \<in> \<int>" and "\<bar>x\<bar> < 2 ^ 53"
  shows "round_double x = Fin x"
proof (cases "x = 0")
  case True
  then show ?thesis
    using overflow_threshold_gt_one by (simp add: round_double_def round_nearest_even_def)
next
  case False
  obtain i where i: "x = of_int i" using assms(1) by (auto elim: Ints_cases)
  have "i \<noteq> 0" using False i by simp
  then have one: "1 \<le> \<bar>x\<bar>" unfolding i by (simp add: abs_if)
  then have "0 \<le> log 2 \<bar>x\<bar>" by simp
  then have lo: "0 \<le> \<lfloor>log 2 \<bar>x\<bar>\<rfloor>" by simp
  have "\<bar>x\<bar> < 2 powr 53" using assms(2) by (simp add: powr_numeral)
  then have "log 2 \<bar>x\<bar> < 53" using one by (simp add: log_less_iff)
  then have hi: "\<lfloor>log 2 \<bar>x\<bar>\<rfloor> \<le> 52" by linarith
  define e where "e = \<lfloor>log 2 \<bar>x\<bar>\<rfloor>"
  have b: "binade x = e" using lo by (simp add: binade_def e_def)
  define j where "j = nat (52 - e)"
  have "real_of_int (e - 52) = - real j" using hi by (simp add: j_def e_def)
  then have u: "ulp x = 1 / 2 ^ j"
    unfolding ulp_def b by (simp only: powr_minus powr_realpow) (simp add: field_simps)
  have "x / ulp x = x * 2 ^ j" unfolding u by simp
  then have "x / ulp x = of_int (i * 2 ^ j)" unfolding i by simp
  then have "round_half_even (x / ulp x) = i * 2 ^ j" by (simp only: round_half_even_int)
  then have "round_nearest_even x = of_int (i * 2 ^ j) * (1 / 2 ^ j)"
    using False unfolding round_nearest_even_def u by simp
  then have r: "round_nearest_even x = x"
    unfolding i by simp
  have "round_double x = Fin (round_nearest_even x)"
    by (rule below_overflow_threshold [OF False]) (use hi in \<open>simp add: b e_def\<close>)
  then show ?thesis by (simp only: r)
qed

lemmas double_eval =
  double_add_def double_sub_def double_mul_def double_div_def js_sub_def
  round_double_integer round_double_binade [where k = 53] round_double_binade [where k = 54]
  round_double_binade [where k = 55] round_double_binade [where k = 56] round_half_even_def

lemma near_sqrt_2_53_sums:
  "double_sum [94906267, 94906270] = Fin 189812537"
  "double_sum [94906268, 94906271] = Fin 189812539"
  by (simp_all add: double_sum_def double_eval)

lemma near_sqrt_2_53_products:
  "sum_of_products [94906267, 94906270] [94906268, 94906271] = Fin 18014399791000728"
  "sum_of_squares [94906267, 94906270] = Fin 18014399601188188"
  "sum_of_squares [94906268, 94906271] = Fin 18014399980813264"
  by (simp_all add: sum_of_products_def sum_of_squares_def double_eval)

lemma near_sqrt_2_53_numerator:
  "correlation_numerator [94906267, 94906270] [94906268, 94906271] = Fin 16"
  unfolding correlation_numerator_def near_sqrt_2_53_sums near_sqrt_2_53_products Let_def
  by (simp add: double_eval)

lemma near_sqrt_2_53_radicand:
  "correlation_radicand [94906267, 94906270] [94906268, 94906271] = Fin 64"
  unfolding correlation_radicand_def near_sqrt_2_53_sums near_sqrt_2_53_products Let_def
  by (simp add: double_eval)

lemma sqrt_64: "sqrt 64 = 8"
  using real_sqrt_abs [of 8] by simp

lemma near_sqrt_2_53_denominator:
  "correlation_denominator [94906267, 94906270] [94906268, 94906271] = Fin 8"
  unfolding correlation_denominator_def near_sqrt_2_53_radicand double_sqrt_def
  by (simp add: sqrt_64 double_eval)

text \<open>The computation on the vectors of the examples.\<close>

lemma constant_vector_radicand:
  "correlation_radicand [100000001, 100000001, 100000001] [1, 2, 3] = Fin (- 96)"
proof -
  have s: "double_sum [100000001, 100000001, 100000001] = Fin 300000003"
    "double_sum [1, 2, 3] = Fin 6"
    by (simp_all add: double_sum_def double_eval)
  have q: "sum_of_squares [100000001, 100000001, 100000001] = Fin 30000000600000000"
    "sum_of_squares [1, 2, 3] = Fin 14"
    by (simp_all add: sum_of_squares_def double_eval)
  show ?thesis
    unfolding correlation_radicand_def s q Let_def by (simp add: double_eval)
qed

lemma constant_vector_numerator:
  "correlation_numerator [100000001, 100000001, 100000001] [1, 2, 3] = Fin 0"
  by (simp add: correlation_numerator_def double_sum_def sum_of_products_def double_eval)

lemma small_vectors_exact:
  "correlation_numerator [1, 2, 3] [2, 4, 7] = Fin 15"
  "correlation_radicand [1, 2, 3] [2, 4, 7] = Fin 228"
  "correlation_radicand [5, 5, 5] [2, 4, 7] = Fin 0"
  by (simp_all add: correlation_numerator_def correlation_radicand_def double_sum_def
      sum_of_products_def sum_of_squares_def double_eval)

text \<open>
  C7, as amended. On two vectors of the same length \<open>correlation x y\<close> and
  \<open>correlation y x\<close> are the same value (NaN when one of them is), and the value is 0
  whenever the computed denominator is 0. When the computed numerator and the computed
  product under the root are the exact ones, free of rounding error, the value is a
  number between -1 and 1.
\<close>

theorem correlation_symmetric_bounded_when_exact:
  assumes "length x = length y"
  shows "correlation x y = correlation y x
       \<and> (correlation_denominator x y = Fin 0 \<longrightarrow> correlation x y = Fin 0)
       \<and> (correlation_numerator x y = Fin (cov_term x y)
            \<and> correlation_radicand x y = Fin (var_term x * var_term y)
          \<longrightarrow> (\<exists>r. correlation x y = Fin r \<and> - 1 \<le> r \<and> r \<le> 1))"
proof (intro conjI impI)
  show "correlation x y = correlation y x"
    by (rule correlation_commute(3) [OF assms, symmetric])
next
  assume "correlation_denominator x y = Fin 0"
  then show "correlation x y = Fin 0" by (simp add: correlation_def)
next
  assume "correlation_numerator x y = Fin (cov_term x y)
            \<and> correlation_radicand x y = Fin (var_term x * var_term y)"
  then show "\<exists>r. correlation x y = Fin r \<and> - 1 \<le> r \<and> r \<le> 1"
    using correlation_bounded_when_exact [OF assms] by blast
qed

text \<open>
  The property on small integer vectors, whose sums are exact, and on a constant vector,
  whose denominator is 0.
\<close>

theorem correlation_symmetric_bounded_when_exact_witness:
  "length [1, 2, 3 :: real] = length [2, 4, 7 :: real]
   \<and> correlation [1, 2, 3] [2, 4, 7] = correlation [2, 4, 7] [1, 2, 3]
   \<and> correlation_numerator [1, 2, 3] [2, 4, 7] = Fin (cov_term [1, 2, 3] [2, 4, 7])
   \<and> correlation_radicand [1, 2, 3] [2, 4, 7] = Fin (var_term [1, 2, 3] * var_term [2, 4, 7])
   \<and> (\<exists>r. correlation [1, 2, 3] [2, 4, 7] = Fin r \<and> - 1 \<le> r \<and> r \<le> 1)
   \<and> correlation_denominator [5, 5, 5] [2, 4, 7] = Fin 0
   \<and> correlation [5, 5, 5] [2, 4, 7] = Fin 0"
proof -
  have h: "length [1, 2, 3 :: real] = length [2, 4, 7 :: real]" by simp
  have h2: "length [5, 5, 5 :: real] = length [2, 4, 7 :: real]" by simp
  have n: "correlation_numerator [1, 2, 3] [2, 4, 7] = Fin (cov_term [1, 2, 3] [2, 4, 7])"
    unfolding small_vectors_exact by (simp add: cov_term_def)
  have r: "correlation_radicand [1, 2, 3] [2, 4, 7]
             = Fin (var_term [1, 2, 3] * var_term [2, 4, 7])"
    unfolding small_vectors_exact by (simp add: var_term_def)
  have d: "correlation_denominator [5, 5, 5] [2, 4, 7] = Fin 0"
    unfolding correlation_denominator_def small_vectors_exact double_sqrt_def
    by (simp add: double_eval)
  have a: "correlation [1, 2, 3] [2, 4, 7] = correlation [2, 4, 7] [1, 2, 3]"
    and b: "\<exists>r. correlation [1, 2, 3] [2, 4, 7] = Fin r \<and> - 1 \<le> r \<and> r \<le> 1"
    using correlation_symmetric_bounded_when_exact [OF h] n r by blast+
  have c: "correlation [5, 5, 5] [2, 4, 7] = Fin 0"
    using correlation_symmetric_bounded_when_exact [OF h2] d by blast
  show ?thesis
    by (intro conjI) (rule h a n r b d c)+
qed

text \<open>
  With rounding the value leaves the interval. For \<open>x = [94906267, 94906270]\<close> and
  \<open>y = x + 1\<close> the exact numerator and both exact factors under the root are 9, a
  correlation of 1; the squares exceed 2 to the power 53, the computed numerator is 16,
  the computed denominator 8, and the value 2. For the constant vector of three times
  100000001 against \<open>[1, 2, 3]\<close> the exact factor under the root is 0, the computed
  product under the root is -96, the denominator is NaN, which is not 0, and the value
  is NaN.
\<close>

theorem correlation_rounding_counterexample:
  "length [94906267, 94906270 :: real] = length [94906268, 94906271 :: real]
   \<and> cov_term [94906267, 94906270] [94906268, 94906271] = 9
   \<and> var_term [94906267, 94906270] = 9 \<and> var_term [94906268, 94906271] = 9
   \<and> correlation_numerator [94906267, 94906270] [94906268, 94906271] = Fin 16
   \<and> correlation_denominator [94906267, 94906270] [94906268, 94906271] = Fin 8
   \<and> correlation [94906267, 94906270] [94906268, 94906271] = Fin 2
   \<and> var_term [100000001, 100000001, 100000001] = 0
   \<and> correlation_denominator [100000001, 100000001, 100000001] [1, 2, 3] = NaN
   \<and> correlation [100000001, 100000001, 100000001] [1, 2, 3] = NaN"
proof -
  have "correlation [94906267, 94906270] [94906268, 94906271] = Fin 2"
    unfolding correlation_def near_sqrt_2_53_numerator near_sqrt_2_53_denominator Let_def
    by (simp add: double_eval)
  moreover have "cov_term [94906267, 94906270] [94906268, 94906271] = 9"
    by (simp add: cov_term_def)
  moreover have "var_term [94906267, 94906270] = 9" "var_term [94906268, 94906271] = 9"
    "var_term [100000001, 100000001, 100000001] = 0"
    by (simp_all add: var_term_def)
  moreover have d: "correlation_denominator [100000001, 100000001, 100000001] [1, 2, 3] = NaN"
    unfolding correlation_denominator_def constant_vector_radicand double_sqrt_def by simp
  moreover have "correlation [100000001, 100000001, 100000001] [1, 2, 3] = NaN"
    unfolding correlation_def d constant_vector_numerator Let_def
    by (simp add: double_div_def)
  ultimately show ?thesis
    using near_sqrt_2_53_numerator near_sqrt_2_53_denominator by simp
qed

section \<open>Properties of the route calculator\<close>

lemma foldl_best_from_feasible:
  assumes "\<exists>p\<in>S. \<exists>c. b0 = p\<lparr>composite_score := c\<rparr>" and "set xs \<subseteq> S"
  shows "\<exists>p\<in>S. \<exists>c. foldl
               (\<lambda>best pickup.
                  let distance_penalty = getDistancePenalty cur (source_location pickup);
                      composite =
                        js_sub (js_add (Fin (priority_score pickup * 0.4))
                                  (js_mul (efficiency_score pickup) (Fin 0.4)))
                          (Fin (distance_penalty * 0.2));
                      best_score = best_score_of best
                  in if js_gt composite best_score
                     then pickup\<lparr>composite_score := Some composite\<rparr>
                     else best) b0 xs = p\<lparr>composite_score := c\<rparr>"
  using assms
proof (induction xs arbitrary: b0)
  case Nil
  then show ?case by simp
next
  case (Cons x xs)
  have x: "x \<in> S" using Cons.prems(2) by simp
  have s: "set xs \<subseteq> S" using Cons.prems(2) by simp
  show ?case
  proof (cases "js_gt (js_sub (js_add (Fin (priority_score x * 0.4))
                                  (js_mul (efficiency_score x) (Fin 0.4)))
                          (Fin (getDistancePenalty cur (source_location x) * 0.2))) (best_score_of b0)")
    case True
    have "\<exists>p\<in>S. \<exists>c. x\<lparr>composite_score := Some (js_sub (js_add (Fin (priority_score x * 0.4))
                                  (js_mul (efficiency_score x) (Fin 0.4)))
                          (Fin (getDistancePenalty cur (source_location x) * 0.2)))\<rparr> = p\<lparr>composite_score := c\<rparr>"
      using x by blast
    from Cons.IH [OF this s] True show ?thesis by (simp add: Let_def)
  next
    case False
    from Cons.IH [OF Cons.prems(1) s] False show ?thesis by (simp add: Let_def)
  qed
qed

lemma findBestNextPickup_Some:
  assumes "findBestNextPickup cur available vol mx = Some b"
  shows "\<exists>p\<in>set available. (\<exists>c. b = p\<lparr>composite_score := c\<rparr>) \<and> vol + estimated_volume p \<le> mx"
proof -
  let ?S = "{p \<in> set available. vol + estimated_volume p \<le> mx}"
  let ?feasible = "filter (\<lambda>p. vol + estimated_volume p \<le> mx) available"
  obtain first rest where f: "?feasible = first # rest"
    using assms by (cases ?feasible) (simp_all add: findBestNextPickup_def Let_def)
  have sub: "set ?feasible \<subseteq> ?S" by auto
  have "first \<in> ?S" using f sub by (metis list.set_intros(1) subsetD)
  then have init: "\<exists>p\<in>?S. \<exists>c. first = p\<lparr>composite_score := c\<rparr>"
    by (metis (no_types, lifting) OptimizedPickup.surjective OptimizedPickup.update_convs(11))
  have "\<exists>p\<in>?S. \<exists>c. b = p\<lparr>composite_score := c\<rparr>"
    using foldl_best_from_feasible [OF init sub, of cur] assms f
    by (simp add: findBestNextPickup_def Let_def)
  then show ?thesis by blast
qed

lemma findBestNextPickup_None:
  "findBestNextPickup cur available vol mx = None \<longleftrightarrow>
     filter (\<lambda>p. vol + estimated_volume p \<le> mx) available = []"
  by (simp add: findBestNextPickup_def Let_def split: list.splits)

lemma mset_ids_remove_by_id:
  "mset (ids (remove_by_id i xs)) = mset (ids xs) - {#i#}"
  by (induction xs) (auto simp: ids_def)

lemma remove_by_id_absent: "i \<notin> set (ids xs) \<Longrightarrow> remove_by_id i xs = xs"
  by (induction xs) (auto simp: ids_def)

lemma route_loop_invariant:
  assumes "route_loop k drv cur vol time rp avail = (vol', time', rp', avail')"
  shows "mset (ids rp') + mset (ids avail') = mset (ids rp) + mset (ids avail)
       \<and> length rp' \<le> length rp + k
       \<and> (vol \<le> 200 \<longrightarrow> vol' \<le> 200)
       \<and> vol' - vol = sum_list (map estimated_volume rp') - sum_list (map estimated_volume rp)
       \<and> time' - time = sum_list (map estimated_duration rp') - sum_list (map estimated_duration rp)"
  using assms
proof (induction k arbitrary: cur vol time rp avail)
  case 0
  then show ?case by simp
next
  case (Suc k)
  show ?case
  proof (cases "findBestNextPickup cur avail vol 200")
    case None
    with Suc.prems show ?thesis by (simp split: if_splits)
  next
    case (Some b)
    show ?thesis
    proof (cases "length avail > 0")
      case False
      with Suc.prems show ?thesis by simp
    next
      case True
      obtain p c where p: "p \<in> set avail" "b = p\<lparr>composite_score := c\<rparr>"
        "vol + estimated_volume p \<le> 200"
        using findBestNextPickup_Some [OF Some] by blast
      have idb: "pickup_id b = pickup_id p" and volb: "estimated_volume b = estimated_volume p"
        using p(2) by simp_all
      have mem: "pickup_id b \<in># mset (ids avail)"
        using p(1) idb by (auto simp: ids_def)
      have rec: "route_loop k drv (destination_partner b) (vol + estimated_volume b)
               (time + estimated_duration b) (rp @ [b\<lparr>driver_assignment := drv\<rparr>])
               (remove_by_id (pickup_id b) avail) = (vol', time', rp', avail')"
        using Suc.prems Some True by simp
      note ih = Suc.IH [OF rec]
      have m: "mset (ids (rp @ [b\<lparr>driver_assignment := drv\<rparr>]))
                 + mset (ids (remove_by_id (pickup_id b) avail))
               = mset (ids rp) + mset (ids avail)"
      proof -
        have "mset (ids (rp @ [b\<lparr>driver_assignment := drv\<rparr>])) = mset (ids rp) + {#pickup_id b#}"
          by (simp add: ids_def)
        moreover have "{#pickup_id b#} + (mset (ids avail) - {#pickup_id b#}) = mset (ids avail)"
          using mem by simp
        ultimately show ?thesis
          unfolding mset_ids_remove_by_id by (simp add: add.assoc)
      qed
      show ?thesis
        using ih m p(3) volb by (simp add: ids_def)
    qed
  qed
qed

lemma createOptimalRoute_invariant:
  assumes "createOptimalRoute now drv avail = (r, avail')"
  shows "mset (ids (pickups r)) + mset (ids avail') = mset (ids avail)" and "route_ok r"
proof -
  obtain v t rp av where l: "route_loop 4 drv ''depot'' 0 0 [] avail = (v, t, rp, av)"
    using prod_cases4 by blast
  have e: "createOptimalRoute now drv avail =
             (\<lparr> route_id = ''RT_'' @ drv @ ''_'' @ string_of_nat now, driver = drv,
                locations = map source_location rp,
                total_distance = calculateTotalDistance (map source_location rp),
                total_time = t, total_volume = v,
                total_cost = reduce_sum transport_cost rp, pickups = rp \<rparr>, av)"
    by (simp only: createOptimalRoute_def Let_def l prod.case)
  have r: "pickups r = rp" "total_volume r = v" "locations r = map source_location rp" "avail' = av"
    using assms unfolding e by auto
  note inv = route_loop_invariant [OF l]
  show "mset (ids (pickups r)) + mset (ids avail') = mset (ids avail)"
    using inv r by (simp add: ids_def)
  show "route_ok r"
    using inv r by (simp add: route_ok_def)
qed

lemma foldl_remove_absent:
  assumes "\<forall>p\<in>set ps. pickup_id p \<notin> set (ids rem)"
  shows "foldl (\<lambda>rem p. remove_by_id (pickup_id p) rem) rem ps = rem"
  using assms by (induction ps) (simp_all add: remove_by_id_absent)

lemma route_ids_append: "route_ids (rs @ [r]) = route_ids rs @ ids (pickups r)"
  by (simp add: route_ids_def ids_def)

lemma assign_drivers_caps:
  assumes "assign_drivers clock drivers routes remaining = (routes', remaining')"
    and "\<forall>r\<in>set routes. route_ok r"
  shows "\<forall>r\<in>set routes'. route_ok r"
  using assms
proof (induction drivers arbitrary: routes remaining)
  case Nil
  then show ?case by simp
next
  case (Cons d drivers)
  show ?case
  proof (cases "length remaining = 0")
    case True
    with Cons show ?thesis by simp
  next
    case False
    obtain route rem1 where c: "createOptimalRoute (clock (length routes)) d remaining = (route, rem1)"
      by (cases "createOptimalRoute (clock (length routes)) d remaining")
    have ok: "\<forall>r\<in>set (routes @ [route]). route_ok r"
      using Cons.prems(2) createOptimalRoute_invariant(2) [OF c] by simp
    have "assign_drivers clock drivers (routes @ [route])
            (foldl (\<lambda>rem p. remove_by_id (pickup_id p) rem) rem1 (pickups route))
          = (routes', remaining')"
      using Cons.prems(1) False c by (simp add: Let_def)
    from Cons.IH [OF this ok] show ?thesis .
  qed
qed

lemma assign_drivers_ids:
  assumes "assign_drivers clock drivers routes remaining = (routes', remaining')"
    and "distinct (route_ids routes @ ids remaining)"
  shows "mset (route_ids routes') + mset (ids remaining') = mset (route_ids routes) + mset (ids remaining)"
  using assms
proof (induction drivers arbitrary: routes remaining)
  case Nil
  then show ?case by simp
next
  case (Cons d drivers)
  show ?case
  proof (cases "length remaining = 0")
    case True
    with Cons show ?thesis by simp
  next
    case False
    obtain route rem1 where c: "createOptimalRoute (clock (length routes)) d remaining = (route, rem1)"
      by (cases "createOptimalRoute (clock (length routes)) d remaining")
    have m: "mset (ids (pickups route)) + mset (ids rem1) = mset (ids remaining)"
      by (rule createOptimalRoute_invariant(1) [OF c])
    have "distinct (ids remaining)" using Cons.prems(2) by simp
    moreover have "mset (ids (pickups route) @ ids rem1) = mset (ids remaining)"
      using m by simp
    ultimately have d1: "distinct (ids (pickups route) @ ids rem1)"
      using mset_eq_imp_distinct_iff by blast
    then have absent: "\<forall>p\<in>set (pickups route). pickup_id p \<notin> set (ids rem1)"
      by (auto simp: ids_def)
    have same: "foldl (\<lambda>rem p. remove_by_id (pickup_id p) rem) rem1 (pickups route) = rem1"
      by (rule foldl_remove_absent [OF absent])
    have rec: "assign_drivers clock drivers (routes @ [route]) rem1 = (routes', remaining')"
      using Cons.prems(1) False c same by (simp add: Let_def)
    have m2: "mset (route_ids (routes @ [route]) @ ids rem1) = mset (route_ids routes @ ids remaining)"
      using m by (simp add: route_ids_append add.assoc)
    have d2: "distinct (route_ids (routes @ [route]) @ ids rem1)"
      using Cons.prems(2) mset_eq_imp_distinct_iff [OF m2] by blast
    have "mset (route_ids routes') + mset (ids remaining')
          = mset (route_ids (routes @ [route])) + mset (ids rem1)"
      by (rule Cons.IH [OF rec d2])
    then show ?thesis using m2 by simp
  qed
qed

lemma assign_drivers_length: "length routes \<le> length (fst (assign_drivers clock drivers routes remaining))"
proof (induction drivers arbitrary: routes remaining)
  case Nil
  show ?case by simp
next
  case (Cons d drivers)
  show ?case
  proof (cases "length remaining = 0")
    case True
    then show ?thesis using Cons.IH [of routes remaining] by simp
  next
    case False
    obtain route rem1 where c: "createOptimalRoute (clock (length routes)) d remaining = (route, rem1)"
      by (cases "createOptimalRoute (clock (length routes)) d remaining")
    show ?thesis
      using Cons.IH [of "routes @ [route]"
          "foldl (\<lambda>rem p. remove_by_id (pickup_id p) rem) rem1 (pickups route)"] False c
      by (simp add: Let_def)
  qed
qed

lemma assign_drivers_nonempty:
  assumes "drivers \<noteq> []" and "remaining \<noteq> []"
  shows "fst (assign_drivers clock drivers routes remaining) \<noteq> []"
proof -
  obtain d ds where d: "drivers = d # ds" using assms(1) by (cases drivers) auto
  obtain route rem1 where c: "createOptimalRoute (clock (length routes)) d remaining = (route, rem1)"
    by (cases "createOptimalRoute (clock (length routes)) d remaining")
  have "length (routes @ [route]) \<le> length (fst (assign_drivers clock ds (routes @ [route])
          (foldl (\<lambda>rem p. remove_by_id (pickup_id p) rem) rem1 (pickups route))))"
    by (rule assign_drivers_length)
  then show ?thesis using assms(2) d c by (auto simp: Let_def)
qed

lemma assign_drivers_no_pickups: "assign_drivers clock drivers routes [] = (routes, [])"
  by (induction drivers) simp_all

lemma least_time_from_bound:
  "best < i \<Longrightarrow> least_time_from rest best bt i < i + length rest"
proof (induction rest arbitrary: best bt i)
  case Nil
  then show ?case by simp
next
  case (Cons a rest)
  show ?case
  proof (cases "total_time a < bt")
    case True
    have "least_time_from rest i (total_time a) (Suc i) < Suc i + length rest"
      by (rule Cons.IH) simp
    then show ?thesis using True by simp
  next
    case False
    have "best < Suc i" using Cons.prems by simp
    then have "least_time_from rest best bt (Suc i) < Suc i + length rest"
      by (rule Cons.IH)
    then show ?thesis using False by simp
  qed
qed

lemma least_time_index_bound: "routes \<noteq> [] \<Longrightarrow> least_time_index routes < length routes"
  using least_time_from_bound [of 0 1]
  by (cases routes) (auto simp: least_time_index_def)

lemma route_ids_update:
  "b < length routes \<Longrightarrow>
     mset (route_ids (routes[b := r'])) + mset (ids (pickups (routes ! b)))
       = mset (route_ids routes) + mset (ids (pickups r'))"
proof (induction routes arbitrary: b)
  case Nil
  then show ?case by simp
next
  case (Cons r routes)
  show ?case
  proof (cases b)
    case 0
    then show ?thesis by (simp add: route_ids_def ids_def)
  next
    case (Suc k)
    then have "k < length routes" using Cons.prems by simp
    from Cons.IH [OF this] Suc show ?thesis by (simp add: route_ids_def ids_def)
  qed
qed

lemma append_leftovers_ids:
  assumes "routes \<noteq> [] \<or> rest = []"
  shows "\<exists>rs. append_leftovers routes rest = Inr rs
            \<and> mset (route_ids rs) = mset (route_ids routes) + mset (ids rest)
            \<and> map locations rs = map locations routes"
  using assms
proof (induction rest arbitrary: routes)
  case Nil
  then show ?case by (simp add: ids_def)
next
  case (Cons p rest)
  then have ne: "routes \<noteq> []" by simp
  let ?b = "least_time_index routes"
  let ?pushed = "(routes ! ?b)\<lparr> pickups := pickups (routes ! ?b)
                        @ [p\<lparr>driver_assignment := driver (routes ! ?b)\<rparr>] \<rparr>"
  let ?routes' = "routes[?b := updateRouteMetrics ?pushed]"
  have b: "?b < length routes" by (rule least_time_index_bound [OF ne])
  have ne': "?routes' \<noteq> [] \<or> rest = []" using ne by simp
  obtain rs where rs: "append_leftovers ?routes' rest = Inr rs"
    "mset (route_ids rs) = mset (route_ids ?routes') + mset (ids rest)"
    "map locations rs = map locations ?routes'"
    using Cons.IH [OF ne'] by blast
  have pk: "ids (pickups (updateRouteMetrics ?pushed)) = ids (pickups (routes ! ?b)) @ [pickup_id p]"
    by (simp add: updateRouteMetrics_def ids_def)
  have "mset (route_ids ?routes') + mset (ids (pickups (routes ! ?b)))
        = mset (route_ids routes) + mset (ids (pickups (updateRouteMetrics ?pushed)))"
    by (rule route_ids_update [OF b])
  then have m: "mset (route_ids ?routes') = mset (route_ids routes) + {#pickup_id p#}"
    unfolding pk by simp
  have loc: "map locations ?routes' = map locations routes"
    using b by (simp add: map_update updateRouteMetrics_def list_update_same_conv)
  have "append_leftovers routes (p # rest) = Inr rs"
    using rs(1) ne by (simp add: Let_def)
  moreover have "mset (route_ids rs) = mset (route_ids routes) + mset (ids (p # rest))"
    using rs(2) m by (simp add: ids_def)
  moreover have "map locations rs = map locations routes" using rs(3) loc by simp
  ultimately show ?case by blast
qed

lemma string_of_nat_nonempty: "string_of_nat n \<noteq> []"
  by (subst string_of_nat.simps) simp

lemma digit_char_inj:
  assumes "a < 10" "b < 10" "digit_char a = digit_char b"
  shows "a = b"
proof -
  have a: "a = 0 \<or> a = 1 \<or> a = 2 \<or> a = 3 \<or> a = 4 \<or> a = 5 \<or> a = 6 \<or> a = 7 \<or> a = 8 \<or> a = 9"
    using assms(1) by arith
  have b: "b = 0 \<or> b = 1 \<or> b = 2 \<or> b = 3 \<or> b = 4 \<or> b = 5 \<or> b = 6 \<or> b = 7 \<or> b = 8 \<or> b = 9"
    using assms(2) by arith
  show ?thesis
    using a b assms(3) by (elim disjE) (simp_all add: digit_char_def)
qed

lemma string_of_nat_inj: "string_of_nat n = string_of_nat m \<Longrightarrow> n = m"
proof (induction n arbitrary: m rule: less_induct)
  case (less n)
  show ?case
  proof (cases "n < 10")
    case n: True
    show ?thesis
    proof (cases "m < 10")
      case True
      then show ?thesis
        using less.prems n digit_char_inj [of n m]
        by (simp add: string_of_nat.simps [of n] string_of_nat.simps [of m])
    next
      case False
      then show ?thesis
        using less.prems n string_of_nat_nonempty [of "m div 10"]
        by (simp add: string_of_nat.simps [of n] string_of_nat.simps [of m])
    qed
  next
    case n: False
    show ?thesis
    proof (cases "m < 10")
      case True
      then show ?thesis
        using less.prems n string_of_nat_nonempty [of "n div 10"]
        by (simp add: string_of_nat.simps [of n] string_of_nat.simps [of m])
    next
      case False
      have e: "string_of_nat (n div 10) = string_of_nat (m div 10)"
        and d: "digit_char (n mod 10) = digit_char (m mod 10)"
        using less.prems n False
        by (simp_all add: string_of_nat.simps [of n] string_of_nat.simps [of m])
      have "n div 10 < n" using n by simp
      then have q: "n div 10 = m div 10" using less.IH e by blast
      have r: "n mod 10 = m mod 10" using digit_char_inj [OF _ _ d] by simp
      show ?thesis using q r by (metis div_mult_mod_eq)
    qed
  qed
qed

lemma suggestions_from_ids:
  "set (ids (suggestions_from ts dow ext pats input c locs))
     \<subseteq> {''PU'' @ ts @ ''_'' @ string_of_nat k | k. c \<le> k}
   \<and> distinct (ids (suggestions_from ts dow ext pats input c locs))"
proof (induction locs arbitrary: c)
  case Nil
  show ?case by (simp add: ids_def)
next
  case (Cons location rest)
  show ?case
  proof (cases "pats location")
    case None
    then show ?thesis using Cons.IH [of c] by simp
  next
    case (Some pattern)
    let ?tail = "suggestions_from ts dow ext pats input (Suc c) rest"
    have ih: "set (ids ?tail) \<subseteq> {''PU'' @ ts @ ''_'' @ string_of_nat k | k. Suc c \<le> k}"
      and dt: "distinct (ids ?tail)"
      using Cons.IH [of "Suc c"] by simp_all
    have hd: "ids (suggestions_from ts dow ext pats input c (location # rest))
              = (''PU'' @ ts @ ''_'' @ string_of_nat c) # ids ?tail"
      using Some by (simp add: ids_def Let_def)
    have fresh: "''PU'' @ ts @ ''_'' @ string_of_nat c \<notin> set (ids ?tail)"
    proof
      assume "''PU'' @ ts @ ''_'' @ string_of_nat c \<in> set (ids ?tail)"
      then obtain k where k: "Suc c \<le> k"
        "''PU'' @ ts @ ''_'' @ string_of_nat c = ''PU'' @ ts @ ''_'' @ string_of_nat k"
        using ih by blast
      then have "string_of_nat c = string_of_nat k" by simp
      then have "c = k" by (rule string_of_nat_inj)
      then show False using k(1) by simp
    qed
    have sub: "set (ids ?tail) \<subseteq> {''PU'' @ ts @ ''_'' @ string_of_nat k | k. c \<le> k}"
      using ih by (auto intro: Suc_leD)
    show ?thesis
      unfolding hd using fresh dt sub by auto
  qed
qed

lemma generatePickupSuggestions_distinct:
  "distinct (ids (generatePickupSuggestions ts dow ext pats input))"
proof -
  have "mset (ids (generatePickupSuggestions ts dow ext pats input))
        = mset (ids (suggestions_from ts dow ext pats input 1 (available_locations input)))"
    by (simp add: generatePickupSuggestions_def ids_def)
  then show ?thesis
    using suggestions_from_ids [of ts dow ext pats input 1 "available_locations input"]
      mset_eq_imp_distinct_iff by blast
qed

lemma route_ids_concat: "route_ids rs = map pickup_id (concat (map pickups rs))"
  by (simp add: route_ids_def map_concat comp_def)

lemma optimizeRoutes_ids:
  assumes "drivers \<noteq> []" and "distinct (ids cands)"
  shows "\<exists>rs. optimizeRoutes clock cands drivers = Inr rs
            \<and> mset (route_ids rs) = mset (ids cands) \<and> distinct (route_ids rs)"
proof -
  obtain routes left where a: "assign_drivers clock drivers [] cands = (routes, left)"
    by (cases "assign_drivers clock drivers [] cands")
  have m: "mset (route_ids routes) + mset (ids left) = mset (ids cands)"
    using assign_drivers_ids [OF a] assms(2) by (simp add: route_ids_def)
  have ne: "routes \<noteq> [] \<or> left = []"
  proof (cases "cands = []")
    case True
    then show ?thesis using a by (simp add: assign_drivers_no_pickups)
  next
    case False
    then show ?thesis using assign_drivers_nonempty [OF assms(1) False, of clock "[]"] a by simp
  qed
  obtain rs where rs: "append_leftovers routes left = Inr rs"
    "mset (route_ids rs) = mset (route_ids routes) + mset (ids left)"
    using append_leftovers_ids [OF ne] by blast
  have e: "mset (route_ids rs) = mset (ids cands)" using rs(2) m by simp
  have "distinct (route_ids rs)"
    using assms(2) mset_eq_imp_distinct_iff [OF e] by blast
  moreover have "optimizeRoutes clock cands drivers = Inr rs"
    using a rs(1) by (simp add: optimizeRoutes_def)
  ultimately show ?thesis using e by blast
qed

text \<open>
  C9. With at least one driver, \<open>optimizePickups\<close> returns routes (it does not throw), and
  the pickup ids over all returned routes are exactly the ids of the generated
  candidates, each once: no candidate is dropped and no id is in two routes.
\<close>

theorem every_candidate_in_exactly_one_route:
  assumes "available_drivers input \<noteq> []"
  shows "\<exists>rs. optimizePickups_routes clock ts dow ext pats input = Inr rs
            \<and> mset (map pickup_id (concat (map pickups rs)))
                = mset (map pickup_id (generatePickupSuggestions ts dow ext pats input))
            \<and> distinct (map pickup_id (concat (map pickups rs)))"
  using optimizeRoutes_ids [OF assms generatePickupSuggestions_distinct, of clock ts dow ext pats input]
  by (simp add: optimizePickups_routes_def route_ids_concat ids_def)

lemma append_leftovers_Inr:
  assumes "append_leftovers routes rest = Inr rs"
  shows "map locations rs = map locations routes"
proof -
  have "routes \<noteq> [] \<or> rest = []"
    using assms by (cases rest) (auto split: if_splits)
  from append_leftovers_ids [OF this] assms show ?thesis by auto
qed

text \<open>
  C1, as amended. Every route that the per-driver pass builds (\<open>createOptimalRoute\<close>) has at
  most 4 pickups and a total volume of at most 200 lbs, the sum of its pickups' volumes;
  when that pass leaves no candidate over, these routes are the \<open>optimized_routes\<close>
  returned. Candidates left over are appended to the route of least total time without
  regard to either cap; the \<open>locations\<close> of a returned route still number at most 4,
  since an appended pickup is not added to them.
\<close>

theorem built_routes_respect_caps:
  "(\<forall>r\<in>set (fst (assign_drivers clock (available_drivers input) []
                    (generatePickupSuggestions ts dow ext pats input))).
       length (pickups r) \<le> 4 \<and> total_volume r \<le> 200
       \<and> total_volume r = sum_list (map estimated_volume (pickups r)))
   \<and> (snd (assign_drivers clock (available_drivers input) []
              (generatePickupSuggestions ts dow ext pats input)) = [] \<longrightarrow>
       optimizePickups_routes clock ts dow ext pats input =
         Inr (fst (assign_drivers clock (available_drivers input) []
                     (generatePickupSuggestions ts dow ext pats input))))
   \<and> (\<forall>rs. optimizePickups_routes clock ts dow ext pats input = Inr rs \<longrightarrow>
         (\<forall>r\<in>set rs. length (locations r) \<le> 4))"
proof -
  let ?cands = "generatePickupSuggestions ts dow ext pats input"
  obtain routes left where a: "assign_drivers clock (available_drivers input) [] ?cands = (routes, left)"
    by (cases "assign_drivers clock (available_drivers input) [] ?cands")
  have ok: "\<forall>r\<in>set routes. route_ok r"
    using assign_drivers_caps [OF a] by simp
  have one: "\<forall>r\<in>set routes. length (pickups r) \<le> 4 \<and> total_volume r \<le> 200
       \<and> total_volume r = sum_list (map estimated_volume (pickups r))"
    using ok unfolding route_ok_def by blast
  have two: "left = [] \<longrightarrow> optimizePickups_routes clock ts dow ext pats input = Inr routes"
    using a by (simp add: optimizePickups_routes_def optimizeRoutes_def)
  have three: "\<forall>rs. optimizePickups_routes clock ts dow ext pats input = Inr rs \<longrightarrow>
         (\<forall>r\<in>set rs. length (locations r) \<le> 4)"
  proof (intro allI impI ballI)
    fix rs r
    assume rs: "optimizePickups_routes clock ts dow ext pats input = Inr rs" and r: "r \<in> set rs"
    have "append_leftovers routes left = Inr rs"
      using rs a by (simp add: optimizePickups_routes_def optimizeRoutes_def)
    then have "map locations rs = map locations routes" by (rule append_leftovers_Inr)
    then have "locations r \<in> set (map locations routes)" using r by (metis image_eqI set_map)
    then obtain r0 where "r0 \<in> set routes" "locations r = locations r0" by auto
    then show "length (locations r) \<le> 4" using ok by (auto simp: route_ok_def)
  qed
  show ?thesis unfolding a fst_conv snd_conv using one two three by blast
qed

lemmas tracker_eval_defs =
  generatePickupSuggestions_def calculateOptimalTime_def estimateVolume_def
  selectBestDestination_def calculatePriorityScore_def getEstimatedDistance_def
  estimateTransportCost_def estimateDuration_def calculateEfficiencyScore_def
  getDefaultLocationPattern_def no_history_def number_or_def round_half_up_def
  js_sub_def Let_def

lemma string_of_nat_digits:
  "string_of_nat 1 = ''1''" "string_of_nat 2 = ''2''" "string_of_nat 3 = ''3''"
  "string_of_nat 4 = ''4''" "string_of_nat 5 = ''5''"
  by (simp_all add: string_of_nat.simps digit_char_def)

lemma default_suggestion:
  "suggestions_from ''1709596800000'' ''Tuesday'' [] no_history input c (location # rest) =
     (hall_pickup (string_of_nat c) location)
     # suggestions_from ''1709596800000'' ''Tuesday'' [] no_history input (Suc c) rest"
  if "priority_destinations input = None" "time_constraints input = None"
  using that by (simp add: tracker_eval_defs hall_pickup_def)

lemma five_halls_suggestions:
  "generatePickupSuggestions ''1709596800000'' ''Tuesday'' [] no_history five_halls =
     [hall_pickup ''1'' ''Hall A'', hall_pickup ''2'' ''Hall B'', hall_pickup ''3'' ''Hall C'',
      hall_pickup ''4'' ''Hall D'', hall_pickup ''5'' ''Hall E'']"
proof -
  have p: "priority_destinations five_halls = None" "time_constraints five_halls = None"
    by (simp_all add: five_halls_def)
  have l: "available_locations five_halls = [''Hall A'', ''Hall B'', ''Hall C'', ''Hall D'', ''Hall E'']"
    by (simp add: five_halls_def)
  have s: "suggestions_from ''1709596800000'' ''Tuesday'' [] no_history five_halls 1
             [''Hall A'', ''Hall B'', ''Hall C'', ''Hall D'', ''Hall E''] =
     [hall_pickup ''1'' ''Hall A'', hall_pickup ''2'' ''Hall B'', hall_pickup ''3'' ''Hall C'',
      hall_pickup ''4'' ''Hall D'', hall_pickup ''5'' ''Hall E'']"
    unfolding default_suggestion [OF p]
    by (simp add: string_of_nat_digits [symmetric] eval_nat_numeral)
  have k: "priority_score (hall_pickup n l) = 97" for n l by (simp add: hall_pickup_def)
  show ?thesis
    unfolding generatePickupSuggestions_def l s by (simp add: k)
qed


lemma four_rounds: "(4::nat) = Suc (Suc (Suc (Suc 0)))"
  by simp

lemmas routes_eval_defs =
  optimizePickups_routes_def optimizeRoutes_def createOptimalRoute_def findBestNextPickup_def
  best_score_of_def getDistancePenalty_def getEstimatedDistance_def updateRouteMetrics_def
  least_time_index_def reduce_sum_def js_sub_def hall_pickup_def Let_def

text \<open>
  The claim as stated fails as soon as a candidate is left over: five locations without
  history on a Tuesday give five candidates of 45 lbs; the one driver's route takes four,
  the fifth is appended to it, and the returned route has 5 pickups and 225 lbs.
\<close>

theorem leftover_breaks_caps_counterexample:
  "available_locations five_halls \<noteq> [] \<and> available_drivers five_halls \<noteq> []
   \<and> map_sum id (map (\<lambda>r. (length (pickups r), total_volume r, length (locations r))))
       (optimizePickups_routes (\<lambda>k. 1709600000000 + k) ''1709596800000'' ''Tuesday'' []
          no_history five_halls)
     = Inr [(5, 225, 4)]"
proof -
  have d: "available_drivers five_halls = [''D1'']"
    and l: "available_locations five_halls \<noteq> []"
    by (simp_all add: five_halls_def)
  have "map_sum id (map (\<lambda>r. (length (pickups r), total_volume r, length (locations r))))
       (optimizePickups_routes (\<lambda>k. 1709600000000 + k) ''1709596800000'' ''Tuesday'' []
          no_history five_halls)
     = Inr [(5, 225, 4)]"
    unfolding optimizePickups_routes_def five_halls_suggestions d four_rounds
    by (simp add: routes_eval_defs four_rounds)
  then show ?thesis using d l by simp
qed

lemma two_halls_suggestions:
  "generatePickupSuggestions ''1709596800000'' ''Tuesday'' [] no_history two_halls =
     [hall_pickup ''1'' ''Hall A'', hall_pickup ''2'' ''Hall B'']"
proof -
  have p: "priority_destinations two_halls = None" "time_constraints two_halls = None"
    by (simp_all add: two_halls_def)
  have l: "available_locations two_halls = [''Hall A'', ''Hall B'']"
    by (simp add: two_halls_def)
  have s: "suggestions_from ''1709596800000'' ''Tuesday'' [] no_history two_halls 1
             [''Hall A'', ''Hall B''] =
     [hall_pickup ''1'' ''Hall A'', hall_pickup ''2'' ''Hall B'']"
    unfolding default_suggestion [OF p]
    by (simp add: string_of_nat_digits [symmetric] eval_nat_numeral)
  have k: "priority_score (hall_pickup n l) = 97" for n l by (simp add: hall_pickup_def)
  show ?thesis
    unfolding generatePickupSuggestions_def l s by (simp add: k)
qed

theorem every_candidate_in_exactly_one_route_witness:
  "available_drivers five_halls \<noteq> []
   \<and> (\<exists>rs. optimizePickups_routes (\<lambda>k. 1709600000000 + k) ''1709596800000'' ''Tuesday'' []
              no_history five_halls = Inr rs
         \<and> mset (map pickup_id (concat (map pickups rs)))
             = mset [''PU1709596800000_1'', ''PU1709596800000_2'', ''PU1709596800000_3'',
                     ''PU1709596800000_4'', ''PU1709596800000_5'']
         \<and> distinct (map pickup_id (concat (map pickups rs))))"
proof -
  have d: "available_drivers five_halls \<noteq> []" by (simp add: five_halls_def)
  have i: "map pickup_id
             (generatePickupSuggestions ''1709596800000'' ''Tuesday'' [] no_history five_halls)
           = [''PU1709596800000_1'', ''PU1709596800000_2'', ''PU1709596800000_3'',
              ''PU1709596800000_4'', ''PU1709596800000_5'']"
    unfolding five_halls_suggestions by (simp add: hall_pickup_def)
  show ?thesis
    using every_candidate_in_exactly_one_route
      [OF d, of "\<lambda>k. 1709600000000 + k" "''1709596800000''" "''Tuesday''" "[]" no_history] d
    unfolding i by blast
qed

theorem built_routes_respect_caps_witness:
  "snd (assign_drivers (\<lambda>k. 1709600000000 + k) (available_drivers two_halls) []
          (generatePickupSuggestions ''1709596800000'' ''Tuesday'' [] no_history two_halls)) = []
   \<and> map (\<lambda>r. (length (pickups r), total_volume r, length (locations r)))
       (fst (assign_drivers (\<lambda>k. 1709600000000 + k) (available_drivers two_halls) []
          (generatePickupSuggestions ''1709596800000'' ''Tuesday'' [] no_history two_halls)))
     = [(2, 90, 2)]
   \<and> optimizePickups_routes (\<lambda>k. 1709600000000 + k) ''1709596800000'' ''Tuesday'' []
        no_history two_halls
     = Inr (fst (assign_drivers (\<lambda>k. 1709600000000 + k) (available_drivers two_halls) []
          (generatePickupSuggestions ''1709596800000'' ''Tuesday'' [] no_history two_halls)))"
proof -
  have d: "available_drivers two_halls = [''D1'']" by (simp add: two_halls_def)
  have s: "snd (assign_drivers (\<lambda>k. 1709600000000 + k) (available_drivers two_halls) []
          (generatePickupSuggestions ''1709596800000'' ''Tuesday'' [] no_history two_halls)) = []"
    unfolding two_halls_suggestions d
    by (simp add: routes_eval_defs four_rounds)
  have f: "map (\<lambda>r. (length (pickups r), total_volume r, length (locations r)))
       (fst (assign_drivers (\<lambda>k. 1709600000000 + k) (available_drivers two_halls) []
          (generatePickupSuggestions ''1709596800000'' ''Tuesday'' [] no_history two_halls)))
     = [(2, 90, 2)]"
    unfolding two_halls_suggestions d
    by (simp add: routes_eval_defs four_rounds)
  show ?thesis
    using built_routes_respect_caps
      [of "\<lambda>k. 1709600000000 + k" two_halls "''1709596800000''" "''Tuesday''" "[]" no_history]
      s f by blast
qed


section \<open>Repeatable outputs\<close>

lemma createOptimalRoute_clock:
  "erase_route_id (fst (createOptimalRoute now drv av)) = erase_route_id (fst (createOptimalRoute now' drv av))"
  "pickups (fst (createOptimalRoute now drv av)) = pickups (fst (createOptimalRoute now' drv av))"
  "snd (createOptimalRoute now drv av) = snd (createOptimalRoute now' drv av)"
  by (simp_all add: createOptimalRoute_def erase_route_id_def Let_def split: prod.splits)

lemma assign_drivers_clock:
  assumes "map erase_route_id routes = map erase_route_id routes'"
  shows "map erase_route_id (fst (assign_drivers clock ds routes rem))
           = map erase_route_id (fst (assign_drivers clock' ds routes' rem))
       \<and> snd (assign_drivers clock ds routes rem) = snd (assign_drivers clock' ds routes' rem)"
  using assms
proof (induction ds arbitrary: routes routes' rem)
  case Nil
  then show ?case by simp
next
  case (Cons d ds)
  show ?case
  proof (cases "length rem = 0")
    case True
    then show ?thesis using Cons.IH [OF Cons.prems] by simp
  next
    case False
    let ?c = "createOptimalRoute (clock (length routes)) d rem"
    let ?c' = "createOptimalRoute (clock' (length routes')) d rem"
    let ?rem2 = "foldl (\<lambda>rem p. remove_by_id (pickup_id p) rem) (snd ?c) (pickups (fst ?c))"
    have e: "map erase_route_id (routes @ [fst ?c]) = map erase_route_id (routes' @ [fst ?c'])"
      using Cons.prems createOptimalRoute_clock(1) [of "clock (length routes)" d rem] by simp
    have r: "foldl (\<lambda>rem p. remove_by_id (pickup_id p) rem) (snd ?c') (pickups (fst ?c')) = ?rem2"
      using createOptimalRoute_clock(2,3) [of "clock (length routes)" d rem "clock' (length routes')"]
      by simp
    have a: "assign_drivers clock (d # ds) routes rem = assign_drivers clock ds (routes @ [fst ?c]) ?rem2"
      using False by (simp add: Let_def case_prod_beta)
    have b: "assign_drivers clock' (d # ds) routes' rem = assign_drivers clock' ds (routes' @ [fst ?c']) ?rem2"
      using False r by (simp add: Let_def case_prod_beta)
    show ?thesis unfolding a b by (rule Cons.IH [OF e])
  qed
qed

lemma least_time_from_times:
  "map total_time rest = map total_time rest' \<Longrightarrow>
     least_time_from rest best bt i = least_time_from rest' best bt i"
proof (induction rest arbitrary: rest' best bt i)
  case Nil
  then show ?case by simp
next
  case (Cons r rest)
  then obtain r' rs' where r': "rest' = r' # rs'" "total_time r = total_time r'"
    "map total_time rest = map total_time rs'"
    by (cases rest') auto
  show ?case unfolding r'(1) using Cons.IH [OF r'(3)] r'(2) by simp
qed

lemma erase_total_time: "total_time (erase_route_id r) = total_time r"
  by (simp add: erase_route_id_def)

lemma least_time_index_erase:
  assumes "map erase_route_id routes = map erase_route_id routes'"
  shows "least_time_index routes = least_time_index routes'"
proof -
  have "map total_time (map erase_route_id routes) = map total_time (map erase_route_id routes')"
    using assms by simp
  then have t: "map total_time routes = map total_time routes'"
    by (simp add: erase_total_time comp_def)
  show ?thesis
  proof (cases routes)
    case Nil
    then show ?thesis using assms by simp
  next
    case (Cons r rs)
    then obtain r' rs' where c': "routes' = r' # rs'" using assms by (cases routes') auto
    show ?thesis
      using t least_time_from_times [of rs rs' 0 "total_time r" 1]
      unfolding Cons c' by (simp add: least_time_index_def)
  qed
qed

lemma push_erase:
  assumes "erase_route_id x = erase_route_id y"
  shows "erase_route_id (updateRouteMetrics
            (x\<lparr>pickups := pickups x @ [p\<lparr>driver_assignment := driver x\<rparr>]\<rparr>))
       = erase_route_id (updateRouteMetrics
            (y\<lparr>pickups := pickups y @ [p\<lparr>driver_assignment := driver y\<rparr>]\<rparr>))"
  using assms by (cases x; cases y) (simp add: erase_route_id_def updateRouteMetrics_def)

lemma append_leftovers_clock:
  assumes "map erase_route_id routes = map erase_route_id routes'"
  shows "map_sum id (map erase_route_id) (append_leftovers routes rest)
       = map_sum id (map erase_route_id) (append_leftovers routes' rest)"
  using assms
proof (induction rest arbitrary: routes routes')
  case Nil
  then show ?case by simp
next
  case (Cons p rest)
  show ?case
  proof (cases "routes = []")
    case True
    then have "routes' = []" using Cons.prems by simp
    then show ?thesis using True by simp
  next
    case False
    then have ne': "routes' \<noteq> []" using Cons.prems by auto
    let ?b = "least_time_index routes"
    have b': "least_time_index routes' = ?b"
      using least_time_index_erase [OF Cons.prems] by simp
    have len: "length routes = length routes'"
      using Cons.prems by (metis length_map)
    have b: "?b < length routes" by (rule least_time_index_bound [OF False])
    have "erase_route_id (routes ! ?b) = erase_route_id (routes' ! ?b)"
      using Cons.prems b len by (metis nth_map)
    note pe = push_erase [OF this, of p]
    have e: "map erase_route_id (routes[?b := updateRouteMetrics
               ((routes ! ?b)\<lparr>pickups := pickups (routes ! ?b)
                  @ [p\<lparr>driver_assignment := driver (routes ! ?b)\<rparr>]\<rparr>)])
           = map erase_route_id (routes'[?b := updateRouteMetrics
               ((routes' ! ?b)\<lparr>pickups := pickups (routes' ! ?b)
                  @ [p\<lparr>driver_assignment := driver (routes' ! ?b)\<rparr>]\<rparr>)])"
      using Cons.prems pe by (simp add: map_update)
    show ?thesis
      using False ne' Cons.IH [OF e] by (simp add: Let_def b')
  qed
qed

lemma optimizeRoutes_clock:
  "map_sum id (map erase_route_id) (optimizeRoutes clock cands drivers)
     = map_sum id (map erase_route_id) (optimizeRoutes clock' cands drivers)"
proof -
  have a: "map erase_route_id (fst (assign_drivers clock drivers [] cands))
           = map erase_route_id (fst (assign_drivers clock' drivers [] cands))"
    and b: "snd (assign_drivers clock drivers [] cands) = snd (assign_drivers clock' drivers [] cands)"
    using assign_drivers_clock [of "[]" "[]" clock drivers cands clock'] by simp_all
  show ?thesis
    using append_leftovers_clock [OF a, of "snd (assign_drivers clock drivers [] cands)"] b
    by (simp add: optimizeRoutes_def case_prod_beta)
qed

lemma comparison_rng:
  "map erase_percentage_change (getHistoricalComparison rng impact_data periods)
     = map erase_percentage_change (getHistoricalComparison rng' impact_data periods)"
  by (simp add: getHistoricalComparison_def erase_percentage_change_def case_prod_beta)

text \<open>
  C4, as amended. Two calls of a calculator on the same input and the same record store
  return the same output, with two exceptions. The \<open>route_id\<close> of every route of
  \<open>optimizePickups\<close> embeds \<open>Date.now()\<close>: with the route ids blanked, the routes returned
  do not depend on the clock. The \<open>percentage_change\<close> of \<open>getHistoricalComparison\<close> is
  drawn from \<open>Math.random()\<close>: with it blanked, the comparison does not depend on the
  draws. The forecast, the menu plan and the impact projection read neither the clock nor
  the random generator: their models take the request and the record store only.
\<close>

theorem outputs_repeat_up_to_clock_and_random:
  "map_sum id (map erase_route_id) (optimizePickups_routes clock ts dow ext pats input)
     = map_sum id (map erase_route_id) (optimizePickups_routes clock' ts dow ext pats input)
   \<and> map erase_percentage_change (getHistoricalComparison rng impact_data periods)
     = map erase_percentage_change (getHistoricalComparison rng' impact_data periods)"
  using optimizeRoutes_clock comparison_rng by (simp add: optimizePickups_routes_def)

lemma clock_strings:
  "string_of_nat 1709600000000 = ''1709600000000''"
  "string_of_nat 1709600000001 = ''1709600000001''"
  by (simp_all add: string_of_nat.simps digit_char_def)

text \<open>
  The claim as stated fails: \<open>getHistoricalComparison\<close> is not the only exception. The
  same request against the same store, one millisecond apart, returns routes with
  different ids.
\<close>

theorem route_id_clock_counterexample:
  "map_sum id (map route_id)
     (optimizePickups_routes (\<lambda>k. 1709600000000) ''1709596800000'' ''Tuesday'' []
        no_history two_halls) = Inr [''RT_D1_1709600000000'']
   \<and> map_sum id (map route_id)
     (optimizePickups_routes (\<lambda>k. 1709600000001) ''1709596800000'' ''Tuesday'' []
        no_history two_halls) = Inr [''RT_D1_1709600000001'']
   \<and> optimizePickups_routes (\<lambda>k. 1709600000000) ''1709596800000'' ''Tuesday'' []
        no_history two_halls
     \<noteq> optimizePickups_routes (\<lambda>k. 1709600000001) ''1709596800000'' ''Tuesday'' []
        no_history two_halls"
proof -
  have d: "available_drivers two_halls = [''D1'']" by (simp add: two_halls_def)
  have a: "map_sum id (map route_id)
     (optimizePickups_routes (\<lambda>k. 1709600000000) ''1709596800000'' ''Tuesday'' []
        no_history two_halls) = Inr [''RT_D1_1709600000000'']"
    unfolding optimizePickups_routes_def two_halls_suggestions d
    by (simp add: routes_eval_defs four_rounds clock_strings)
  have b: "map_sum id (map route_id)
     (optimizePickups_routes (\<lambda>k. 1709600000001) ''1709596800000'' ''Tuesday'' []
        no_history two_halls) = Inr [''RT_D1_1709600000001'']"
    unfolding optimizePickups_routes_def two_halls_suggestions d
    by (simp add: routes_eval_defs four_rounds clock_strings)
  have c: "optimizePickups_routes (\<lambda>k. 1709600000000) ''1709596800000'' ''Tuesday'' []
        no_history two_halls
     \<noteq> optimizePickups_routes (\<lambda>k. 1709600000001) ''1709596800000'' ''Tuesday'' []
        no_history two_halls"
  proof
    assume "optimizePickups_routes (\<lambda>k. 1709600000000) ''1709596800000'' ''Tuesday'' []
        no_history two_halls
     = optimizePickups_routes (\<lambda>k. 1709600000001) ''1709596800000'' ''Tuesday'' []
        no_history two_halls"
    then have "map_sum id (map route_id)
       (optimizePickups_routes (\<lambda>k. 1709600000000) ''1709596800000'' ''Tuesday'' []
          no_history two_halls)
     = map_sum id (map route_id)
       (optimizePickups_routes (\<lambda>k. 1709600000001) ''1709596800000'' ''Tuesday'' []
          no_history two_halls)"
      by (rule arg_cong)
    then show False unfolding a b by simp
  qed
  show ?thesis by (intro conjI) (rule a b c)+
qed

section \<open>Properties of the menu planner\<close>

lemma lunch_factor: "getCategoryDemandFactor ''lunch'' = Fin 0.8"
  by (simp add: getCategoryDemandFactor_def lookup_or_def)

lemma lunch_base:
  assumes "menu_category (item sc) = ''lunch''"
  shows "calculateBaseQuantity sc students = Fin (lunch_base_quantity students (item sc))"
  using assms
  by (simp add: calculateBaseQuantity_def lunch_factor lunch_base_quantity_def Let_def)

lemma lunch_cost:
  assumes "menu_category (item sc) = ''lunch''"
  shows "estimateItemCost sc students = Fin (lunch_estimated_cost students (item sc))"
  using assms by (simp add: estimateItemCost_def lunch_base lunch_estimated_cost_def)

lemma mset_js_insert: "mset (js_insert compare x xs) = add_mset x (mset xs)"
  by (induction xs) simp_all

lemma mset_js_sort: "mset (js_sort compare xs) = mset xs"
  unfolding js_sort_def by (induction xs) (simp_all add: mset_js_insert)

lemma set_js_sort: "set (js_sort compare xs) = set xs"
  using mset_js_sort [of compare xs] by (metis set_mset_mset)

lemma select_loop_budget:
  assumes "target_categories input = [''lunch'']"
    and "budget_constraint input = Some b" and "b \<noteq> 0"
    and "all_lunch xs"
    and "budget_state (pl_estimated_students input) b st"
  shows "budget_state (pl_estimated_students input) b (select_loop input xs st)
       \<and> (fst st \<noteq> [] \<or> list_ex (\<lambda>sc. lunch_estimated_cost (pl_estimated_students input) (item sc) \<le> b) xs
            \<longrightarrow> fst (select_loop input xs st) \<noteq> [])"
  using assms(4,5)
proof (induction xs arbitrary: st)
  case Nil
  then show ?case by simp
next
  case (Cons sc rest)
  obtain selected counts running where st: "st = (selected, counts, running)"
    by (cases st)
  let ?n = "pl_estimated_students input"
  have lunch: "menu_category (item sc) = ''lunch''" and rest: "all_lunch rest"
    using Cons.prems(1) by (simp_all add: all_lunch_def)
  have inv: "all_lunch selected" "running = Fin (estimated_sum ?n selected)"
    "selected = [] \<longrightarrow> counts ''lunch'' = None"
    "selected \<noteq> [] \<longrightarrow> counts ''lunch'' \<noteq> None \<and> estimated_sum ?n selected \<le> b"
    using Cons.prems(2) unfolding st budget_state_def by simp_all
  have tpc: "target_per_category input = Some 8"
    using assms(1) by (simp add: target_per_category_def)
  have nb: "\<not> no_budget input" using assms(2,3) by (simp add: no_budget_def)
  let ?count = "case counts ''lunch'' of None \<Rightarrow> 0 | Some c \<Rightarrow> c"
  let ?cond = "?count < 8 \<and> length selected < 12
               \<and> estimated_sum ?n selected + lunch_estimated_cost ?n (item sc) \<le> b"
  have step: "select_loop input (sc # rest) st =
      (if ?cond
       then select_loop input rest (selected @ [sc], counts(''lunch'' \<mapsto> ?count + 1),
              Fin (estimated_sum ?n selected + lunch_estimated_cost ?n (item sc)))
       else select_loop input rest st)"
    unfolding st
    by (simp add: lunch tpc nb lunch_cost [OF lunch] inv(2) assms(2) Let_def)
  show ?case
  proof (cases ?cond)
    case True
    let ?st' = "(selected @ [sc], counts(''lunch'' \<mapsto> ?count + 1),
              Fin (estimated_sum ?n selected + lunch_estimated_cost ?n (item sc)))"
    have inv': "budget_state ?n b ?st'"
      using True inv(1) lunch
      by (simp add: budget_state_def all_lunch_def estimated_sum_def)
    have "fst ?st' \<noteq> []" by simp
    then show ?thesis
      using Cons.IH [OF rest inv'] step True by simp
  next
    case False
    have ih: "budget_state ?n b (select_loop input rest st)
       \<and> (fst st \<noteq> [] \<or> list_ex (\<lambda>sc. lunch_estimated_cost ?n (item sc) \<le> b) rest
            \<longrightarrow> fst (select_loop input rest st) \<noteq> [])"
      by (rule Cons.IH [OF rest Cons.prems(2)])
    have "\<not> lunch_estimated_cost ?n (item sc) \<le> b" if "selected = []"
      using False that inv(3) by (simp add: estimated_sum_def)
    then show ?thesis
      using ih step False unfolding st by auto
  qed
qed

lemma select_loop_subset:
  "set (fst (select_loop input xs st)) \<subseteq> set (fst st) \<union> set xs"
proof (induction xs arbitrary: st)
  case Nil
  show ?case by simp
next
  case (Cons sc rest)
  obtain selected counts running where st: "st = (selected, counts, running)"
    by (cases st)
  show ?case
    unfolding st
    using Cons.IH [of "(selected, counts, running)"]
      Cons.IH [of "(selected @ [sc],
         counts(menu_category (item sc) \<mapsto>
           (case counts (menu_category (item sc)) of None \<Rightarrow> 0 | Some c \<Rightarrow> c) + 1),
         js_add running (estimateItemCost sc (pl_estimated_students input)))"]
    by (auto simp add: Let_def)
qed

lemma backfill_subset:
  "set (backfill sorted_items counts cats selected) \<subseteq> set selected \<union> set sorted_items"
proof (induction cats arbitrary: selected)
  case Nil
  show ?case by simp
next
  case (Cons cat cats)
  show ?case
  proof (cases "counts cat = None")
    case False
    then obtain y where "counts cat = Some y" by auto
    then show ?thesis using Cons.IH [of selected] by simp
  next
    case True
    show ?thesis
    proof (cases "find (\<lambda>sc. menu_category (item sc) = cat
                         \<and> item_index sc \<notin> set (map item_index selected)) sorted_items")
      case None
      then show ?thesis using True Cons.IH [of selected] by simp
    next
      case (Some f)
      then have "f \<in> set sorted_items"
        by (auto simp: find_Some_iff)
      then show ?thesis using True Some Cons.IH [of "selected @ [f]"] by auto
    qed
  qed
qed

lemma select_from_subset: "set (select_from input sorted_items) \<subseteq> set sorted_items"
proof -
  obtain selected counts running where
    l: "select_loop input sorted_items ([], Map.empty, Fin 0) = (selected, counts, running)"
    by (cases "select_loop input sorted_items ([], Map.empty, Fin 0)")
  have "set selected \<subseteq> set sorted_items"
    using select_loop_subset [of input sorted_items "([], Map.empty, Fin 0)"] l by simp
  then show ?thesis
    using backfill_subset [of sorted_items counts "target_categories input" selected]
    by (auto simp add: select_from_def l)
qed

lemma scored_items: "map item (map (scoreMenuItem dow month production_data) (enumerate 0 xs)) = xs"
proof -
  have "item \<circ> scoreMenuItem dow month production_data = snd"
    by (rule ext) (simp add: scoreMenuItem_def Let_def)
  then show ?thesis by simp
qed

lemma scored_history:
  "sc \<in> set (map (scoreMenuItem dow month production_data) (enumerate 0 xs)) \<Longrightarrow>
     set (historical_data sc) \<subseteq> set production_data"
  by (auto simp add: scoreMenuItem_def Let_def)

lemma selected_items_available:
  assumes "sc \<in> set (selectOptimalCombination
                        (map (scoreMenuItem dow month production_data) (enumerate 0 xs)) input)"
  shows "item sc \<in> set xs" and "set (historical_data sc) \<subseteq> set production_data"
proof -
  let ?scored = "map (scoreMenuItem dow month production_data) (enumerate 0 xs)"
  have "set (selectOptimalCombination ?scored input) \<subseteq> set ?scored"
    unfolding selectOptimalCombination_def
    using select_from_subset [of input "js_sort (\<lambda>a b. js_sub (sc_composite_score (scores b))
             (sc_composite_score (scores a))) ?scored"]
    by (simp only: set_js_sort)
  then have m: "sc \<in> set ?scored" using assms by blast
  then have "item sc \<in> set (map item ?scored)" by (simp only: set_map) (rule imageI)
  then show "item sc \<in> set xs" unfolding scored_items .
  show "set (historical_data sc) \<subseteq> set production_data" using m by (rule scored_history)
qed

lemma lunch_recommendation:
  assumes "menu_category (item sc) = ''lunch''"
  shows "rec_quantity (generateRecommendation sc input)
           = Fin (lunch_recommended_quantity (pl_estimated_students input) sc)"
    and "cost_per_serving (generateRecommendation sc input) = ingredient_cost_per_serving (item sc)"
    and "rec_category (generateRecommendation sc input) = ''lunch''"
  using assms
  by (simp_all add: generateRecommendation_def lunch_base [OF assms]
      lunch_recommended_quantity_def waste_adjustment_of_def Let_def)

lemma total_cost_fold:
  assumes "all_lunch selected"
  shows "foldl (\<lambda>sum r. js_add sum (js_mul (rec_quantity r) (Fin (cost_per_serving r))))
           (Fin a) (map (\<lambda>sc. generateRecommendation sc input) selected)
         = Fin (a + sum_list (map (\<lambda>sc. lunch_recommended_quantity (pl_estimated_students input) sc
                                        * ingredient_cost_per_serving (item sc)) selected))"
  using assms
proof (induction selected arbitrary: a)
  case Nil
  show ?case by simp
next
  case (Cons sc selected)
  have l: "menu_category (item sc) = ''lunch''" and r: "all_lunch selected"
    using Cons.prems by (simp_all add: all_lunch_def)
  show ?case
    using Cons.IH [OF r, of "a + lunch_recommended_quantity (pl_estimated_students input) sc
                                 * ingredient_cost_per_serving (item sc)"]
    by (simp add: lunch_recommendation(1,2) [OF l] add.assoc)
qed

lemma round_half_up_int: "round_half_up (of_int k) = of_int k"
  by (simp add: round_half_up_def)

lemma round_half_up_mono: "x \<le> y \<Longrightarrow> round_half_up x \<le> round_half_up y"
  by (simp add: round_half_up_def floor_mono)

lemma round_half_up_nonneg: "0 \<le> x \<Longrightarrow> 0 \<le> round_half_up x"
  using round_half_up_mono [of 0 x] round_half_up_int [of 0] by simp

lemma waste_adjustment_le_1:
  assumes "\<forall>d\<in>set (historical_data sc). 0 \<le> waste_percentage d"
  shows "waste_adjustment_of sc \<le> 1"
proof -
  have "0 \<le> reduce_sum waste_percentage (historical_data sc)"
    unfolding reduce_sum_sum_list using assms by (intro sum_list_nonneg) auto
  then have "0 \<le> reduce_sum waste_percentage (historical_data sc)
                  / real (length (historical_data sc))"
    by simp
  then show ?thesis by (simp add: waste_adjustment_of_def)
qed

lemma recommended_le_estimated:
  assumes "0 \<le> students" and "0 \<le> popularity_score (item sc)"
    and "0 \<le> ingredient_cost_per_serving (item sc)"
    and "\<forall>d\<in>set (historical_data sc). 0 \<le> waste_percentage d"
  shows "lunch_recommended_quantity students sc * ingredient_cost_per_serving (item sc)
           \<le> lunch_estimated_cost students (item sc)"
proof -
  let ?lb = "lunch_base_quantity students (item sc)"
  have nn: "0 \<le> ?lb"
    unfolding lunch_base_quantity_def using assms(1,2) by (intro round_half_up_nonneg) simp
  obtain k where k: "?lb = of_int k"
    by (simp add: lunch_base_quantity_def round_half_up_def)
  have "?lb * waste_adjustment_of sc \<le> ?lb"
    using nn waste_adjustment_le_1 [OF assms(4)] by (simp add: mult_left_le)
  then have "round_half_up (?lb * waste_adjustment_of sc) \<le> round_half_up ?lb"
    by (rule round_half_up_mono)
  then have "lunch_recommended_quantity students sc \<le> ?lb"
    unfolding lunch_recommended_quantity_def k round_half_up_int .
  then show ?thesis
    unfolding lunch_estimated_cost_def using assms(3) by (rule mult_right_mono)
qed

lemma backfill_counted:
  assumes "counts ''lunch'' \<noteq> None"
  shows "backfill sorted_items counts [''lunch''] selected = selected"
  using assms by auto

lemma lunch_available:
  "getAvailableItems menu_data [''lunch''] [] = filter (\<lambda>it. menu_category it = ''lunch'') menu_data"
  by (simp add: getAvailableItems_def)

lemma sum_list_le_estimated:
  assumes "\<forall>sc\<in>set selected.
             lunch_recommended_quantity students sc * ingredient_cost_per_serving (item sc)
               \<le> lunch_estimated_cost students (item sc)"
  shows "sum_list (map (\<lambda>sc. lunch_recommended_quantity students sc
                              * ingredient_cost_per_serving (item sc)) selected)
           \<le> estimated_sum students selected"
  unfolding estimated_sum_def using assms by (intro sum_list_mono) simp

lemma lunch_menu:
  fixes input :: PlannerInput and menu_data :: "MenuPlanning list" and dow :: string
    and month :: "nat option" and production_data :: "DailyProduction list"
  assumes t: "target_categories input = [''lunch'']"
    and a: "avoid_items input = None \<or> avoid_items input = Some []"
  defines "avail \<equiv> filter (\<lambda>it. menu_category it = ''lunch'') menu_data"
  defines "scored \<equiv> map (scoreMenuItem dow month production_data) (enumerate 0 avail)"
  defines "chosen \<equiv> selectOptimalCombination scored input"
  shows "recommended_menu (optimizeMenu dow month menu_data production_data input)
           = map (\<lambda>sc. generateRecommendation sc input) chosen"
    and "pr_total_cost (optimizeMenu dow month menu_data production_data input)
           = foldl (\<lambda>sum r. js_add sum (js_mul (rec_quantity r) (Fin (cost_per_serving r))))
               (Fin 0) (map (\<lambda>sc. generateRecommendation sc input) chosen)"
    and "all_lunch chosen"
    and "all_lunch (js_sort (\<lambda>a b. js_sub (sc_composite_score (scores b))
                                (sc_composite_score (scores a))) scored)"
proof -
  have av: "getAvailableItems menu_data (target_categories input)
              (case avoid_items input of None \<Rightarrow> [] | Some a \<Rightarrow> a) = avail"
    using a unfolding t avail_def by (auto simp add: lunch_available)
  show "recommended_menu (optimizeMenu dow month menu_data production_data input)
           = map (\<lambda>sc. generateRecommendation sc input) chosen"
    unfolding optimizeMenu_def av Let_def chosen_def scored_def by simp
  show "pr_total_cost (optimizeMenu dow month menu_data production_data input)
           = foldl (\<lambda>sum r. js_add sum (js_mul (rec_quantity r) (Fin (cost_per_serving r))))
               (Fin 0) (map (\<lambda>sc. generateRecommendation sc input) chosen)"
    unfolding optimizeMenu_def av Let_def chosen_def scored_def by simp
  have "menu_category (item sc) = ''lunch''" if "sc \<in> set chosen" for sc
    using selected_items_available(1) [of sc dow month production_data avail input] that
    unfolding chosen_def scored_def avail_def by simp
  then show "all_lunch chosen" by (simp add: all_lunch_def list_all_iff)
  have "menu_category (item sc) = ''lunch''" if "sc \<in> set scored" for sc
  proof -
    have "item sc \<in> set (map item scored)" using that by (simp only: set_map) (rule imageI)
    then show ?thesis unfolding scored_def scored_items avail_def by simp
  qed
  then show "all_lunch (js_sort (\<lambda>a b. js_sub (sc_composite_score (scores b))
                                (sc_composite_score (scores a))) scored)"
    by (simp add: all_lunch_def list_all_iff set_js_sort)
qed

lemma lunch_menu_budget:
  assumes t: "target_categories input = [''lunch'']"
    and a: "avoid_items input = None \<or> avoid_items input = Some []"
    and b: "budget_constraint input = Some b" "b \<noteq> 0"
    and n: "0 \<le> pl_estimated_students input"
    and m: "\<forall>it\<in>set menu_data. 0 \<le> popularity_score it \<and> 0 \<le> ingredient_cost_per_serving it"
    and p: "\<forall>d\<in>set production_data. 0 \<le> waste_percentage d"
    and f: "\<exists>it\<in>set menu_data. menu_category it = ''lunch''
              \<and> lunch_estimated_cost (pl_estimated_students input) it \<le> b"
  shows "\<exists>c. pr_total_cost (optimizeMenu dow month menu_data production_data input) = Fin c
             \<and> c \<le> b"
proof -
  let ?n = "pl_estimated_students input"
  define avail where "avail = filter (\<lambda>it. menu_category it = ''lunch'') menu_data"
  define scored where "scored = map (scoreMenuItem dow month production_data) (enumerate 0 avail)"
  define sorted where "sorted = js_sort (\<lambda>a b. js_sub (sc_composite_score (scores b))
                                (sc_composite_score (scores a))) scored"
  define chosen where "chosen = selectOptimalCombination scored input"
  note lm = lunch_menu [where input = input and menu_data = menu_data and dow = dow and month = month
      and production_data = production_data, OF t a,
      folded avail_def, folded scored_def, folded chosen_def sorted_def]
  obtain selected counts running where
    l: "select_loop input sorted ([], Map.empty, Fin 0) = (selected, counts, running)"
    by (cases "select_loop input sorted ([], Map.empty, Fin 0)")
  have init: "budget_state ?n b ([], Map.empty, Fin 0)"
    by (simp add: budget_state_def all_lunch_def estimated_sum_def)
  obtain it where it: "it \<in> set menu_data" "menu_category it = ''lunch''"
      "lunch_estimated_cost ?n it \<le> b"
    using f by blast
  have "it \<in> set (map item scored)"
    unfolding scored_def scored_items avail_def using it(1,2) by simp
  then obtain sc where sc: "sc \<in> set scored" "item sc = it" by auto
  have ex: "list_ex (\<lambda>sc. lunch_estimated_cost ?n (item sc) \<le> b) sorted"
    unfolding list_ex_iff sorted_def set_js_sort using sc it(3) by blast
  have inv: "budget_state ?n b (selected, counts, running)" and ne: "selected \<noteq> []"
    using select_loop_budget [OF t b lm(4) init] ex unfolding l by simp_all
  have c: "counts ''lunch'' \<noteq> None" and le: "estimated_sum ?n selected \<le> b"
    using inv ne unfolding budget_state_def by simp_all
  have bf: "backfill sorted counts [''lunch''] selected = selected"
    using c by (rule backfill_counted)
  have ch: "chosen = selected"
    unfolding chosen_def selectOptimalCombination_def select_from_def
    unfolding sorted_def [symmetric] l t by (simp only: Let_def prod.case bf)
  have bound: "lunch_recommended_quantity ?n s * ingredient_cost_per_serving (item s)
                 \<le> lunch_estimated_cost ?n (item s)" if "s \<in> set chosen" for s
  proof -
    have i: "item s \<in> set avail" and h: "set (historical_data s) \<subseteq> set production_data"
      using selected_items_available [of s dow month production_data avail input] that
      unfolding chosen_def scored_def by simp_all
    have "item s \<in> set menu_data" using i unfolding avail_def by simp
    then have "0 \<le> popularity_score (item s)" "0 \<le> ingredient_cost_per_serving (item s)"
      using m by simp_all
    moreover have "\<forall>d\<in>set (historical_data s). 0 \<le> waste_percentage d"
      using h p by blast
    ultimately show ?thesis using n by (intro recommended_le_estimated)
  qed
  let ?c = "sum_list (map (\<lambda>sc. lunch_recommended_quantity ?n sc
                              * ingredient_cost_per_serving (item sc)) chosen)"
  have "pr_total_cost (optimizeMenu dow month menu_data production_data input) = Fin (0 + ?c)"
    unfolding lm(2) by (rule total_cost_fold [OF lm(3)])
  moreover have "?c \<le> estimated_sum ?n chosen"
    using bound by (intro sum_list_le_estimated) simp
  ultimately show ?thesis using le unfolding ch by simp
qed

lemma lunch_menu_category:
  assumes t: "target_categories input = [''lunch'']"
    and a: "avoid_items input = None \<or> avoid_items input = Some []"
  shows "\<forall>r\<in>set (recommended_menu (optimizeMenu dow month menu_data production_data input)).
           rec_category r = ''lunch''"
proof -
  note lm = lunch_menu [where input = input and menu_data = menu_data and dow = dow and month = month
      and production_data = production_data, OF t a]
  show ?thesis
    unfolding lm(1) using lm(3)
    by (auto simp add: all_lunch_def list_all_iff lunch_recommendation(3))
qed

text \<open>
  C2, as amended. For a request with \<open>target_categories = ['lunch']\<close> and no item to avoid,
  every recommendation returned has category \<open>lunch\<close>. When a budget other than 0 is
  supplied, the number of students, the popularity scores, the costs per serving and the
  recorded waste percentages are not negative, and some lunch item of the catalog has an
  estimated cost within the budget, then the returned \<open>total_cost\<close> is a number that does
  not exceed the budget.
\<close>

theorem lunch_menu_within_budget:
  assumes "target_categories input = [''lunch'']"
    and "avoid_items input = None \<or> avoid_items input = Some []"
  shows "(\<forall>r\<in>set (recommended_menu (optimizeMenu dow month menu_data production_data input)).
            rec_category r = ''lunch'')
       \<and> (\<forall>b. budget_constraint input = Some b \<and> b \<noteq> 0
               \<and> 0 \<le> pl_estimated_students input
               \<and> (\<forall>it\<in>set menu_data. 0 \<le> popularity_score it
                                       \<and> 0 \<le> ingredient_cost_per_serving it)
               \<and> (\<forall>d\<in>set production_data. 0 \<le> waste_percentage d)
               \<and> (\<exists>it\<in>set menu_data. menu_category it = ''lunch''
                     \<and> lunch_estimated_cost (pl_estimated_students input) it \<le> b)
             \<longrightarrow> (\<exists>c. pr_total_cost (optimizeMenu dow month menu_data production_data input)
                          = Fin c \<and> c \<le> b))"
  using lunch_menu_category [OF assms] lunch_menu_budget [OF assms] by blast

subsection \<open>The planner on a catalog of two dishes\<close>

lemma easy_preparation: "getPreparationScore ''easy'' = Fin 10"
  by (simp add: getPreparationScore_def lookup_or_def toLowerCase_def toLowerCase_char_def)

lemma all_season_in_march: "getSeasonScore ''all_season'' (Some 2) = 8"
  by (simp add: getSeasonScore_def getSeasonFromMonth_def toLowerCase_def toLowerCase_char_def
      js_includes.simps starts_with.simps Let_def)

lemma score_dish:
  "scoreMenuItem ''Tuesday'' (Some 2) [] (i, dish name popularity 1)
     = scored_dish i (dish name popularity 1) (5.5 + popularity * 0.25)"
  by (simp add: scoreMenuItem_def scored_dish_def getDayOfWeekAdjustment_def
      easy_preparation all_season_in_march dish_def Let_def)

lemma soup_and_pasta_sorted:
  "js_sort (\<lambda>a b. js_sub (sc_composite_score (scores b)) (sc_composite_score (scores a)))
     (map (scoreMenuItem ''Tuesday'' (Some 2) [])
        (enumerate 0 [dish ''Soup'' 1 1, dish ''Pasta'' 10 1]))
   = [scored_dish 1 (dish ''Pasta'' 10 1) 8, scored_dish 0 (dish ''Soup'' 1 1) 5.75]"
  by (simp add: score_dish js_sort_def js_sub_def scored_dish_def)

lemma soup_and_pasta_available:
  "getAvailableItems [dish ''Soup'' 1 1, dish ''Pasta'' 10 1] [''lunch''] []
     = [dish ''Soup'' 1 1, dish ''Pasta'' 10 1]"
  by (simp add: getAvailableItems_def dish_def)

lemma base_quantities:
  "calculateBaseQuantity (scored_dish i (dish name 10 1) c) 1000 = Fin 240"
  "calculateBaseQuantity (scored_dish i (dish name 1 1) c) 1000 = Fin 24"
  "calculateBaseQuantity (scored_dish i (dish name 10 1) c) 10 = Fin 2"
  "calculateBaseQuantity (scored_dish i (dish name 1 1) c) 10 = Fin 0"
  by (simp_all add: calculateBaseQuantity_def scored_dish_def dish_def
      getCategoryDemandFactor_def lookup_or_def round_half_up_def Let_def)

lemma selected_under_budget:
  "selectOptimalCombination
     (map (scoreMenuItem ''Tuesday'' (Some 2) [])
        (enumerate 0 [dish ''Soup'' 1 1, dish ''Pasta'' 10 1])) (lunch_request 1000 (Some 100))
   = [scored_dish 0 (dish ''Soup'' 1 1) 5.75]"
  unfolding selectOptimalCombination_def soup_and_pasta_sorted
  by (simp add: select_from_def estimateItemCost_def base_quantities target_per_category_def
      no_budget_def lunch_request_def Let_def)
    (simp add: scored_dish_def dish_def)

lemma selected_zero_budget:
  "selectOptimalCombination
     (map (scoreMenuItem ''Tuesday'' (Some 2) [])
        (enumerate 0 [dish ''Soup'' 1 1, dish ''Pasta'' 10 1])) (lunch_request 10 (Some 0))
   = [scored_dish 1 (dish ''Pasta'' 10 1) 8, scored_dish 0 (dish ''Soup'' 1 1) 5.75]"
  unfolding selectOptimalCombination_def soup_and_pasta_sorted
  by (simp add: select_from_def estimateItemCost_def base_quantities target_per_category_def
      no_budget_def lunch_request_def Let_def)

lemma recommended_dish:
  "generateRecommendation (scored_dish i (dish name popularity 1) c) input
     = \<lparr> rec_menu_item = name, rec_category = ''lunch'',
         rec_quantity = Math_round (js_mul (calculateBaseQuantity
                          (scored_dish i (dish name popularity 1) c)
                          (pl_estimated_students input)) (Fin 1)),
         expected_waste = js_mul (Math_round (js_mul (calculateBaseQuantity
                          (scored_dish i (dish name popularity 1) c)
                          (pl_estimated_students input)) (Fin 1))) (Fin (15 / 100)),
         cost_per_serving = 1, rec_popularity_score = popularity \<rparr>"
  by (simp add: generateRecommendation_def getExpectedWastePercentage_def lookup_or_def
      Object_prototype_keys_def scored_dish_def dish_def Let_def)

lemma menu_under_budget:
  "recommended_menu (optimizeMenu ''Tuesday'' (Some 2) [dish ''Soup'' 1 1, dish ''Pasta'' 10 1] []
      (lunch_request 1000 (Some 100)))
   = [\<lparr> rec_menu_item = ''Soup'', rec_category = ''lunch'', rec_quantity = Fin 24,
         expected_waste = Fin 3.6, cost_per_serving = 1, rec_popularity_score = 1 \<rparr>]"
proof -
  have a: "avoid_items (lunch_request 1000 (Some 100)) = None"
    and t: "target_categories (lunch_request 1000 (Some 100)) = [''lunch'']"
    and n: "pl_estimated_students (lunch_request 1000 (Some 100)) = 1000"
    by (simp_all add: lunch_request_def)
  show ?thesis
    unfolding optimizeMenu_def a t option.case soup_and_pasta_available Let_def
      selected_under_budget
    by (simp add: recommended_dish n base_quantities round_half_up_def)
qed

lemma menu_zero_budget:
  "recommended_menu (optimizeMenu ''Tuesday'' (Some 2) [dish ''Soup'' 1 1, dish ''Pasta'' 10 1] []
      (lunch_request 10 (Some 0)))
   = [\<lparr> rec_menu_item = ''Pasta'', rec_category = ''lunch'', rec_quantity = Fin 2,
         expected_waste = Fin 0.3, cost_per_serving = 1, rec_popularity_score = 10 \<rparr>,
      \<lparr> rec_menu_item = ''Soup'', rec_category = ''lunch'', rec_quantity = Fin 0,
         expected_waste = Fin 0, cost_per_serving = 1, rec_popularity_score = 1 \<rparr>]"
proof -
  have a: "avoid_items (lunch_request 10 (Some 0)) = None"
    and t: "target_categories (lunch_request 10 (Some 0)) = [''lunch'']"
    and n: "pl_estimated_students (lunch_request 10 (Some 0)) = 10"
    by (simp_all add: lunch_request_def)
  show ?thesis
    unfolding optimizeMenu_def a t option.case soup_and_pasta_available Let_def
      selected_zero_budget
    by (simp add: recommended_dish n base_quantities round_half_up_def)
qed

lemma total_cost_of_menu:
  "pr_total_cost (optimizeMenu dow month menu_data production_data input)
     = foldl (\<lambda>sum r. js_add sum (js_mul (rec_quantity r) (Fin (cost_per_serving r))))
         (Fin 0) (recommended_menu (optimizeMenu dow month menu_data production_data input))"
  by (simp add: optimizeMenu_def Let_def)

text \<open>
  A budget of 0 is read as no budget (\<open>!input.budget_constraint\<close>). For 10 students and
  the catalog of Soup and Pasta, Soup alone is recommended in quantity 0 and costs
  nothing, so the budget 0 can be met; both dishes are selected and the total cost is 2.
\<close>

theorem zero_budget_counterexample:
  "budget_constraint (lunch_request 10 (Some 0)) = Some 0
   \<and> menu_category (dish ''Soup'' 1 1) = ''lunch''
   \<and> lunch_estimated_cost 10 (dish ''Soup'' 1 1) = 0
   \<and> map (\<lambda>r. (rec_menu_item r, rec_quantity r, cost_per_serving r))
        (recommended_menu (optimizeMenu ''Tuesday'' (Some 2)
           [dish ''Soup'' 1 1, dish ''Pasta'' 10 1] [] (lunch_request 10 (Some 0))))
      = [(''Pasta'', Fin 2, 1), (''Soup'', Fin 0, 1)]
   \<and> pr_total_cost (optimizeMenu ''Tuesday'' (Some 2)
        [dish ''Soup'' 1 1, dish ''Pasta'' 10 1] [] (lunch_request 10 (Some 0))) = Fin 2"
proof -
  have "budget_constraint (lunch_request 10 (Some 0)) = Some 0"
    by (simp add: lunch_request_def)
  moreover have "menu_category (dish ''Soup'' 1 1) = ''lunch''"
    by (simp add: dish_def)
  moreover have "lunch_estimated_cost 10 (dish ''Soup'' 1 1) = 0"
    by (simp add: lunch_estimated_cost_def lunch_base_quantity_def round_half_up_def dish_def)
  moreover have "map (\<lambda>r. (rec_menu_item r, rec_quantity r, cost_per_serving r))
        (recommended_menu (optimizeMenu ''Tuesday'' (Some 2)
           [dish ''Soup'' 1 1, dish ''Pasta'' 10 1] [] (lunch_request 10 (Some 0))))
      = [(''Pasta'', Fin 2, 1), (''Soup'', Fin 0, 1)]"
    unfolding menu_zero_budget by simp
  moreover have "pr_total_cost (optimizeMenu ''Tuesday'' (Some 2)
        [dish ''Soup'' 1 1, dish ''Pasta'' 10 1] [] (lunch_request 10 (Some 0))) = Fin 2"
    unfolding total_cost_of_menu menu_zero_budget by simp
  ultimately show ?thesis by (intro conjI)
qed

text \<open>
  The amended property at a request for 1000 students with a budget of 100: Pasta, with
  an estimated cost of 240, is passed over, Soup (24) is the menu.
\<close>

theorem lunch_menu_within_budget_witness:
  "target_categories (lunch_request 1000 (Some 100)) = [''lunch'']
   \<and> budget_constraint (lunch_request 1000 (Some 100)) = Some 100
   \<and> lunch_estimated_cost 1000 (dish ''Soup'' 1 1) = 24
   \<and> map rec_menu_item
        (recommended_menu (optimizeMenu ''Tuesday'' (Some 2)
           [dish ''Soup'' 1 1, dish ''Pasta'' 10 1] [] (lunch_request 1000 (Some 100))))
      = [''Soup'']
   \<and> list_all (\<lambda>r. rec_category r = ''lunch'')
        (recommended_menu (optimizeMenu ''Tuesday'' (Some 2)
           [dish ''Soup'' 1 1, dish ''Pasta'' 10 1] [] (lunch_request 1000 (Some 100))))
   \<and> (\<exists>c. pr_total_cost (optimizeMenu ''Tuesday'' (Some 2)
              [dish ''Soup'' 1 1, dish ''Pasta'' 10 1] [] (lunch_request 1000 (Some 100))) = Fin c
           \<and> c \<le> 100)"
proof -
  let ?input = "lunch_request 1000 (Some 100)"
  let ?menu = "[dish ''Soup'' 1 1, dish ''Pasta'' 10 1]"
  let ?r = "optimizeMenu ''Tuesday'' (Some 2) ?menu [] ?input"
  have t: "target_categories ?input = [''lunch'']"
    and a: "avoid_items ?input = None \<or> avoid_items ?input = Some []"
    and b: "budget_constraint ?input = Some 100"
    and n: "0 \<le> pl_estimated_students ?input"
    by (simp_all add: lunch_request_def)
  have s: "pl_estimated_students ?input = 1000" by (simp add: lunch_request_def)
  have e: "lunch_estimated_cost 1000 (dish ''Soup'' 1 1) = 24"
    by (simp add: lunch_estimated_cost_def lunch_base_quantity_def round_half_up_def dish_def)
  have m: "\<forall>it\<in>set ?menu. 0 \<le> popularity_score it \<and> 0 \<le> ingredient_cost_per_serving it"
    by (simp add: dish_def)
  have p: "\<forall>d\<in>set ([] :: DailyProduction list). 0 \<le> waste_percentage d" by simp
  have f: "\<exists>it\<in>set ?menu. menu_category it = ''lunch''
              \<and> lunch_estimated_cost (pl_estimated_students ?input) it \<le> 100"
    unfolding s using e by (simp add: dish_def)
  note th = lunch_menu_within_budget [of ?input "''Tuesday''" "Some 2" ?menu "[]", OF t a]
  have z: "(100 :: real) \<noteq> 0" by simp
  have c: "\<exists>c. pr_total_cost ?r = Fin c \<and> c \<le> 100"
    using th b z n m p f by blast
  have l: "list_all (\<lambda>r. rec_category r = ''lunch'') (recommended_menu ?r)"
    unfolding list_all_iff using th by blast
  have i: "map rec_menu_item (recommended_menu ?r) = [''Soup'']"
    unfolding menu_under_budget by simp
  show ?thesis using t b e i l c by (intro conjI)
qed

subsection \<open>The catalog after a call of \<open>getMenuSuggestions\<close>\<close>

text \<open>
  The call keeps the rows of the catalog, and keeps their order when a filter applies.
\<close>

lemma getMenuSuggestions_reorders_only:
  "mset (snd (getMenuSuggestions constraints menu_data)) = mset menu_data"
  by (simp add: getMenuSuggestions_def Let_def mset_js_sort split: option.splits)

lemma getMenuSuggestions_filtered:
  assumes "cost_limit constraints = Some c" and "c \<noteq> 0"
  shows "snd (getMenuSuggestions constraints menu_data) = menu_data"
  using assms by (simp add: getMenuSuggestions_def Let_def split: option.splits)

text \<open>
  C8. The loaded record arrays are not left untouched by every operation: without an
  effective constraint \<open>getMenuSuggestions\<close> sorts \<open>this.menu_data\<close> itself by descending
  popularity, and a catalog loaded as Soup, Pasta is Pasta, Soup after the call.
\<close>

theorem suggestions_sort_reorders_catalog:
  "snd (getMenuSuggestions no_constraints [dish ''Soup'' 1 1, dish ''Pasta'' 10 1])
     = [dish ''Pasta'' 10 1, dish ''Soup'' 1 1]
   \<and> snd (getMenuSuggestions no_constraints [dish ''Soup'' 1 1, dish ''Pasta'' 10 1])
     \<noteq> [dish ''Soup'' 1 1, dish ''Pasta'' 10 1]"
  by (simp add: getMenuSuggestions_def no_constraints_def js_sort_def dish_def Let_def)

end
